(* ===== verification/KexPrelude.thy ===== *)
theory KexPrelude
  imports Main "HOL-Library.Word"
begin

text \<open>
  Shared vocabulary of the development: the machine types the C++ sources use, the two
  conversions between a C++ \<open>char\<close> and the integers it is widened to, the error-or-result
  type of functions that throw, and the generic lemmas about words, bits and lists that the
  components share.
\<close>

section \<open>Machine types\<close>

unbundle bit_operations_syntax

text \<open>
  A \<open>std::string\<close> is a list of bytes, which is what HOL's \<open>string\<close> is: a \<open>char\<close> is one
  byte.  \<open>char32_t\<close> and \<open>uint32_t\<close> are 32-bit words and \<open>uint8_t\<close>, \<open>uint16_t\<close>,
  \<open>uint64_t\<close>, \<open>int64_t\<close> words of their width (\<open>sint\<close> reads the signed ones).
\<close>

type_synonym u8 = "8 word"
type_synonym u16 = "16 word"
type_synonym u32 = "32 word"
type_synonym u64 = "64 word"
type_synonym char32 = "32 word"

definition uchar :: "char \<Rightarrow> char32" where
  \<comment> \<open>\<open>static_cast<unsigned char>(c)\<close>, promoted\<close>
  "uchar c = word_of_nat (of_char c)"

definition mk_char :: "char32 \<Rightarrow> char" where
  \<comment> \<open>\<open>static_cast<char>(w)\<close>: the low eight bits\<close>
  "mk_char w = char_of (unat w)"

definition byte_of_char :: "char \<Rightarrow> u8" where
  \<comment> \<open>a \<open>char\<close> stored in a \<open>std::vector<uint8_t>\<close>\<close>
  "byte_of_char c = word_of_nat (of_char c)"

definition char_of_byte :: "u8 \<Rightarrow> char" where
  "char_of_byte b = char_of (unat b)"

section \<open>Fallible code\<close>

text \<open>
  A function that throws returns \<open>Inl\<close> of the error or \<open>Inr\<close> of its result; \<open>sum_bind\<close> is
  the propagation of an exception past the statements after it.
\<close>

definition sum_bind :: "'e + 'a \<Rightarrow> ('a \<Rightarrow> 'e + 'b) \<Rightarrow> 'e + 'b" where
  "sum_bind r f = (case r of Inl e \<Rightarrow> Inl e | Inr x \<Rightarrow> f x)"

lemma sum_bind_simps [simp]:
  "sum_bind (Inl e) f = Inl e"
  "sum_bind (Inr x) f = f x"
  by (simp_all add: sum_bind_def)

lemma sum_bind_eq_Inr [simp]:
  "sum_bind r f = Inr y \<longleftrightarrow> (\<exists>x. r = Inr x \<and> f x = Inr y)"
  by (cases r) auto

lemma sum_bind_eq_Inl:
  "sum_bind r f = Inl e \<longleftrightarrow> r = Inl e \<or> (\<exists>x. r = Inr x \<and> f x = Inl e)"
  by (cases r) auto

lemma sum_bind_cong [fundef_cong]:
  "r = r' \<Longrightarrow> (\<And>x. r' = Inr x \<Longrightarrow> f x = g x) \<Longrightarrow> sum_bind r f = sum_bind r' g"
  by (cases r') auto

text \<open>
  \<open>mapE\<close> is a loop that computes one result per element and stops at the first exception;
  \<open>joinWith\<close> is the loop that puts a separator before every element but the first.
\<close>

fun mapE :: "('a \<Rightarrow> 'e + 'b) \<Rightarrow> 'a list \<Rightarrow> 'e + 'b list" where
  "mapE f [] = Inr []"
| "mapE f (x # xs) = sum_bind (f x) (\<lambda>y. sum_bind (mapE f xs) (\<lambda>ys. Inr (y # ys)))"

lemma mapE_cong [fundef_cong]:
  "xs = ys \<Longrightarrow> (\<And>x. x \<in> set ys \<Longrightarrow> f x = g x) \<Longrightarrow> mapE f xs = mapE g ys"
  by (induction ys arbitrary: xs) auto

lemma mapE_Inr: "(\<And>x. x \<in> set xs \<Longrightarrow> f x = Inr (g x)) \<Longrightarrow> mapE f xs = Inr (map g xs)"
  by (induction xs) auto

fun joinWith :: "'a list \<Rightarrow> 'a list list \<Rightarrow> 'a list" where
  "joinWith sep [] = []"
| "joinWith sep [x] = x"
| "joinWith sep (x # y # xs) = x @ sep @ joinWith sep (y # xs)"

section \<open>Collections of facts\<close>

named_theorems unat_bits \<open>reading bit operations on words as arithmetic on \<open>nat\<close>\<close>
named_theorems char_conv \<open>conversions between bytes and characters\<close>

section \<open>Bytes and characters\<close>

lemma of_char_less_256: "(of_char c :: nat) < 256"
  by simp

lemma unat_uchar [char_conv]: "unat (uchar c) = of_char c"
  by (simp add: uchar_def unsigned_of_nat take_bit_nat_eq_self less_trans [OF of_char_less_256])

lemma of_char_mk_char [char_conv]: "(of_char (mk_char w) :: nat) = unat w mod 256"
  by (simp add: mk_char_def)

lemma unat_uchar_mk_char [char_conv]: "unat (uchar (mk_char w)) = unat w mod 256"
  by (simp add: char_conv)

lemma mk_char_uchar [simp]: "mk_char (uchar c) = c"
  by (simp add: mk_char_def unat_uchar)

lemma uchar_less_256 [simp]: "unat (uchar c) < 256"
  by (simp add: unat_uchar)

lemma uchar_eq_iff [simp]: "uchar c = uchar d \<longleftrightarrow> c = d"
  by (metis mk_char_uchar)

lemma char_of_byte_of_char [simp]: "char_of_byte (byte_of_char c) = c"
  by (simp add: char_of_byte_def byte_of_char_def unsigned_of_nat take_bit_nat_eq_self)

lemma byte_of_char_of_byte [simp]: "byte_of_char (char_of_byte b) = b"
proof -
  have "unat b < 256" using unsigned_less [of b] by simp
  then show ?thesis by (simp add: char_of_byte_def byte_of_char_def)
qed

lemma map_char_of_byte_of_char [simp]: "map (char_of_byte \<circ> byte_of_char) s = s"
  by (induction s) auto

section \<open>Bit operations as arithmetic\<close>

text \<open>
  The sources pack and unpack bytes with shifts, masks and disjunctions of disjoint fields.
  These lemmas read each of them as division, remainder and addition on \<open>nat\<close>, where
  linear arithmetic decides the rest.
\<close>

lemma unat_drop_bit_div [unat_bits]: "unat (drop_bit n w) = unat w div 2 ^ n"
  by (metis drop_bit_eq_div unat_drop_bit_eq)

lemma unat_and_mask [unat_bits]:
  fixes w :: "'a::len word"
  shows "unat (w AND mask n) = unat w mod 2 ^ n"
proof -
  have "unat (w AND mask n) = unat (take_bit n w)"
    by (simp add: take_bit_eq_mask)
  also have "\<dots> = take_bit n (unat w)"
    by (simp add: unsigned_take_bit_eq)
  finally show ?thesis by (simp add: take_bit_eq_mod)
qed

lemma nat_or_disjoint:
  fixes m x :: nat
  assumes "x < 2 ^ k" "2 ^ k dvd m"
  shows "m OR x = m + x"
proof -
  obtain q where q: "m = push_bit k q"
    using assms(2) by (auto simp: dvd_def push_bit_eq_mult ac_simps)
  have x: "x = take_bit k x"
    using assms(1) by (simp add: take_bit_nat_eq_self)
  have "m AND x = 0"
    by (subst x) (auto simp: q bit_eq_iff bit_simps)
  then show ?thesis
    by (simp add: disjunctive_add_eq_or)
qed

lemma unat_or_eq [unat_bits]: "unat (v OR w) = unat v OR unat w"
  by (simp add: unsigned_or_eq)

lemma unat_push_bit [unat_bits]:
  fixes w :: "'a::len word"
  assumes "unat w * 2 ^ n < 2 ^ LENGTH('a)"
  shows "unat (push_bit n w) = unat w * 2 ^ n"
proof -
  have "unat (push_bit n w) = take_bit LENGTH('a) (push_bit n (unat w))"
    by (simp only: unsigned_push_bit_eq)
  also have "push_bit n (unat w) = unat w * 2 ^ n"
    by (simp only: push_bit_eq_mult)
  finally show ?thesis
    using assms by (simp add: take_bit_nat_eq_self)
qed

lemma unat_of_nat_small:
  "n < 2 ^ LENGTH('a) \<Longrightarrow> unat (of_nat n :: 'a::len word) = n"
  by (simp add: unsigned_of_nat take_bit_nat_eq_self)

lemma unat_clear_low:
  fixes w :: "'a::len word"
  shows "unat (w AND NOT (mask k)) = unat w div 2 ^ k * 2 ^ k"
proof -
  have "w AND NOT (mask k) = push_bit k (drop_bit k w)"
    by (rule bit_eqI) (auto simp: bit_simps)
  moreover have "unat w div 2 ^ k * 2 ^ k \<le> unat w" by (metis div_mult_mod_eq le_add1)
  then have "unat w div 2 ^ k * 2 ^ k < 2 ^ LENGTH('a)"
    by (rule le_less_trans) (rule unsigned_less)
  then have "unat (drop_bit k w) * 2 ^ k < 2 ^ LENGTH('a)"
    by (simp only: unat_drop_bit_div)
  ultimately show ?thesis by (simp add: unat_push_bit unat_drop_bit_div)
qed

section \<open>Lists\<close>

lemma take_Suc_nth_append: "i < length xs \<Longrightarrow> take i xs @ [xs ! i] = take (Suc i) xs"
  by (simp add: take_Suc_conv_app_nth)

lemma drop_eq_Cons_nth: "i < length xs \<Longrightarrow> drop i xs = xs ! i # drop (Suc i) xs"
  by (simp add: Cons_nth_drop_Suc)

end
