(* ===== verification/Utf8.thy ===== *)
theory Utf8
  imports KexPrelude
begin

text \<open>
  The UTF-8 codec of \<open>src/src/common/utf8.hxx\<close>: encoding a codepoint, measuring the
  sequence at a byte offset, decoding a byte string, counting and re-encoding.  Bytes are
  \<open>char\<close>s, codepoints 32-bit words.  The lemmas give the round trip from codepoints to
  bytes and back, with the replacement of everything that is not a Unicode scalar value,
  and what the decoder does with bytes that are not UTF-8.
\<close>

section \<open>Encoding\<close>

definition encode :: "char32 \<Rightarrow> string" where
  "encode cp0 =
     (let cp = (if cp0 > 0x10FFFF \<or> (cp0 \<ge> 0xD800 \<and> cp0 \<le> 0xDFFF) then 0xFFFD else cp0)
      in if cp < 0x80 then [mk_char cp]
         else if cp < 0x800 then
           [mk_char (0xC0 OR drop_bit 6 cp),
            mk_char (0x80 OR (cp AND 0x3F))]
         else if cp < 0x10000 then
           [mk_char (0xE0 OR drop_bit 12 cp),
            mk_char (0x80 OR (drop_bit 6 cp AND 0x3F)),
            mk_char (0x80 OR (cp AND 0x3F))]
         else
           [mk_char (0xF0 OR drop_bit 18 cp),
            mk_char (0x80 OR (drop_bit 12 cp AND 0x3F)),
            mk_char (0x80 OR (drop_bit 6 cp AND 0x3F)),
            mk_char (0x80 OR (cp AND 0x3F))])"

definition encodeAll :: "char32 list \<Rightarrow> string" where
  "encodeAll cps = foldl (\<lambda>out cp. out @ encode cp) [] cps"

section \<open>Decoding\<close>

definition leadWidth :: "char32 \<Rightarrow> nat" where
  "leadWidth lead =
     (if lead < 0x80 then 1
      else if lead AND 0xE0 = 0xC0 then 2
      else if lead AND 0xF0 = 0xE0 then 3
      else if lead AND 0xF8 = 0xF0 then 4
      else 1)"

definition sequenceLength :: "string \<Rightarrow> nat \<Rightarrow> nat" where
  "sequenceLength s i =
     (let width = leadWidth (uchar (s ! i))
      in if i + width > length s then 1
         else if list_ex (\<lambda>k. uchar (s ! (i + k)) AND 0xC0 \<noteq> 0x80) [1..<width] then 1
         else width)"

definition decodeAt :: "string \<Rightarrow> nat \<Rightarrow> char32" where
  \<comment> \<open>the codepoint one iteration of \<open>decode\<close> pushes\<close>
  "decodeAt s i =
     (let width = sequenceLength s i;
          lead = uchar (s ! i);
          cp = (if width = 1 then lead
                else if width = 2 then lead AND 0x1F
                else if width = 3 then lead AND 0x0F
                else lead AND 0x07)
      in foldl (\<lambda>cp k. push_bit 6 cp OR (uchar (s ! (i + k)) AND 0x3F)) cp [1..<width])"

lemma sequenceLength_pos [simp]: "0 < sequenceLength s i"
  by (simp add: sequenceLength_def leadWidth_def Let_def)

lemma sequenceLength_le_4: "sequenceLength s i \<le> 4"
  by (simp add: sequenceLength_def leadWidth_def Let_def)

lemma sequenceLength_in_range: "i < length s \<Longrightarrow> i + sequenceLength s i \<le> length s"
  by (simp add: sequenceLength_def Let_def)

function decode_from :: "string \<Rightarrow> nat \<Rightarrow> char32 list" where
  "decode_from s i =
     (if i < length s then decodeAt s i # decode_from s (i + sequenceLength s i) else [])"
  by pat_completeness auto
termination
  by (relation "measure (\<lambda>(s, i). length s - i)") (auto simp: diff_less_mono2)

declare decode_from.simps [simp del]

definition decode :: "string \<Rightarrow> char32 list" where
  "decode s = decode_from s 0"

function utf8_length_from :: "string \<Rightarrow> nat \<Rightarrow> nat \<Rightarrow> nat" where
  "utf8_length_from s i n =
     (if i < length s then utf8_length_from s (i + sequenceLength s i) (n + 1) else n)"
  by pat_completeness auto
termination
  by (relation "measure (\<lambda>(s, i, n). length s - i)") (auto simp: diff_less_mono2)

declare utf8_length_from.simps [simp del]

definition utf8_length :: "string \<Rightarrow> nat" where
  "utf8_length s = utf8_length_from s 0 0"

section \<open>The bytes of a sequence\<close>

text \<open>
  Which leads and continuations the masks accept, read off all 256 bytes, and the bytes
  \<open>encode\<close> writes.
\<close>

lemma leadWidth_bytes:
  "list_all (\<lambda>n. leadWidth (word_of_nat n) =
     (if n < 128 then 1 else if 192 \<le> n \<and> n < 224 then 2
      else if 224 \<le> n \<and> n < 240 then 3 else if 240 \<le> n \<and> n < 248 then 4 else 1)) [0..<256]"
  by code_simp

lemma continuation_bytes:
  "list_all (\<lambda>n. ((word_of_nat n :: char32) AND 0xC0 = 0x80) = (128 \<le> n \<and> n < 192)) [0..<256]"
  by code_simp

lemma leadWidth_uchar:
  "leadWidth (uchar c) =
     (if of_char c < (128::nat) then 1
      else if 192 \<le> (of_char c :: nat) \<and> of_char c < (224::nat) then 2
      else if 224 \<le> (of_char c :: nat) \<and> of_char c < (240::nat) then 3
      else if 240 \<le> (of_char c :: nat) \<and> of_char c < (248::nat) then 4 else 1)"
proof -
  have "(of_char c :: nat) \<in> set [0..<256]" by simp
  with leadWidth_bytes show ?thesis
    unfolding list_all_iff uchar_def by blast
qed

lemma continuation_uchar:
  "uchar c AND 0xC0 = 0x80 \<longleftrightarrow> 128 \<le> (of_char c :: nat) \<and> of_char c < (192::nat)"
proof -
  have "(of_char c :: nat) \<in> set [0..<256]" by simp
  with continuation_bytes show ?thesis
    unfolding list_all_iff uchar_def by blast
qed

lemma unat_and_masks [unat_bits]:
  "unat ((w::char32) AND 0x3F) = unat w mod 64"
  "unat ((w::char32) AND 0x1F) = unat w mod 32"
  "unat ((w::char32) AND 0x0F) = unat w mod 16"
  "unat ((w::char32) AND 0x07) = unat w mod 8"
  using unat_and_mask [of w 6] unat_and_mask [of w 5] unat_and_mask [of w 4] unat_and_mask [of w 3]
  by (simp_all add: mask_eq_exp_minus_1)

lemma or_lead [unat_bits]:
  "x < 64 \<Longrightarrow> (128::nat) OR x = 128 + x"
  "x < 32 \<Longrightarrow> (192::nat) OR x = 192 + x"
  "x < 16 \<Longrightarrow> (224::nat) OR x = 224 + x"
  "x < 8 \<Longrightarrow> (240::nat) OR x = 240 + x"
  using nat_or_disjoint [of x 6 128] nat_or_disjoint [of x 5 192]
    nat_or_disjoint [of x 4 224] nat_or_disjoint [of x 3 240]
  by (simp_all add: dvd_def; presburger)+

lemma continuation_byte:
  "of_char (mk_char (0x80 OR (w AND 0x3F))) = (128 + unat w mod 64 :: nat)"
  by (simp add: char_conv unat_bits)


text \<open>The three lead bytes, and one step of the decoder's accumulation.\<close>

lemma lead_byte_2:
  "unat cp < 0x800 \<Longrightarrow> of_char (mk_char (0xC0 OR drop_bit 6 cp)) = (192 + unat cp div 64 :: nat)"
  by (simp add: char_conv unat_bits less_mult_imp_div_less)

lemma lead_byte_3:
  "unat cp < 0x10000 \<Longrightarrow>
     of_char (mk_char (0xE0 OR drop_bit 12 cp)) = (224 + unat cp div 4096 :: nat)"
  by (simp add: char_conv unat_bits less_mult_imp_div_less)

lemma lead_byte_4:
  "unat cp < 0x200000 \<Longrightarrow>
     of_char (mk_char (0xF0 OR drop_bit 18 cp)) = (240 + unat cp div 262144 :: nat)"
  by (simp add: char_conv unat_bits less_mult_imp_div_less)

lemma unat_accumulate:
  assumes "unat w < 2 ^ 26"
  shows "unat (push_bit 6 w OR (uchar c AND 0x3F)) = unat w * 64 + of_char c mod 64"
proof -
  have "unat (push_bit 6 w) = unat w * 64"
    using assms by (subst unat_push_bit) simp_all
  moreover have "(unat w * 64) OR (of_char c mod 64) = unat w * 64 + (of_char c mod 64 :: nat)"
    by (rule nat_or_disjoint [of _ 6]) simp_all
  ultimately show ?thesis
    by (simp add: unat_bits char_conv)
qed

definition scalarOrReplacement :: "char32 \<Rightarrow> char32" where
  "scalarOrReplacement cp =
     (if cp > 0x10FFFF \<or> (cp \<ge> 0xD800 \<and> cp \<le> 0xDFFF) then 0xFFFD else cp)"

lemma upt_small: "[1..<Suc 0] = []" "[Suc 0..<2] = [1]" "[Suc 0..<3] = [1, 2]" "[Suc 0..<4] = [1, 2, 3]"
  by (simp_all add: upt_rec)

lemma decode_1:
  assumes "of_char a < (128::nat)"
  shows "sequenceLength (a # rest) 0 = 1 \<and> decodeAt (a # rest) 0 = uchar a"
  using assms by (simp add: sequenceLength_def decodeAt_def leadWidth_uchar upt_small)


lemma decode_2:
  assumes "of_char a = 192 + p" "p < 32" "of_char b = 128 + q" "q < (64::nat)"
  shows "sequenceLength (a # b # rest) 0 = 2"
    "unat (decodeAt (a # b # rest) 0) = p * 64 + q"
proof -
  show w: "sequenceLength (a # b # rest) 0 = 2"
    using assms by (simp add: sequenceLength_def leadWidth_uchar continuation_uchar upt_small)
  have "unat (uchar a AND 0x1F) = p" "of_char b mod 64 = q"
    using assms by (simp_all add: unat_bits char_conv mod_add_eq [symmetric])
  then show "unat (decodeAt (a # b # rest) 0) = p * 64 + q"
    using assms(2) by (simp add: w decodeAt_def upt_small unat_accumulate del: push_bit_and push_bit_or)
qed

lemma decode_3:
  assumes "of_char a = 224 + p" "p < 16" "of_char b = 128 + q" "q < (64::nat)"
    "of_char c = 128 + r" "r < (64::nat)"
  shows "sequenceLength (a # b # c # rest) 0 = 3"
    "unat (decodeAt (a # b # c # rest) 0) = p * 4096 + q * 64 + r"
proof -
  show w: "sequenceLength (a # b # c # rest) 0 = 3"
    using assms by (simp add: sequenceLength_def leadWidth_uchar continuation_uchar upt_small)
  have "unat (uchar a AND 0xF) = p" "of_char b mod 64 = q" "of_char c mod 64 = r"
    using assms by (simp_all add: unat_bits char_conv mod_add_eq [symmetric])
  then show "unat (decodeAt (a # b # c # rest) 0) = p * 4096 + q * 64 + r"
    using assms(2,4) by (simp add: w decodeAt_def upt_small unat_accumulate del: push_bit_and push_bit_or)
qed

lemma decode_4:
  assumes "of_char a = 240 + p" "p < 8" "of_char b = 128 + q" "q < (64::nat)"
    "of_char c = 128 + r" "r < (64::nat)" "of_char d = 128 + t" "t < (64::nat)"
  shows "sequenceLength (a # b # c # d # rest) 0 = 4"
    "unat (decodeAt (a # b # c # d # rest) 0) = p * 262144 + q * 4096 + r * 64 + t"
proof -
  show w: "sequenceLength (a # b # c # d # rest) 0 = 4"
    using assms by (simp add: sequenceLength_def leadWidth_uchar continuation_uchar upt_small)
  have "unat (uchar a AND 7) = p" "of_char b mod 64 = q" "of_char c mod 64 = r" "of_char d mod 64 = t"
    using assms by (simp_all add: unat_bits char_conv mod_add_eq [symmetric])
  then show "unat (decodeAt (a # b # c # d # rest) 0) = p * 262144 + q * 4096 + r * 64 + t"
    using assms(2,4,6)
    by (simp add: w decodeAt_def upt_small unat_accumulate del: push_bit_and push_bit_or push_bit_push_bit)
qed

text \<open>The decoder sees only the bytes from its position on.\<close>

lemma sequenceLength_drop:
  assumes "i + j < length s"
  shows "sequenceLength (drop i s) j = sequenceLength s (i + j)"
proof -
  have "length (drop i s) < j + w \<longleftrightarrow> length s < i + j + w" for w
    using assms by auto
  moreover have "i \<le> length s"
    using assms by simp
  ultimately show ?thesis
    unfolding sequenceLength_def Let_def by (simp add: list_ex_iff add.assoc)
qed

lemma decodeAt_drop:
  assumes "i + j < length s"
  shows "decodeAt (drop i s) j = decodeAt s (i + j)"
  using sequenceLength_in_range [OF assms] assms
  unfolding decodeAt_def Let_def
  by (auto simp: sequenceLength_drop add.assoc intro!: foldl_cong)

lemma decode_from_drop: "decode_from (drop i s) j = decode_from s (i + j)"
proof (induction "length s - (i + j)" arbitrary: j rule: less_induct)
  case less
  show ?case
  proof (cases "i + j < length s")
    case True
    have "decode_from (drop i s) (j + sequenceLength s (i + j)) = decode_from s (i + (j + sequenceLength s (i + j)))"
      by (rule less) (use True in \<open>simp add: diff_less_mono2\<close>)
    with True show ?thesis
      by (subst (1 2) decode_from.simps)
        (simp add: sequenceLength_drop decodeAt_drop less_diff_conv ac_simps)
  next
    case False
    then show ?thesis by (subst (1 2) decode_from.simps) (simp add: less_diff_conv add.commute)
  qed
qed

lemma decode_Nil [simp]: "decode [] = []"
  by (simp add: decode_def decode_from.simps)

lemma decode_step:
  assumes "s \<noteq> []"
  shows "decode s = decodeAt s 0 # decode (drop (sequenceLength s 0) s)"
  using assms by (simp add: decode_def decode_from_drop decode_from.simps [of s 0])


section \<open>The round trip\<close>

lemma sextets_3: "n div 4096 * 4096 + n div 64 mod 64 * 64 + n mod 64 = (n::nat)"
proof -
  have "n div 64 div 64 * 64 + n div 64 mod 64 = n div 64" "n div 64 * 64 + n mod 64 = n"
    by (rule div_mult_mod_eq)+
  moreover have "n div 64 div 64 = n div 4096"
    by (simp flip: div_mult2_eq)
  ultimately show ?thesis by linarith
qed

lemma sextets_4:
  "n div 262144 * 262144 + n div 4096 mod 64 * 4096 + n div 64 mod 64 * 64 + n mod 64 = (n::nat)"
proof -
  have "n div 4096 div 64 * 64 + n div 4096 mod 64 = n div 4096"
    by (rule div_mult_mod_eq)
  moreover have "n div 4096 div 64 = n div 262144"
    by (simp flip: div_mult2_eq)
  ultimately show ?thesis using sextets_3 [of n] by linarith
qed

lemma decode_encode_append:
  "decode (encode cp @ rest) = scalarOrReplacement cp # decode rest"
proof -
  define n where "n = unat (scalarOrReplacement cp)"
  have n_max: "n < 0x110000"
    unfolding n_def scalarOrReplacement_def by (simp add: word_less_nat_alt word_le_nat_alt not_less)
  let ?s = "scalarOrReplacement cp"
  have encode_cases: "encode cp = 
     (if n < 0x80 then [mk_char ?s]
      else if n < 0x800 then [mk_char (0xC0 OR drop_bit 6 ?s), mk_char (0x80 OR (?s AND 0x3F))]
      else if n < 0x10000 then
        [mk_char (0xE0 OR drop_bit 12 ?s), mk_char (0x80 OR (drop_bit 6 ?s AND 0x3F)),
         mk_char (0x80 OR (?s AND 0x3F))]
      else [mk_char (0xF0 OR drop_bit 18 ?s), mk_char (0x80 OR (drop_bit 12 ?s AND 0x3F)),
         mk_char (0x80 OR (drop_bit 6 ?s AND 0x3F)), mk_char (0x80 OR (?s AND 0x3F))])"
    unfolding encode_def scalarOrReplacement_def [symmetric] Let_def n_def
    by (simp add: word_less_nat_alt)
  consider "n < 0x80" | "0x80 \<le> n" "n < 0x800" | "0x800 \<le> n" "n < 0x10000" | "0x10000 \<le> n"
    by linarith
  then show ?thesis
  proof cases
    case 1
    then have "of_char (mk_char ?s) < (128::nat)"
      by (simp add: char_conv flip: n_def)
    moreover have "uchar (mk_char ?s) = ?s"
      using 1 by (simp add: word_unat_eq_iff char_conv flip: n_def)
    ultimately show ?thesis
      using 1 by (simp add: encode_cases decode_step decode_1)
  next
    case 2
    note b = lead_byte_2 [of ?s] continuation_byte [of ?s]
    have "unat (decodeAt (encode cp @ rest) 0) = n div 64 * 64 + n mod 64 \<and> sequenceLength (encode cp @ rest) 0 = 2"
      using 2 decode_2 [of _ "n div 64" _ "n mod 64" rest] b by (simp add: encode_cases flip: n_def)
    then show ?thesis
      using 2 by (simp add: decode_step encode_cases n_def word_unat_eq_iff)
  next
    case 3
    note b = lead_byte_3 [of ?s] continuation_byte [of ?s] continuation_byte [of "drop_bit 6 ?s"]
    have "unat (decodeAt (encode cp @ rest) 0) =
        n div 4096 * 4096 + n div 64 mod 64 * 64 + n mod 64 \<and> sequenceLength (encode cp @ rest) 0 = 3"
      using 3 decode_3 [of _ "n div 4096" _ "n div 64 mod 64" _ "n mod 64" rest] b
      by (simp add: encode_cases unat_drop_bit_div flip: n_def)
    moreover have "n div 4096 * 4096 + n div 64 mod 64 * 64 + n mod 64 = n"
      by (rule sextets_3)
    ultimately show ?thesis
      using 3 by (simp add: decode_step encode_cases n_def word_unat_eq_iff)
  next
    case 4
    note b = lead_byte_4 [of ?s] continuation_byte [of ?s] continuation_byte [of "drop_bit 6 ?s"]
      continuation_byte [of "drop_bit 12 ?s"]
    have "unat (decodeAt (encode cp @ rest) 0) =
        n div 262144 * 262144 + n div 4096 mod 64 * 4096 + n div 64 mod 64 * 64 + n mod 64 \<and>
        sequenceLength (encode cp @ rest) 0 = 4"
      using 4 n_max decode_4 [of _ "n div 262144" _ "n div 4096 mod 64" _ "n div 64 mod 64" _ "n mod 64" rest] b
      by (simp add: encode_cases unat_drop_bit_div flip: n_def)
    moreover have "n div 262144 * 262144 + n div 4096 mod 64 * 4096 + n div 64 mod 64 * 64 + n mod 64 = n"
      by (rule sextets_4)
    ultimately show ?thesis
      using 4 by (simp add: decode_step encode_cases n_def word_unat_eq_iff)
  qed
qed

lemma foldl_append_concat: "foldl (\<lambda>out x. out @ f x) out0 xs = out0 @ concat (map f xs)"
  by (induction xs arbitrary: out0) auto

lemma encodeAll_concat: "encodeAll cps = concat (map encode cps)"
  by (simp add: encodeAll_def foldl_append_concat)

lemma encodeAll_simps [simp]:
  "encodeAll [] = []"
  "encodeAll (cp # cps) = encode cp @ encodeAll cps"
  by (simp_all add: encodeAll_concat)

lemma decode_encodeAll: "decode (encodeAll cps) = map scalarOrReplacement cps"
  by (induction cps) (simp_all add: decode_encode_append)

lemma utf8_length_from_decode: "utf8_length_from s i n = n + length (decode_from s i)"
  by (induction s i n rule: utf8_length_from.induct)
    (subst utf8_length_from.simps, subst decode_from.simps, simp)

lemma utf8_length_decode: "utf8_length s = length (decode s)"
  by (simp add: utf8_length_def decode_def utf8_length_from_decode)

text \<open>
  C39: decoding what \<open>encodeAll\<close> wrote gives back the codepoints, one for one and in order,
  with U+FFFD in place of every value that is no Unicode scalar value; and \<open>length\<close> counts
  exactly those codepoints.
\<close>
theorem utf8_roundtrip:
  "decode (encodeAll cps) = map scalarOrReplacement cps \<and>
   utf8_length (encodeAll cps) = length cps"
  by (simp add: decode_encodeAll utf8_length_decode)

lemma decode_singleton: "decode [c] = [uchar c]"
proof -
  have "sequenceLength [c] 0 = 1"
    by (simp add: sequenceLength_def leadWidth_def)
  then show ?thesis
    by (simp add: decode_step decodeAt_def)
qed

lemma uchar_below_surrogates: "uchar c < 0x800"
proof -
  have "unat (uchar c) < 2048" by (rule less_trans [OF uchar_less_256]) simp
  then show ?thesis by (simp add: word_less_nat_alt)
qed

text \<open>
  A byte from 0x80 up that is not part of a sequence decodes as the codepoint of the same
  number, so decoding and re-encoding it yields a two-byte sequence for that codepoint, never
  the encoding of U+FFFD.
\<close>
theorem malformed_byte_reencodes:
  assumes "128 \<le> (of_char c :: nat)"
  shows "encodeAll (decode [c]) = encode (uchar c) \<and> length (encode (uchar c)) = 2 \<and>
    encodeAll (decode [c]) \<noteq> encode 0xFFFD"
proof -
  have "\<not> uchar c < 0x80" "uchar c < 0x800" "\<not> (uchar c > 0x10FFFF \<or> (uchar c \<ge> 0xD800 \<and> uchar c \<le> 0xDFFF))"
    using assms uchar_below_surrogates [of c] by (auto simp: word_less_nat_alt word_le_nat_alt char_conv)
  then have "length (encode (uchar c)) = 2"
    unfolding encode_def Let_def by simp
  moreover have "length (encode 0xFFFD) = 3"
    by (simp add: encode_def)
  ultimately show ?thesis
    by (auto simp: decode_singleton)
qed

theorem malformed_byte_reencodes_witness:
  "encodeAll (decode [CHR 0xE9]) = encode (uchar (CHR 0xE9)) \<and>
   length (encode (uchar (CHR 0xE9))) = 2 \<and>
   encodeAll (decode [CHR 0xE9]) \<noteq> encode 0xFFFD"
  using malformed_byte_reencodes [of "CHR 0xE9"] by fastforce

end
