(* ===== verification/UnicodeTables.thy ===== *)
theory UnicodeTables
  imports KexPrelude
begin

text \<open>
  The Unicode tables of \<open>src/src/common/unicode_category.hxx\<close> and
  \<open>src/src/common/unicode_case.hxx\<close>, entry for entry: the ranges of letters, uppercase,
  lowercase and space codepoints, the runs of the 1:1 case mappings and the full mappings
  that are longer than one codepoint.
\<close>

datatype Range = Range (range_start: char32) (range_end: char32)

record CaseRun =
  run_start :: char32
  run_end :: char32
  stride :: u8
  delta :: u32 \<comment> \<open>\<open>int32_t\<close>\<close>

record FullCase =
  fc_from :: char32
  fc_length :: u8
  fc_to :: "char32 list"

definition run :: "char32 \<Rightarrow> char32 \<Rightarrow> u8 \<Rightarrow> u32 \<Rightarrow> CaseRun" where
  "run a b s d = \<lparr>run_start = a, run_end = b, stride = s, delta = d\<rparr>"

definition full :: "char32 \<Rightarrow> u8 \<Rightarrow> char32 list \<Rightarrow> FullCase" where
  "full c n cs = \<lparr>fc_from = c, fc_length = n, fc_to = cs\<rparr>"

lemma run_sel [simp]:
  "run_start (run a b s d) = a" "run_end (run a b s d) = b"
  "stride (run a b s d) = s" "delta (run a b s d) = d"
  by (simp_all add: run_def)

lemma full_sel [simp]:
  "fc_from (full c n cs) = c" "fc_length (full c n cs) = n" "fc_to (full c n cs) = cs"
  by (simp_all add: full_def)

definition letterRanges :: "Range list" where
  "letterRanges = [
     Range 0x0041 0x005A, Range 0x0061 0x007A, Range 0x00AA 0x00AA, Range 0x00B5 0x00B5,
     Range 0x00BA 0x00BA, Range 0x00C0 0x00D6, Range 0x00D8 0x00F6, Range 0x00F8 0x02C1,
     Range 0x02C6 0x02D1, Range 0x02E0 0x02E4, Range 0x02EC 0x02EC, Range 0x02EE 0x02EE,
     Range 0x0370 0x0374, Range 0x0376 0x0377, Range 0x037A 0x037D, Range 0x037F 0x037F,
     Range 0x0386 0x0386, Range 0x0388 0x038A, Range 0x038C 0x038C, Range 0x038E 0x03A1,
     Range 0x03A3 0x03F5, Range 0x03F7 0x0481, Range 0x048A 0x052F, Range 0x0531 0x0556,
     Range 0x0559 0x0559, Range 0x0560 0x0588, Range 0x05D0 0x05EA, Range 0x05EF 0x05F2,
     Range 0x0620 0x064A, Range 0x066E 0x066F, Range 0x0671 0x06D3, Range 0x06D5 0x06D5,
     Range 0x06E5 0x06E6, Range 0x06EE 0x06EF, Range 0x06FA 0x06FC, Range 0x06FF 0x06FF,
     Range 0x0710 0x0710, Range 0x0712 0x072F, Range 0x074D 0x07A5, Range 0x07B1 0x07B1,
     Range 0x07CA 0x07EA, Range 0x07F4 0x07F5, Range 0x07FA 0x07FA, Range 0x0800 0x0815,
     Range 0x081A 0x081A, Range 0x0824 0x0824, Range 0x0828 0x0828, Range 0x0840 0x0858,
     Range 0x0860 0x086A, Range 0x0870 0x0887, Range 0x0889 0x088F, Range 0x08A0 0x08C9,
     Range 0x0904 0x0939, Range 0x093D 0x093D, Range 0x0950 0x0950, Range 0x0958 0x0961,
     Range 0x0971 0x0980, Range 0x0985 0x098C, Range 0x098F 0x0990, Range 0x0993 0x09A8,
     Range 0x09AA 0x09B0, Range 0x09B2 0x09B2, Range 0x09B6 0x09B9, Range 0x09BD 0x09BD,
     Range 0x09CE 0x09CE, Range 0x09DC 0x09DD, Range 0x09DF 0x09E1, Range 0x09F0 0x09F1,
     Range 0x09FC 0x09FC, Range 0x0A05 0x0A0A, Range 0x0A0F 0x0A10, Range 0x0A13 0x0A28,
     Range 0x0A2A 0x0A30, Range 0x0A32 0x0A33, Range 0x0A35 0x0A36, Range 0x0A38 0x0A39,
     Range 0x0A59 0x0A5C, Range 0x0A5E 0x0A5E, Range 0x0A72 0x0A74, Range 0x0A85 0x0A8D,
     Range 0x0A8F 0x0A91, Range 0x0A93 0x0AA8, Range 0x0AAA 0x0AB0, Range 0x0AB2 0x0AB3,
     Range 0x0AB5 0x0AB9, Range 0x0ABD 0x0ABD, Range 0x0AD0 0x0AD0, Range 0x0AE0 0x0AE1,
     Range 0x0AF9 0x0AF9, Range 0x0B05 0x0B0C, Range 0x0B0F 0x0B10, Range 0x0B13 0x0B28,
     Range 0x0B2A 0x0B30, Range 0x0B32 0x0B33, Range 0x0B35 0x0B39, Range 0x0B3D 0x0B3D,
     Range 0x0B5C 0x0B5D, Range 0x0B5F 0x0B61, Range 0x0B71 0x0B71, Range 0x0B83 0x0B83,
     Range 0x0B85 0x0B8A, Range 0x0B8E 0x0B90, Range 0x0B92 0x0B95, Range 0x0B99 0x0B9A,
     Range 0x0B9C 0x0B9C, Range 0x0B9E 0x0B9F, Range 0x0BA3 0x0BA4, Range 0x0BA8 0x0BAA,
     Range 0x0BAE 0x0BB9, Range 0x0BD0 0x0BD0, Range 0x0C05 0x0C0C, Range 0x0C0E 0x0C10,
     Range 0x0C12 0x0C28, Range 0x0C2A 0x0C39, Range 0x0C3D 0x0C3D, Range 0x0C58 0x0C5A,
     Range 0x0C5C 0x0C5D, Range 0x0C60 0x0C61, Range 0x0C80 0x0C80, Range 0x0C85 0x0C8C,
     Range 0x0C8E 0x0C90, Range 0x0C92 0x0CA8, Range 0x0CAA 0x0CB3, Range 0x0CB5 0x0CB9,
     Range 0x0CBD 0x0CBD, Range 0x0CDC 0x0CDE, Range 0x0CE0 0x0CE1, Range 0x0CF1 0x0CF2,
     Range 0x0D04 0x0D0C, Range 0x0D0E 0x0D10, Range 0x0D12 0x0D3A, Range 0x0D3D 0x0D3D,
     Range 0x0D4E 0x0D4E, Range 0x0D54 0x0D56, Range 0x0D5F 0x0D61, Range 0x0D7A 0x0D7F,
     Range 0x0D85 0x0D96, Range 0x0D9A 0x0DB1, Range 0x0DB3 0x0DBB, Range 0x0DBD 0x0DBD,
     Range 0x0DC0 0x0DC6, Range 0x0E01 0x0E30, Range 0x0E32 0x0E33, Range 0x0E40 0x0E46,
     Range 0x0E81 0x0E82, Range 0x0E84 0x0E84, Range 0x0E86 0x0E8A, Range 0x0E8C 0x0EA3,
     Range 0x0EA5 0x0EA5, Range 0x0EA7 0x0EB0, Range 0x0EB2 0x0EB3, Range 0x0EBD 0x0EBD,
     Range 0x0EC0 0x0EC4, Range 0x0EC6 0x0EC6, Range 0x0EDC 0x0EDF, Range 0x0F00 0x0F00,
     Range 0x0F40 0x0F47, Range 0x0F49 0x0F6C, Range 0x0F88 0x0F8C, Range 0x1000 0x102A,
     Range 0x103F 0x103F, Range 0x1050 0x1055, Range 0x105A 0x105D, Range 0x1061 0x1061,
     Range 0x1065 0x1066, Range 0x106E 0x1070, Range 0x1075 0x1081, Range 0x108E 0x108E,
     Range 0x10A0 0x10C5, Range 0x10C7 0x10C7, Range 0x10CD 0x10CD, Range 0x10D0 0x10FA,
     Range 0x10FC 0x1248, Range 0x124A 0x124D, Range 0x1250 0x1256, Range 0x1258 0x1258,
     Range 0x125A 0x125D, Range 0x1260 0x1288, Range 0x128A 0x128D, Range 0x1290 0x12B0,
     Range 0x12B2 0x12B5, Range 0x12B8 0x12BE, Range 0x12C0 0x12C0, Range 0x12C2 0x12C5,
     Range 0x12C8 0x12D6, Range 0x12D8 0x1310, Range 0x1312 0x1315, Range 0x1318 0x135A,
     Range 0x1380 0x138F, Range 0x13A0 0x13F5, Range 0x13F8 0x13FD, Range 0x1401 0x166C,
     Range 0x166F 0x167F, Range 0x1681 0x169A, Range 0x16A0 0x16EA, Range 0x16F1 0x16F8,
     Range 0x1700 0x1711, Range 0x171F 0x1731, Range 0x1740 0x1751, Range 0x1760 0x176C,
     Range 0x176E 0x1770, Range 0x1780 0x17B3, Range 0x17D7 0x17D7, Range 0x17DC 0x17DC,
     Range 0x1820 0x1878, Range 0x1880 0x1884, Range 0x1887 0x18A8, Range 0x18AA 0x18AA,
     Range 0x18B0 0x18F5, Range 0x1900 0x191E, Range 0x1950 0x196D, Range 0x1970 0x1974,
     Range 0x1980 0x19AB, Range 0x19B0 0x19C9, Range 0x1A00 0x1A16, Range 0x1A20 0x1A54,
     Range 0x1AA7 0x1AA7, Range 0x1B05 0x1B33, Range 0x1B45 0x1B4C, Range 0x1B83 0x1BA0,
     Range 0x1BAE 0x1BAF, Range 0x1BBA 0x1BE5, Range 0x1C00 0x1C23, Range 0x1C4D 0x1C4F,
     Range 0x1C5A 0x1C7D, Range 0x1C80 0x1C8A, Range 0x1C90 0x1CBA, Range 0x1CBD 0x1CBF,
     Range 0x1CE9 0x1CEC, Range 0x1CEE 0x1CF3, Range 0x1CF5 0x1CF6, Range 0x1CFA 0x1CFA,
     Range 0x1D00 0x1DBF, Range 0x1E00 0x1F15, Range 0x1F18 0x1F1D, Range 0x1F20 0x1F45,
     Range 0x1F48 0x1F4D, Range 0x1F50 0x1F57, Range 0x1F59 0x1F59, Range 0x1F5B 0x1F5B,
     Range 0x1F5D 0x1F5D, Range 0x1F5F 0x1F7D, Range 0x1F80 0x1FB4, Range 0x1FB6 0x1FBC,
     Range 0x1FBE 0x1FBE, Range 0x1FC2 0x1FC4, Range 0x1FC6 0x1FCC, Range 0x1FD0 0x1FD3,
     Range 0x1FD6 0x1FDB, Range 0x1FE0 0x1FEC, Range 0x1FF2 0x1FF4, Range 0x1FF6 0x1FFC,
     Range 0x2071 0x2071, Range 0x207F 0x207F, Range 0x2090 0x209C, Range 0x2102 0x2102,
     Range 0x2107 0x2107, Range 0x210A 0x2113, Range 0x2115 0x2115, Range 0x2119 0x211D,
     Range 0x2124 0x2124, Range 0x2126 0x2126, Range 0x2128 0x2128, Range 0x212A 0x212D,
     Range 0x212F 0x2139, Range 0x213C 0x213F, Range 0x2145 0x2149, Range 0x214E 0x214E,
     Range 0x2183 0x2184, Range 0x2C00 0x2CE4, Range 0x2CEB 0x2CEE, Range 0x2CF2 0x2CF3,
     Range 0x2D00 0x2D25, Range 0x2D27 0x2D27, Range 0x2D2D 0x2D2D, Range 0x2D30 0x2D67,
     Range 0x2D6F 0x2D6F, Range 0x2D80 0x2D96, Range 0x2DA0 0x2DA6, Range 0x2DA8 0x2DAE,
     Range 0x2DB0 0x2DB6, Range 0x2DB8 0x2DBE, Range 0x2DC0 0x2DC6, Range 0x2DC8 0x2DCE,
     Range 0x2DD0 0x2DD6, Range 0x2DD8 0x2DDE, Range 0x2E2F 0x2E2F, Range 0x3005 0x3006,
     Range 0x3031 0x3035, Range 0x303B 0x303C, Range 0x3041 0x3096, Range 0x309D 0x309F,
     Range 0x30A1 0x30FA, Range 0x30FC 0x30FF, Range 0x3105 0x312F, Range 0x3131 0x318E,
     Range 0x31A0 0x31BF, Range 0x31F0 0x31FF, Range 0x3400 0x4DBF, Range 0x4E00 0xA48C,
     Range 0xA4D0 0xA4FD, Range 0xA500 0xA60C, Range 0xA610 0xA61F, Range 0xA62A 0xA62B,
     Range 0xA640 0xA66E, Range 0xA67F 0xA69D, Range 0xA6A0 0xA6E5, Range 0xA717 0xA71F,
     Range 0xA722 0xA788, Range 0xA78B 0xA7DC, Range 0xA7F1 0xA801, Range 0xA803 0xA805,
     Range 0xA807 0xA80A, Range 0xA80C 0xA822, Range 0xA840 0xA873, Range 0xA882 0xA8B3,
     Range 0xA8F2 0xA8F7, Range 0xA8FB 0xA8FB, Range 0xA8FD 0xA8FE, Range 0xA90A 0xA925,
     Range 0xA930 0xA946, Range 0xA960 0xA97C, Range 0xA984 0xA9B2, Range 0xA9CF 0xA9CF,
     Range 0xA9E0 0xA9E4, Range 0xA9E6 0xA9EF, Range 0xA9FA 0xA9FE, Range 0xAA00 0xAA28,
     Range 0xAA40 0xAA42, Range 0xAA44 0xAA4B, Range 0xAA60 0xAA76, Range 0xAA7A 0xAA7A,
     Range 0xAA7E 0xAAAF, Range 0xAAB1 0xAAB1, Range 0xAAB5 0xAAB6, Range 0xAAB9 0xAABD,
     Range 0xAAC0 0xAAC0, Range 0xAAC2 0xAAC2, Range 0xAADB 0xAADD, Range 0xAAE0 0xAAEA,
     Range 0xAAF2 0xAAF4, Range 0xAB01 0xAB06, Range 0xAB09 0xAB0E, Range 0xAB11 0xAB16,
     Range 0xAB20 0xAB26, Range 0xAB28 0xAB2E, Range 0xAB30 0xAB5A, Range 0xAB5C 0xAB69,
     Range 0xAB70 0xABE2, Range 0xAC00 0xD7A3, Range 0xD7B0 0xD7C6, Range 0xD7CB 0xD7FB,
     Range 0xF900 0xFA6D, Range 0xFA70 0xFAD9, Range 0xFB00 0xFB06, Range 0xFB13 0xFB17,
     Range 0xFB1D 0xFB1D, Range 0xFB1F 0xFB28, Range 0xFB2A 0xFB36, Range 0xFB38 0xFB3C,
     Range 0xFB3E 0xFB3E, Range 0xFB40 0xFB41, Range 0xFB43 0xFB44, Range 0xFB46 0xFBB1,
     Range 0xFBD3 0xFD3D, Range 0xFD50 0xFD8F, Range 0xFD92 0xFDC7, Range 0xFDF0 0xFDFB,
     Range 0xFE70 0xFE74, Range 0xFE76 0xFEFC, Range 0xFF21 0xFF3A, Range 0xFF41 0xFF5A,
     Range 0xFF66 0xFFBE, Range 0xFFC2 0xFFC7, Range 0xFFCA 0xFFCF, Range 0xFFD2 0xFFD7,
     Range 0xFFDA 0xFFDC, Range 0x10000 0x1000B, Range 0x1000D 0x10026, Range 0x10028 0x1003A,
     Range 0x1003C 0x1003D, Range 0x1003F 0x1004D, Range 0x10050 0x1005D, Range 0x10080 0x100FA,
     Range 0x10280 0x1029C, Range 0x102A0 0x102D0, Range 0x10300 0x1031F, Range 0x1032D 0x10340,
     Range 0x10342 0x10349, Range 0x10350 0x10375, Range 0x10380 0x1039D, Range 0x103A0 0x103C3,
     Range 0x103C8 0x103CF, Range 0x10400 0x1049D, Range 0x104B0 0x104D3, Range 0x104D8 0x104FB,
     Range 0x10500 0x10527, Range 0x10530 0x10563, Range 0x10570 0x1057A, Range 0x1057C 0x1058A,
     Range 0x1058C 0x10592, Range 0x10594 0x10595, Range 0x10597 0x105A1, Range 0x105A3 0x105B1,
     Range 0x105B3 0x105B9, Range 0x105BB 0x105BC, Range 0x105C0 0x105F3, Range 0x10600 0x10736,
     Range 0x10740 0x10755, Range 0x10760 0x10767, Range 0x10780 0x10785, Range 0x10787 0x107B0,
     Range 0x107B2 0x107BA, Range 0x10800 0x10805, Range 0x10808 0x10808, Range 0x1080A 0x10835,
     Range 0x10837 0x10838, Range 0x1083C 0x1083C, Range 0x1083F 0x10855, Range 0x10860 0x10876,
     Range 0x10880 0x1089E, Range 0x108E0 0x108F2, Range 0x108F4 0x108F5, Range 0x10900 0x10915,
     Range 0x10920 0x10939, Range 0x10940 0x10959, Range 0x10980 0x109B7, Range 0x109BE 0x109BF,
     Range 0x10A00 0x10A00, Range 0x10A10 0x10A13, Range 0x10A15 0x10A17, Range 0x10A19 0x10A35,
     Range 0x10A60 0x10A7C, Range 0x10A80 0x10A9C, Range 0x10AC0 0x10AC7, Range 0x10AC9 0x10AE4,
     Range 0x10B00 0x10B35, Range 0x10B40 0x10B55, Range 0x10B60 0x10B72, Range 0x10B80 0x10B91,
     Range 0x10C00 0x10C48, Range 0x10C80 0x10CB2, Range 0x10CC0 0x10CF2, Range 0x10D00 0x10D23,
     Range 0x10D4A 0x10D65, Range 0x10D6F 0x10D85, Range 0x10E80 0x10EA9, Range 0x10EB0 0x10EB1,
     Range 0x10EC2 0x10EC7, Range 0x10F00 0x10F1C, Range 0x10F27 0x10F27, Range 0x10F30 0x10F45,
     Range 0x10F70 0x10F81, Range 0x10FB0 0x10FC4, Range 0x10FE0 0x10FF6, Range 0x11003 0x11037,
     Range 0x11071 0x11072, Range 0x11075 0x11075, Range 0x11083 0x110AF, Range 0x110D0 0x110E8,
     Range 0x11103 0x11126, Range 0x11144 0x11144, Range 0x11147 0x11147, Range 0x11150 0x11172,
     Range 0x11176 0x11176, Range 0x11183 0x111B2, Range 0x111C1 0x111C4, Range 0x111DA 0x111DA,
     Range 0x111DC 0x111DC, Range 0x11200 0x11211, Range 0x11213 0x1122B, Range 0x1123F 0x11240,
     Range 0x11280 0x11286, Range 0x11288 0x11288, Range 0x1128A 0x1128D, Range 0x1128F 0x1129D,
     Range 0x1129F 0x112A8, Range 0x112B0 0x112DE, Range 0x11305 0x1130C, Range 0x1130F 0x11310,
     Range 0x11313 0x11328, Range 0x1132A 0x11330, Range 0x11332 0x11333, Range 0x11335 0x11339,
     Range 0x1133D 0x1133D, Range 0x11350 0x11350, Range 0x1135D 0x11361, Range 0x11380 0x11389,
     Range 0x1138B 0x1138B, Range 0x1138E 0x1138E, Range 0x11390 0x113B5, Range 0x113B7 0x113B7,
     Range 0x113D1 0x113D1, Range 0x113D3 0x113D3, Range 0x11400 0x11434, Range 0x11447 0x1144A,
     Range 0x1145F 0x11461, Range 0x11480 0x114AF, Range 0x114C4 0x114C5, Range 0x114C7 0x114C7,
     Range 0x11580 0x115AE, Range 0x115D8 0x115DB, Range 0x11600 0x1162F, Range 0x11644 0x11644,
     Range 0x11680 0x116AA, Range 0x116B8 0x116B8, Range 0x11700 0x1171A, Range 0x11740 0x11746,
     Range 0x11800 0x1182B, Range 0x118A0 0x118DF, Range 0x118FF 0x11906, Range 0x11909 0x11909,
     Range 0x1190C 0x11913, Range 0x11915 0x11916, Range 0x11918 0x1192F, Range 0x1193F 0x1193F,
     Range 0x11941 0x11941, Range 0x119A0 0x119A7, Range 0x119AA 0x119D0, Range 0x119E1 0x119E1,
     Range 0x119E3 0x119E3, Range 0x11A00 0x11A00, Range 0x11A0B 0x11A32, Range 0x11A3A 0x11A3A,
     Range 0x11A50 0x11A50, Range 0x11A5C 0x11A89, Range 0x11A9D 0x11A9D, Range 0x11AB0 0x11AF8,
     Range 0x11BC0 0x11BE0, Range 0x11C00 0x11C08, Range 0x11C0A 0x11C2E, Range 0x11C40 0x11C40,
     Range 0x11C72 0x11C8F, Range 0x11D00 0x11D06, Range 0x11D08 0x11D09, Range 0x11D0B 0x11D30,
     Range 0x11D46 0x11D46, Range 0x11D60 0x11D65, Range 0x11D67 0x11D68, Range 0x11D6A 0x11D89,
     Range 0x11D98 0x11D98, Range 0x11DB0 0x11DDB, Range 0x11EE0 0x11EF2, Range 0x11F02 0x11F02,
     Range 0x11F04 0x11F10, Range 0x11F12 0x11F33, Range 0x11FB0 0x11FB0, Range 0x12000 0x12399,
     Range 0x12480 0x12543, Range 0x12F90 0x12FF0, Range 0x13000 0x1342F, Range 0x13441 0x13446,
     Range 0x13460 0x143FA, Range 0x14400 0x14646, Range 0x16100 0x1611D, Range 0x16800 0x16A38,
     Range 0x16A40 0x16A5E, Range 0x16A70 0x16ABE, Range 0x16AD0 0x16AED, Range 0x16B00 0x16B2F,
     Range 0x16B40 0x16B43, Range 0x16B63 0x16B77, Range 0x16B7D 0x16B8F, Range 0x16D40 0x16D6C,
     Range 0x16E40 0x16E7F, Range 0x16EA0 0x16EB8, Range 0x16EBB 0x16ED3, Range 0x16F00 0x16F4A,
     Range 0x16F50 0x16F50, Range 0x16F93 0x16F9F, Range 0x16FE0 0x16FE1, Range 0x16FE3 0x16FE3,
     Range 0x16FF2 0x16FF3, Range 0x17000 0x18CD5, Range 0x18CFF 0x18D1E, Range 0x18D80 0x18DF2,
     Range 0x1AFF0 0x1AFF3, Range 0x1AFF5 0x1AFFB, Range 0x1AFFD 0x1AFFE, Range 0x1B000 0x1B122,
     Range 0x1B132 0x1B132, Range 0x1B150 0x1B152, Range 0x1B155 0x1B155, Range 0x1B164 0x1B167,
     Range 0x1B170 0x1B2FB, Range 0x1BC00 0x1BC6A, Range 0x1BC70 0x1BC7C, Range 0x1BC80 0x1BC88,
     Range 0x1BC90 0x1BC99, Range 0x1D400 0x1D454, Range 0x1D456 0x1D49C, Range 0x1D49E 0x1D49F,
     Range 0x1D4A2 0x1D4A2, Range 0x1D4A5 0x1D4A6, Range 0x1D4A9 0x1D4AC, Range 0x1D4AE 0x1D4B9,
     Range 0x1D4BB 0x1D4BB, Range 0x1D4BD 0x1D4C3, Range 0x1D4C5 0x1D505, Range 0x1D507 0x1D50A,
     Range 0x1D50D 0x1D514, Range 0x1D516 0x1D51C, Range 0x1D51E 0x1D539, Range 0x1D53B 0x1D53E,
     Range 0x1D540 0x1D544, Range 0x1D546 0x1D546, Range 0x1D54A 0x1D550, Range 0x1D552 0x1D6A5,
     Range 0x1D6A8 0x1D6C0, Range 0x1D6C2 0x1D6DA, Range 0x1D6DC 0x1D6FA, Range 0x1D6FC 0x1D714,
     Range 0x1D716 0x1D734, Range 0x1D736 0x1D74E, Range 0x1D750 0x1D76E, Range 0x1D770 0x1D788,
     Range 0x1D78A 0x1D7A8, Range 0x1D7AA 0x1D7C2, Range 0x1D7C4 0x1D7CB, Range 0x1DF00 0x1DF1E,
     Range 0x1DF25 0x1DF2A, Range 0x1E030 0x1E06D, Range 0x1E100 0x1E12C, Range 0x1E137 0x1E13D,
     Range 0x1E14E 0x1E14E, Range 0x1E290 0x1E2AD, Range 0x1E2C0 0x1E2EB, Range 0x1E4D0 0x1E4EB,
     Range 0x1E5D0 0x1E5ED, Range 0x1E5F0 0x1E5F0, Range 0x1E6C0 0x1E6DE, Range 0x1E6E0 0x1E6E2,
     Range 0x1E6E4 0x1E6E5, Range 0x1E6E7 0x1E6ED, Range 0x1E6F0 0x1E6F4, Range 0x1E6FE 0x1E6FF,
     Range 0x1E7E0 0x1E7E6, Range 0x1E7E8 0x1E7EB, Range 0x1E7ED 0x1E7EE, Range 0x1E7F0 0x1E7FE,
     Range 0x1E800 0x1E8C4, Range 0x1E900 0x1E943, Range 0x1E94B 0x1E94B, Range 0x1EE00 0x1EE03,
     Range 0x1EE05 0x1EE1F, Range 0x1EE21 0x1EE22, Range 0x1EE24 0x1EE24, Range 0x1EE27 0x1EE27,
     Range 0x1EE29 0x1EE32, Range 0x1EE34 0x1EE37, Range 0x1EE39 0x1EE39, Range 0x1EE3B 0x1EE3B,
     Range 0x1EE42 0x1EE42, Range 0x1EE47 0x1EE47, Range 0x1EE49 0x1EE49, Range 0x1EE4B 0x1EE4B,
     Range 0x1EE4D 0x1EE4F, Range 0x1EE51 0x1EE52, Range 0x1EE54 0x1EE54, Range 0x1EE57 0x1EE57,
     Range 0x1EE59 0x1EE59, Range 0x1EE5B 0x1EE5B, Range 0x1EE5D 0x1EE5D, Range 0x1EE5F 0x1EE5F,
     Range 0x1EE61 0x1EE62, Range 0x1EE64 0x1EE64, Range 0x1EE67 0x1EE6A, Range 0x1EE6C 0x1EE72,
     Range 0x1EE74 0x1EE77, Range 0x1EE79 0x1EE7C, Range 0x1EE7E 0x1EE7E, Range 0x1EE80 0x1EE89,
     Range 0x1EE8B 0x1EE9B, Range 0x1EEA1 0x1EEA3, Range 0x1EEA5 0x1EEA9, Range 0x1EEAB 0x1EEBB,
     Range 0x20000 0x2A6DF, Range 0x2A700 0x2B81D, Range 0x2B820 0x2CEAD, Range 0x2CEB0 0x2EBE0,
     Range 0x2EBF0 0x2EE5D, Range 0x2F800 0x2FA1D, Range 0x30000 0x3134A, Range 0x31350 0x33479]"

definition upperRanges :: "Range list" where
  "upperRanges = [
     Range 0x0041 0x005A, Range 0x00C0 0x00D6, Range 0x00D8 0x00DE, Range 0x0100 0x0100,
     Range 0x0102 0x0102, Range 0x0104 0x0104, Range 0x0106 0x0106, Range 0x0108 0x0108,
     Range 0x010A 0x010A, Range 0x010C 0x010C, Range 0x010E 0x010E, Range 0x0110 0x0110,
     Range 0x0112 0x0112, Range 0x0114 0x0114, Range 0x0116 0x0116, Range 0x0118 0x0118,
     Range 0x011A 0x011A, Range 0x011C 0x011C, Range 0x011E 0x011E, Range 0x0120 0x0120,
     Range 0x0122 0x0122, Range 0x0124 0x0124, Range 0x0126 0x0126, Range 0x0128 0x0128,
     Range 0x012A 0x012A, Range 0x012C 0x012C, Range 0x012E 0x012E, Range 0x0130 0x0130,
     Range 0x0132 0x0132, Range 0x0134 0x0134, Range 0x0136 0x0136, Range 0x0139 0x0139,
     Range 0x013B 0x013B, Range 0x013D 0x013D, Range 0x013F 0x013F, Range 0x0141 0x0141,
     Range 0x0143 0x0143, Range 0x0145 0x0145, Range 0x0147 0x0147, Range 0x014A 0x014A,
     Range 0x014C 0x014C, Range 0x014E 0x014E, Range 0x0150 0x0150, Range 0x0152 0x0152,
     Range 0x0154 0x0154, Range 0x0156 0x0156, Range 0x0158 0x0158, Range 0x015A 0x015A,
     Range 0x015C 0x015C, Range 0x015E 0x015E, Range 0x0160 0x0160, Range 0x0162 0x0162,
     Range 0x0164 0x0164, Range 0x0166 0x0166, Range 0x0168 0x0168, Range 0x016A 0x016A,
     Range 0x016C 0x016C, Range 0x016E 0x016E, Range 0x0170 0x0170, Range 0x0172 0x0172,
     Range 0x0174 0x0174, Range 0x0176 0x0176, Range 0x0178 0x0179, Range 0x017B 0x017B,
     Range 0x017D 0x017D, Range 0x0181 0x0182, Range 0x0184 0x0184, Range 0x0186 0x0187,
     Range 0x0189 0x018B, Range 0x018E 0x0191, Range 0x0193 0x0194, Range 0x0196 0x0198,
     Range 0x019C 0x019D, Range 0x019F 0x01A0, Range 0x01A2 0x01A2, Range 0x01A4 0x01A4,
     Range 0x01A6 0x01A7, Range 0x01A9 0x01A9, Range 0x01AC 0x01AC, Range 0x01AE 0x01AF,
     Range 0x01B1 0x01B3, Range 0x01B5 0x01B5, Range 0x01B7 0x01B8, Range 0x01BC 0x01BC,
     Range 0x01C4 0x01C4, Range 0x01C7 0x01C7, Range 0x01CA 0x01CA, Range 0x01CD 0x01CD,
     Range 0x01CF 0x01CF, Range 0x01D1 0x01D1, Range 0x01D3 0x01D3, Range 0x01D5 0x01D5,
     Range 0x01D7 0x01D7, Range 0x01D9 0x01D9, Range 0x01DB 0x01DB, Range 0x01DE 0x01DE,
     Range 0x01E0 0x01E0, Range 0x01E2 0x01E2, Range 0x01E4 0x01E4, Range 0x01E6 0x01E6,
     Range 0x01E8 0x01E8, Range 0x01EA 0x01EA, Range 0x01EC 0x01EC, Range 0x01EE 0x01EE,
     Range 0x01F1 0x01F1, Range 0x01F4 0x01F4, Range 0x01F6 0x01F8, Range 0x01FA 0x01FA,
     Range 0x01FC 0x01FC, Range 0x01FE 0x01FE, Range 0x0200 0x0200, Range 0x0202 0x0202,
     Range 0x0204 0x0204, Range 0x0206 0x0206, Range 0x0208 0x0208, Range 0x020A 0x020A,
     Range 0x020C 0x020C, Range 0x020E 0x020E, Range 0x0210 0x0210, Range 0x0212 0x0212,
     Range 0x0214 0x0214, Range 0x0216 0x0216, Range 0x0218 0x0218, Range 0x021A 0x021A,
     Range 0x021C 0x021C, Range 0x021E 0x021E, Range 0x0220 0x0220, Range 0x0222 0x0222,
     Range 0x0224 0x0224, Range 0x0226 0x0226, Range 0x0228 0x0228, Range 0x022A 0x022A,
     Range 0x022C 0x022C, Range 0x022E 0x022E, Range 0x0230 0x0230, Range 0x0232 0x0232,
     Range 0x023A 0x023B, Range 0x023D 0x023E, Range 0x0241 0x0241, Range 0x0243 0x0246,
     Range 0x0248 0x0248, Range 0x024A 0x024A, Range 0x024C 0x024C, Range 0x024E 0x024E,
     Range 0x0370 0x0370, Range 0x0372 0x0372, Range 0x0376 0x0376, Range 0x037F 0x037F,
     Range 0x0386 0x0386, Range 0x0388 0x038A, Range 0x038C 0x038C, Range 0x038E 0x038F,
     Range 0x0391 0x03A1, Range 0x03A3 0x03AB, Range 0x03CF 0x03CF, Range 0x03D2 0x03D4,
     Range 0x03D8 0x03D8, Range 0x03DA 0x03DA, Range 0x03DC 0x03DC, Range 0x03DE 0x03DE,
     Range 0x03E0 0x03E0, Range 0x03E2 0x03E2, Range 0x03E4 0x03E4, Range 0x03E6 0x03E6,
     Range 0x03E8 0x03E8, Range 0x03EA 0x03EA, Range 0x03EC 0x03EC, Range 0x03EE 0x03EE,
     Range 0x03F4 0x03F4, Range 0x03F7 0x03F7, Range 0x03F9 0x03FA, Range 0x03FD 0x042F,
     Range 0x0460 0x0460, Range 0x0462 0x0462, Range 0x0464 0x0464, Range 0x0466 0x0466,
     Range 0x0468 0x0468, Range 0x046A 0x046A, Range 0x046C 0x046C, Range 0x046E 0x046E,
     Range 0x0470 0x0470, Range 0x0472 0x0472, Range 0x0474 0x0474, Range 0x0476 0x0476,
     Range 0x0478 0x0478, Range 0x047A 0x047A, Range 0x047C 0x047C, Range 0x047E 0x047E,
     Range 0x0480 0x0480, Range 0x048A 0x048A, Range 0x048C 0x048C, Range 0x048E 0x048E,
     Range 0x0490 0x0490, Range 0x0492 0x0492, Range 0x0494 0x0494, Range 0x0496 0x0496,
     Range 0x0498 0x0498, Range 0x049A 0x049A, Range 0x049C 0x049C, Range 0x049E 0x049E,
     Range 0x04A0 0x04A0, Range 0x04A2 0x04A2, Range 0x04A4 0x04A4, Range 0x04A6 0x04A6,
     Range 0x04A8 0x04A8, Range 0x04AA 0x04AA, Range 0x04AC 0x04AC, Range 0x04AE 0x04AE,
     Range 0x04B0 0x04B0, Range 0x04B2 0x04B2, Range 0x04B4 0x04B4, Range 0x04B6 0x04B6,
     Range 0x04B8 0x04B8, Range 0x04BA 0x04BA, Range 0x04BC 0x04BC, Range 0x04BE 0x04BE,
     Range 0x04C0 0x04C1, Range 0x04C3 0x04C3, Range 0x04C5 0x04C5, Range 0x04C7 0x04C7,
     Range 0x04C9 0x04C9, Range 0x04CB 0x04CB, Range 0x04CD 0x04CD, Range 0x04D0 0x04D0,
     Range 0x04D2 0x04D2, Range 0x04D4 0x04D4, Range 0x04D6 0x04D6, Range 0x04D8 0x04D8,
     Range 0x04DA 0x04DA, Range 0x04DC 0x04DC, Range 0x04DE 0x04DE, Range 0x04E0 0x04E0,
     Range 0x04E2 0x04E2, Range 0x04E4 0x04E4, Range 0x04E6 0x04E6, Range 0x04E8 0x04E8,
     Range 0x04EA 0x04EA, Range 0x04EC 0x04EC, Range 0x04EE 0x04EE, Range 0x04F0 0x04F0,
     Range 0x04F2 0x04F2, Range 0x04F4 0x04F4, Range 0x04F6 0x04F6, Range 0x04F8 0x04F8,
     Range 0x04FA 0x04FA, Range 0x04FC 0x04FC, Range 0x04FE 0x04FE, Range 0x0500 0x0500,
     Range 0x0502 0x0502, Range 0x0504 0x0504, Range 0x0506 0x0506, Range 0x0508 0x0508,
     Range 0x050A 0x050A, Range 0x050C 0x050C, Range 0x050E 0x050E, Range 0x0510 0x0510,
     Range 0x0512 0x0512, Range 0x0514 0x0514, Range 0x0516 0x0516, Range 0x0518 0x0518,
     Range 0x051A 0x051A, Range 0x051C 0x051C, Range 0x051E 0x051E, Range 0x0520 0x0520,
     Range 0x0522 0x0522, Range 0x0524 0x0524, Range 0x0526 0x0526, Range 0x0528 0x0528,
     Range 0x052A 0x052A, Range 0x052C 0x052C, Range 0x052E 0x052E, Range 0x0531 0x0556,
     Range 0x10A0 0x10C5, Range 0x10C7 0x10C7, Range 0x10CD 0x10CD, Range 0x13A0 0x13F5,
     Range 0x1C89 0x1C89, Range 0x1C90 0x1CBA, Range 0x1CBD 0x1CBF, Range 0x1E00 0x1E00,
     Range 0x1E02 0x1E02, Range 0x1E04 0x1E04, Range 0x1E06 0x1E06, Range 0x1E08 0x1E08,
     Range 0x1E0A 0x1E0A, Range 0x1E0C 0x1E0C, Range 0x1E0E 0x1E0E, Range 0x1E10 0x1E10,
     Range 0x1E12 0x1E12, Range 0x1E14 0x1E14, Range 0x1E16 0x1E16, Range 0x1E18 0x1E18,
     Range 0x1E1A 0x1E1A, Range 0x1E1C 0x1E1C, Range 0x1E1E 0x1E1E, Range 0x1E20 0x1E20,
     Range 0x1E22 0x1E22, Range 0x1E24 0x1E24, Range 0x1E26 0x1E26, Range 0x1E28 0x1E28,
     Range 0x1E2A 0x1E2A, Range 0x1E2C 0x1E2C, Range 0x1E2E 0x1E2E, Range 0x1E30 0x1E30,
     Range 0x1E32 0x1E32, Range 0x1E34 0x1E34, Range 0x1E36 0x1E36, Range 0x1E38 0x1E38,
     Range 0x1E3A 0x1E3A, Range 0x1E3C 0x1E3C, Range 0x1E3E 0x1E3E, Range 0x1E40 0x1E40,
     Range 0x1E42 0x1E42, Range 0x1E44 0x1E44, Range 0x1E46 0x1E46, Range 0x1E48 0x1E48,
     Range 0x1E4A 0x1E4A, Range 0x1E4C 0x1E4C, Range 0x1E4E 0x1E4E, Range 0x1E50 0x1E50,
     Range 0x1E52 0x1E52, Range 0x1E54 0x1E54, Range 0x1E56 0x1E56, Range 0x1E58 0x1E58,
     Range 0x1E5A 0x1E5A, Range 0x1E5C 0x1E5C, Range 0x1E5E 0x1E5E, Range 0x1E60 0x1E60,
     Range 0x1E62 0x1E62, Range 0x1E64 0x1E64, Range 0x1E66 0x1E66, Range 0x1E68 0x1E68,
     Range 0x1E6A 0x1E6A, Range 0x1E6C 0x1E6C, Range 0x1E6E 0x1E6E, Range 0x1E70 0x1E70,
     Range 0x1E72 0x1E72, Range 0x1E74 0x1E74, Range 0x1E76 0x1E76, Range 0x1E78 0x1E78,
     Range 0x1E7A 0x1E7A, Range 0x1E7C 0x1E7C, Range 0x1E7E 0x1E7E, Range 0x1E80 0x1E80,
     Range 0x1E82 0x1E82, Range 0x1E84 0x1E84, Range 0x1E86 0x1E86, Range 0x1E88 0x1E88,
     Range 0x1E8A 0x1E8A, Range 0x1E8C 0x1E8C, Range 0x1E8E 0x1E8E, Range 0x1E90 0x1E90,
     Range 0x1E92 0x1E92, Range 0x1E94 0x1E94, Range 0x1E9E 0x1E9E, Range 0x1EA0 0x1EA0,
     Range 0x1EA2 0x1EA2, Range 0x1EA4 0x1EA4, Range 0x1EA6 0x1EA6, Range 0x1EA8 0x1EA8,
     Range 0x1EAA 0x1EAA, Range 0x1EAC 0x1EAC, Range 0x1EAE 0x1EAE, Range 0x1EB0 0x1EB0,
     Range 0x1EB2 0x1EB2, Range 0x1EB4 0x1EB4, Range 0x1EB6 0x1EB6, Range 0x1EB8 0x1EB8,
     Range 0x1EBA 0x1EBA, Range 0x1EBC 0x1EBC, Range 0x1EBE 0x1EBE, Range 0x1EC0 0x1EC0,
     Range 0x1EC2 0x1EC2, Range 0x1EC4 0x1EC4, Range 0x1EC6 0x1EC6, Range 0x1EC8 0x1EC8,
     Range 0x1ECA 0x1ECA, Range 0x1ECC 0x1ECC, Range 0x1ECE 0x1ECE, Range 0x1ED0 0x1ED0,
     Range 0x1ED2 0x1ED2, Range 0x1ED4 0x1ED4, Range 0x1ED6 0x1ED6, Range 0x1ED8 0x1ED8,
     Range 0x1EDA 0x1EDA, Range 0x1EDC 0x1EDC, Range 0x1EDE 0x1EDE, Range 0x1EE0 0x1EE0,
     Range 0x1EE2 0x1EE2, Range 0x1EE4 0x1EE4, Range 0x1EE6 0x1EE6, Range 0x1EE8 0x1EE8,
     Range 0x1EEA 0x1EEA, Range 0x1EEC 0x1EEC, Range 0x1EEE 0x1EEE, Range 0x1EF0 0x1EF0,
     Range 0x1EF2 0x1EF2, Range 0x1EF4 0x1EF4, Range 0x1EF6 0x1EF6, Range 0x1EF8 0x1EF8,
     Range 0x1EFA 0x1EFA, Range 0x1EFC 0x1EFC, Range 0x1EFE 0x1EFE, Range 0x1F08 0x1F0F,
     Range 0x1F18 0x1F1D, Range 0x1F28 0x1F2F, Range 0x1F38 0x1F3F, Range 0x1F48 0x1F4D,
     Range 0x1F59 0x1F59, Range 0x1F5B 0x1F5B, Range 0x1F5D 0x1F5D, Range 0x1F5F 0x1F5F,
     Range 0x1F68 0x1F6F, Range 0x1FB8 0x1FBB, Range 0x1FC8 0x1FCB, Range 0x1FD8 0x1FDB,
     Range 0x1FE8 0x1FEC, Range 0x1FF8 0x1FFB, Range 0x2102 0x2102, Range 0x2107 0x2107,
     Range 0x210B 0x210D, Range 0x2110 0x2112, Range 0x2115 0x2115, Range 0x2119 0x211D,
     Range 0x2124 0x2124, Range 0x2126 0x2126, Range 0x2128 0x2128, Range 0x212A 0x212D,
     Range 0x2130 0x2133, Range 0x213E 0x213F, Range 0x2145 0x2145, Range 0x2183 0x2183,
     Range 0x2C00 0x2C2F, Range 0x2C60 0x2C60, Range 0x2C62 0x2C64, Range 0x2C67 0x2C67,
     Range 0x2C69 0x2C69, Range 0x2C6B 0x2C6B, Range 0x2C6D 0x2C70, Range 0x2C72 0x2C72,
     Range 0x2C75 0x2C75, Range 0x2C7E 0x2C80, Range 0x2C82 0x2C82, Range 0x2C84 0x2C84,
     Range 0x2C86 0x2C86, Range 0x2C88 0x2C88, Range 0x2C8A 0x2C8A, Range 0x2C8C 0x2C8C,
     Range 0x2C8E 0x2C8E, Range 0x2C90 0x2C90, Range 0x2C92 0x2C92, Range 0x2C94 0x2C94,
     Range 0x2C96 0x2C96, Range 0x2C98 0x2C98, Range 0x2C9A 0x2C9A, Range 0x2C9C 0x2C9C,
     Range 0x2C9E 0x2C9E, Range 0x2CA0 0x2CA0, Range 0x2CA2 0x2CA2, Range 0x2CA4 0x2CA4,
     Range 0x2CA6 0x2CA6, Range 0x2CA8 0x2CA8, Range 0x2CAA 0x2CAA, Range 0x2CAC 0x2CAC,
     Range 0x2CAE 0x2CAE, Range 0x2CB0 0x2CB0, Range 0x2CB2 0x2CB2, Range 0x2CB4 0x2CB4,
     Range 0x2CB6 0x2CB6, Range 0x2CB8 0x2CB8, Range 0x2CBA 0x2CBA, Range 0x2CBC 0x2CBC,
     Range 0x2CBE 0x2CBE, Range 0x2CC0 0x2CC0, Range 0x2CC2 0x2CC2, Range 0x2CC4 0x2CC4,
     Range 0x2CC6 0x2CC6, Range 0x2CC8 0x2CC8, Range 0x2CCA 0x2CCA, Range 0x2CCC 0x2CCC,
     Range 0x2CCE 0x2CCE, Range 0x2CD0 0x2CD0, Range 0x2CD2 0x2CD2, Range 0x2CD4 0x2CD4,
     Range 0x2CD6 0x2CD6, Range 0x2CD8 0x2CD8, Range 0x2CDA 0x2CDA, Range 0x2CDC 0x2CDC,
     Range 0x2CDE 0x2CDE, Range 0x2CE0 0x2CE0, Range 0x2CE2 0x2CE2, Range 0x2CEB 0x2CEB,
     Range 0x2CED 0x2CED, Range 0x2CF2 0x2CF2, Range 0xA640 0xA640, Range 0xA642 0xA642,
     Range 0xA644 0xA644, Range 0xA646 0xA646, Range 0xA648 0xA648, Range 0xA64A 0xA64A,
     Range 0xA64C 0xA64C, Range 0xA64E 0xA64E, Range 0xA650 0xA650, Range 0xA652 0xA652,
     Range 0xA654 0xA654, Range 0xA656 0xA656, Range 0xA658 0xA658, Range 0xA65A 0xA65A,
     Range 0xA65C 0xA65C, Range 0xA65E 0xA65E, Range 0xA660 0xA660, Range 0xA662 0xA662,
     Range 0xA664 0xA664, Range 0xA666 0xA666, Range 0xA668 0xA668, Range 0xA66A 0xA66A,
     Range 0xA66C 0xA66C, Range 0xA680 0xA680, Range 0xA682 0xA682, Range 0xA684 0xA684,
     Range 0xA686 0xA686, Range 0xA688 0xA688, Range 0xA68A 0xA68A, Range 0xA68C 0xA68C,
     Range 0xA68E 0xA68E, Range 0xA690 0xA690, Range 0xA692 0xA692, Range 0xA694 0xA694,
     Range 0xA696 0xA696, Range 0xA698 0xA698, Range 0xA69A 0xA69A, Range 0xA722 0xA722,
     Range 0xA724 0xA724, Range 0xA726 0xA726, Range 0xA728 0xA728, Range 0xA72A 0xA72A,
     Range 0xA72C 0xA72C, Range 0xA72E 0xA72E, Range 0xA732 0xA732, Range 0xA734 0xA734,
     Range 0xA736 0xA736, Range 0xA738 0xA738, Range 0xA73A 0xA73A, Range 0xA73C 0xA73C,
     Range 0xA73E 0xA73E, Range 0xA740 0xA740, Range 0xA742 0xA742, Range 0xA744 0xA744,
     Range 0xA746 0xA746, Range 0xA748 0xA748, Range 0xA74A 0xA74A, Range 0xA74C 0xA74C,
     Range 0xA74E 0xA74E, Range 0xA750 0xA750, Range 0xA752 0xA752, Range 0xA754 0xA754,
     Range 0xA756 0xA756, Range 0xA758 0xA758, Range 0xA75A 0xA75A, Range 0xA75C 0xA75C,
     Range 0xA75E 0xA75E, Range 0xA760 0xA760, Range 0xA762 0xA762, Range 0xA764 0xA764,
     Range 0xA766 0xA766, Range 0xA768 0xA768, Range 0xA76A 0xA76A, Range 0xA76C 0xA76C,
     Range 0xA76E 0xA76E, Range 0xA779 0xA779, Range 0xA77B 0xA77B, Range 0xA77D 0xA77E,
     Range 0xA780 0xA780, Range 0xA782 0xA782, Range 0xA784 0xA784, Range 0xA786 0xA786,
     Range 0xA78B 0xA78B, Range 0xA78D 0xA78D, Range 0xA790 0xA790, Range 0xA792 0xA792,
     Range 0xA796 0xA796, Range 0xA798 0xA798, Range 0xA79A 0xA79A, Range 0xA79C 0xA79C,
     Range 0xA79E 0xA79E, Range 0xA7A0 0xA7A0, Range 0xA7A2 0xA7A2, Range 0xA7A4 0xA7A4,
     Range 0xA7A6 0xA7A6, Range 0xA7A8 0xA7A8, Range 0xA7AA 0xA7AE, Range 0xA7B0 0xA7B4,
     Range 0xA7B6 0xA7B6, Range 0xA7B8 0xA7B8, Range 0xA7BA 0xA7BA, Range 0xA7BC 0xA7BC,
     Range 0xA7BE 0xA7BE, Range 0xA7C0 0xA7C0, Range 0xA7C2 0xA7C2, Range 0xA7C4 0xA7C7,
     Range 0xA7C9 0xA7C9, Range 0xA7CB 0xA7CC, Range 0xA7CE 0xA7CE, Range 0xA7D0 0xA7D0,
     Range 0xA7D2 0xA7D2, Range 0xA7D4 0xA7D4, Range 0xA7D6 0xA7D6, Range 0xA7D8 0xA7D8,
     Range 0xA7DA 0xA7DA, Range 0xA7DC 0xA7DC, Range 0xA7F5 0xA7F5, Range 0xFF21 0xFF3A,
     Range 0x10400 0x10427, Range 0x104B0 0x104D3, Range 0x10570 0x1057A, Range 0x1057C 0x1058A,
     Range 0x1058C 0x10592, Range 0x10594 0x10595, Range 0x10C80 0x10CB2, Range 0x10D50 0x10D65,
     Range 0x118A0 0x118BF, Range 0x16E40 0x16E5F, Range 0x16EA0 0x16EB8, Range 0x1D400 0x1D419,
     Range 0x1D434 0x1D44D, Range 0x1D468 0x1D481, Range 0x1D49C 0x1D49C, Range 0x1D49E 0x1D49F,
     Range 0x1D4A2 0x1D4A2, Range 0x1D4A5 0x1D4A6, Range 0x1D4A9 0x1D4AC, Range 0x1D4AE 0x1D4B5,
     Range 0x1D4D0 0x1D4E9, Range 0x1D504 0x1D505, Range 0x1D507 0x1D50A, Range 0x1D50D 0x1D514,
     Range 0x1D516 0x1D51C, Range 0x1D538 0x1D539, Range 0x1D53B 0x1D53E, Range 0x1D540 0x1D544,
     Range 0x1D546 0x1D546, Range 0x1D54A 0x1D550, Range 0x1D56C 0x1D585, Range 0x1D5A0 0x1D5B9,
     Range 0x1D5D4 0x1D5ED, Range 0x1D608 0x1D621, Range 0x1D63C 0x1D655, Range 0x1D670 0x1D689,
     Range 0x1D6A8 0x1D6C0, Range 0x1D6E2 0x1D6FA, Range 0x1D71C 0x1D734, Range 0x1D756 0x1D76E,
     Range 0x1D790 0x1D7A8, Range 0x1D7CA 0x1D7CA, Range 0x1E900 0x1E921]"

definition lowerRanges :: "Range list" where
  "lowerRanges = [
     Range 0x0061 0x007A, Range 0x00B5 0x00B5, Range 0x00DF 0x00F6, Range 0x00F8 0x00FF,
     Range 0x0101 0x0101, Range 0x0103 0x0103, Range 0x0105 0x0105, Range 0x0107 0x0107,
     Range 0x0109 0x0109, Range 0x010B 0x010B, Range 0x010D 0x010D, Range 0x010F 0x010F,
     Range 0x0111 0x0111, Range 0x0113 0x0113, Range 0x0115 0x0115, Range 0x0117 0x0117,
     Range 0x0119 0x0119, Range 0x011B 0x011B, Range 0x011D 0x011D, Range 0x011F 0x011F,
     Range 0x0121 0x0121, Range 0x0123 0x0123, Range 0x0125 0x0125, Range 0x0127 0x0127,
     Range 0x0129 0x0129, Range 0x012B 0x012B, Range 0x012D 0x012D, Range 0x012F 0x012F,
     Range 0x0131 0x0131, Range 0x0133 0x0133, Range 0x0135 0x0135, Range 0x0137 0x0138,
     Range 0x013A 0x013A, Range 0x013C 0x013C, Range 0x013E 0x013E, Range 0x0140 0x0140,
     Range 0x0142 0x0142, Range 0x0144 0x0144, Range 0x0146 0x0146, Range 0x0148 0x0149,
     Range 0x014B 0x014B, Range 0x014D 0x014D, Range 0x014F 0x014F, Range 0x0151 0x0151,
     Range 0x0153 0x0153, Range 0x0155 0x0155, Range 0x0157 0x0157, Range 0x0159 0x0159,
     Range 0x015B 0x015B, Range 0x015D 0x015D, Range 0x015F 0x015F, Range 0x0161 0x0161,
     Range 0x0163 0x0163, Range 0x0165 0x0165, Range 0x0167 0x0167, Range 0x0169 0x0169,
     Range 0x016B 0x016B, Range 0x016D 0x016D, Range 0x016F 0x016F, Range 0x0171 0x0171,
     Range 0x0173 0x0173, Range 0x0175 0x0175, Range 0x0177 0x0177, Range 0x017A 0x017A,
     Range 0x017C 0x017C, Range 0x017E 0x0180, Range 0x0183 0x0183, Range 0x0185 0x0185,
     Range 0x0188 0x0188, Range 0x018C 0x018D, Range 0x0192 0x0192, Range 0x0195 0x0195,
     Range 0x0199 0x019B, Range 0x019E 0x019E, Range 0x01A1 0x01A1, Range 0x01A3 0x01A3,
     Range 0x01A5 0x01A5, Range 0x01A8 0x01A8, Range 0x01AA 0x01AB, Range 0x01AD 0x01AD,
     Range 0x01B0 0x01B0, Range 0x01B4 0x01B4, Range 0x01B6 0x01B6, Range 0x01B9 0x01BA,
     Range 0x01BD 0x01BF, Range 0x01C6 0x01C6, Range 0x01C9 0x01C9, Range 0x01CC 0x01CC,
     Range 0x01CE 0x01CE, Range 0x01D0 0x01D0, Range 0x01D2 0x01D2, Range 0x01D4 0x01D4,
     Range 0x01D6 0x01D6, Range 0x01D8 0x01D8, Range 0x01DA 0x01DA, Range 0x01DC 0x01DD,
     Range 0x01DF 0x01DF, Range 0x01E1 0x01E1, Range 0x01E3 0x01E3, Range 0x01E5 0x01E5,
     Range 0x01E7 0x01E7, Range 0x01E9 0x01E9, Range 0x01EB 0x01EB, Range 0x01ED 0x01ED,
     Range 0x01EF 0x01F0, Range 0x01F3 0x01F3, Range 0x01F5 0x01F5, Range 0x01F9 0x01F9,
     Range 0x01FB 0x01FB, Range 0x01FD 0x01FD, Range 0x01FF 0x01FF, Range 0x0201 0x0201,
     Range 0x0203 0x0203, Range 0x0205 0x0205, Range 0x0207 0x0207, Range 0x0209 0x0209,
     Range 0x020B 0x020B, Range 0x020D 0x020D, Range 0x020F 0x020F, Range 0x0211 0x0211,
     Range 0x0213 0x0213, Range 0x0215 0x0215, Range 0x0217 0x0217, Range 0x0219 0x0219,
     Range 0x021B 0x021B, Range 0x021D 0x021D, Range 0x021F 0x021F, Range 0x0221 0x0221,
     Range 0x0223 0x0223, Range 0x0225 0x0225, Range 0x0227 0x0227, Range 0x0229 0x0229,
     Range 0x022B 0x022B, Range 0x022D 0x022D, Range 0x022F 0x022F, Range 0x0231 0x0231,
     Range 0x0233 0x0239, Range 0x023C 0x023C, Range 0x023F 0x0240, Range 0x0242 0x0242,
     Range 0x0247 0x0247, Range 0x0249 0x0249, Range 0x024B 0x024B, Range 0x024D 0x024D,
     Range 0x024F 0x0293, Range 0x0296 0x02AF, Range 0x0371 0x0371, Range 0x0373 0x0373,
     Range 0x0377 0x0377, Range 0x037B 0x037D, Range 0x0390 0x0390, Range 0x03AC 0x03CE,
     Range 0x03D0 0x03D1, Range 0x03D5 0x03D7, Range 0x03D9 0x03D9, Range 0x03DB 0x03DB,
     Range 0x03DD 0x03DD, Range 0x03DF 0x03DF, Range 0x03E1 0x03E1, Range 0x03E3 0x03E3,
     Range 0x03E5 0x03E5, Range 0x03E7 0x03E7, Range 0x03E9 0x03E9, Range 0x03EB 0x03EB,
     Range 0x03ED 0x03ED, Range 0x03EF 0x03F3, Range 0x03F5 0x03F5, Range 0x03F8 0x03F8,
     Range 0x03FB 0x03FC, Range 0x0430 0x045F, Range 0x0461 0x0461, Range 0x0463 0x0463,
     Range 0x0465 0x0465, Range 0x0467 0x0467, Range 0x0469 0x0469, Range 0x046B 0x046B,
     Range 0x046D 0x046D, Range 0x046F 0x046F, Range 0x0471 0x0471, Range 0x0473 0x0473,
     Range 0x0475 0x0475, Range 0x0477 0x0477, Range 0x0479 0x0479, Range 0x047B 0x047B,
     Range 0x047D 0x047D, Range 0x047F 0x047F, Range 0x0481 0x0481, Range 0x048B 0x048B,
     Range 0x048D 0x048D, Range 0x048F 0x048F, Range 0x0491 0x0491, Range 0x0493 0x0493,
     Range 0x0495 0x0495, Range 0x0497 0x0497, Range 0x0499 0x0499, Range 0x049B 0x049B,
     Range 0x049D 0x049D, Range 0x049F 0x049F, Range 0x04A1 0x04A1, Range 0x04A3 0x04A3,
     Range 0x04A5 0x04A5, Range 0x04A7 0x04A7, Range 0x04A9 0x04A9, Range 0x04AB 0x04AB,
     Range 0x04AD 0x04AD, Range 0x04AF 0x04AF, Range 0x04B1 0x04B1, Range 0x04B3 0x04B3,
     Range 0x04B5 0x04B5, Range 0x04B7 0x04B7, Range 0x04B9 0x04B9, Range 0x04BB 0x04BB,
     Range 0x04BD 0x04BD, Range 0x04BF 0x04BF, Range 0x04C2 0x04C2, Range 0x04C4 0x04C4,
     Range 0x04C6 0x04C6, Range 0x04C8 0x04C8, Range 0x04CA 0x04CA, Range 0x04CC 0x04CC,
     Range 0x04CE 0x04CF, Range 0x04D1 0x04D1, Range 0x04D3 0x04D3, Range 0x04D5 0x04D5,
     Range 0x04D7 0x04D7, Range 0x04D9 0x04D9, Range 0x04DB 0x04DB, Range 0x04DD 0x04DD,
     Range 0x04DF 0x04DF, Range 0x04E1 0x04E1, Range 0x04E3 0x04E3, Range 0x04E5 0x04E5,
     Range 0x04E7 0x04E7, Range 0x04E9 0x04E9, Range 0x04EB 0x04EB, Range 0x04ED 0x04ED,
     Range 0x04EF 0x04EF, Range 0x04F1 0x04F1, Range 0x04F3 0x04F3, Range 0x04F5 0x04F5,
     Range 0x04F7 0x04F7, Range 0x04F9 0x04F9, Range 0x04FB 0x04FB, Range 0x04FD 0x04FD,
     Range 0x04FF 0x04FF, Range 0x0501 0x0501, Range 0x0503 0x0503, Range 0x0505 0x0505,
     Range 0x0507 0x0507, Range 0x0509 0x0509, Range 0x050B 0x050B, Range 0x050D 0x050D,
     Range 0x050F 0x050F, Range 0x0511 0x0511, Range 0x0513 0x0513, Range 0x0515 0x0515,
     Range 0x0517 0x0517, Range 0x0519 0x0519, Range 0x051B 0x051B, Range 0x051D 0x051D,
     Range 0x051F 0x051F, Range 0x0521 0x0521, Range 0x0523 0x0523, Range 0x0525 0x0525,
     Range 0x0527 0x0527, Range 0x0529 0x0529, Range 0x052B 0x052B, Range 0x052D 0x052D,
     Range 0x052F 0x052F, Range 0x0560 0x0588, Range 0x10D0 0x10FA, Range 0x10FD 0x10FF,
     Range 0x13F8 0x13FD, Range 0x1C80 0x1C88, Range 0x1C8A 0x1C8A, Range 0x1D00 0x1D2B,
     Range 0x1D6B 0x1D77, Range 0x1D79 0x1D9A, Range 0x1E01 0x1E01, Range 0x1E03 0x1E03,
     Range 0x1E05 0x1E05, Range 0x1E07 0x1E07, Range 0x1E09 0x1E09, Range 0x1E0B 0x1E0B,
     Range 0x1E0D 0x1E0D, Range 0x1E0F 0x1E0F, Range 0x1E11 0x1E11, Range 0x1E13 0x1E13,
     Range 0x1E15 0x1E15, Range 0x1E17 0x1E17, Range 0x1E19 0x1E19, Range 0x1E1B 0x1E1B,
     Range 0x1E1D 0x1E1D, Range 0x1E1F 0x1E1F, Range 0x1E21 0x1E21, Range 0x1E23 0x1E23,
     Range 0x1E25 0x1E25, Range 0x1E27 0x1E27, Range 0x1E29 0x1E29, Range 0x1E2B 0x1E2B,
     Range 0x1E2D 0x1E2D, Range 0x1E2F 0x1E2F, Range 0x1E31 0x1E31, Range 0x1E33 0x1E33,
     Range 0x1E35 0x1E35, Range 0x1E37 0x1E37, Range 0x1E39 0x1E39, Range 0x1E3B 0x1E3B,
     Range 0x1E3D 0x1E3D, Range 0x1E3F 0x1E3F, Range 0x1E41 0x1E41, Range 0x1E43 0x1E43,
     Range 0x1E45 0x1E45, Range 0x1E47 0x1E47, Range 0x1E49 0x1E49, Range 0x1E4B 0x1E4B,
     Range 0x1E4D 0x1E4D, Range 0x1E4F 0x1E4F, Range 0x1E51 0x1E51, Range 0x1E53 0x1E53,
     Range 0x1E55 0x1E55, Range 0x1E57 0x1E57, Range 0x1E59 0x1E59, Range 0x1E5B 0x1E5B,
     Range 0x1E5D 0x1E5D, Range 0x1E5F 0x1E5F, Range 0x1E61 0x1E61, Range 0x1E63 0x1E63,
     Range 0x1E65 0x1E65, Range 0x1E67 0x1E67, Range 0x1E69 0x1E69, Range 0x1E6B 0x1E6B,
     Range 0x1E6D 0x1E6D, Range 0x1E6F 0x1E6F, Range 0x1E71 0x1E71, Range 0x1E73 0x1E73,
     Range 0x1E75 0x1E75, Range 0x1E77 0x1E77, Range 0x1E79 0x1E79, Range 0x1E7B 0x1E7B,
     Range 0x1E7D 0x1E7D, Range 0x1E7F 0x1E7F, Range 0x1E81 0x1E81, Range 0x1E83 0x1E83,
     Range 0x1E85 0x1E85, Range 0x1E87 0x1E87, Range 0x1E89 0x1E89, Range 0x1E8B 0x1E8B,
     Range 0x1E8D 0x1E8D, Range 0x1E8F 0x1E8F, Range 0x1E91 0x1E91, Range 0x1E93 0x1E93,
     Range 0x1E95 0x1E9D, Range 0x1E9F 0x1E9F, Range 0x1EA1 0x1EA1, Range 0x1EA3 0x1EA3,
     Range 0x1EA5 0x1EA5, Range 0x1EA7 0x1EA7, Range 0x1EA9 0x1EA9, Range 0x1EAB 0x1EAB,
     Range 0x1EAD 0x1EAD, Range 0x1EAF 0x1EAF, Range 0x1EB1 0x1EB1, Range 0x1EB3 0x1EB3,
     Range 0x1EB5 0x1EB5, Range 0x1EB7 0x1EB7, Range 0x1EB9 0x1EB9, Range 0x1EBB 0x1EBB,
     Range 0x1EBD 0x1EBD, Range 0x1EBF 0x1EBF, Range 0x1EC1 0x1EC1, Range 0x1EC3 0x1EC3,
     Range 0x1EC5 0x1EC5, Range 0x1EC7 0x1EC7, Range 0x1EC9 0x1EC9, Range 0x1ECB 0x1ECB,
     Range 0x1ECD 0x1ECD, Range 0x1ECF 0x1ECF, Range 0x1ED1 0x1ED1, Range 0x1ED3 0x1ED3,
     Range 0x1ED5 0x1ED5, Range 0x1ED7 0x1ED7, Range 0x1ED9 0x1ED9, Range 0x1EDB 0x1EDB,
     Range 0x1EDD 0x1EDD, Range 0x1EDF 0x1EDF, Range 0x1EE1 0x1EE1, Range 0x1EE3 0x1EE3,
     Range 0x1EE5 0x1EE5, Range 0x1EE7 0x1EE7, Range 0x1EE9 0x1EE9, Range 0x1EEB 0x1EEB,
     Range 0x1EED 0x1EED, Range 0x1EEF 0x1EEF, Range 0x1EF1 0x1EF1, Range 0x1EF3 0x1EF3,
     Range 0x1EF5 0x1EF5, Range 0x1EF7 0x1EF7, Range 0x1EF9 0x1EF9, Range 0x1EFB 0x1EFB,
     Range 0x1EFD 0x1EFD, Range 0x1EFF 0x1F07, Range 0x1F10 0x1F15, Range 0x1F20 0x1F27,
     Range 0x1F30 0x1F37, Range 0x1F40 0x1F45, Range 0x1F50 0x1F57, Range 0x1F60 0x1F67,
     Range 0x1F70 0x1F7D, Range 0x1F80 0x1F87, Range 0x1F90 0x1F97, Range 0x1FA0 0x1FA7,
     Range 0x1FB0 0x1FB4, Range 0x1FB6 0x1FB7, Range 0x1FBE 0x1FBE, Range 0x1FC2 0x1FC4,
     Range 0x1FC6 0x1FC7, Range 0x1FD0 0x1FD3, Range 0x1FD6 0x1FD7, Range 0x1FE0 0x1FE7,
     Range 0x1FF2 0x1FF4, Range 0x1FF6 0x1FF7, Range 0x210A 0x210A, Range 0x210E 0x210F,
     Range 0x2113 0x2113, Range 0x212F 0x212F, Range 0x2134 0x2134, Range 0x2139 0x2139,
     Range 0x213C 0x213D, Range 0x2146 0x2149, Range 0x214E 0x214E, Range 0x2184 0x2184,
     Range 0x2C30 0x2C5F, Range 0x2C61 0x2C61, Range 0x2C65 0x2C66, Range 0x2C68 0x2C68,
     Range 0x2C6A 0x2C6A, Range 0x2C6C 0x2C6C, Range 0x2C71 0x2C71, Range 0x2C73 0x2C74,
     Range 0x2C76 0x2C7B, Range 0x2C81 0x2C81, Range 0x2C83 0x2C83, Range 0x2C85 0x2C85,
     Range 0x2C87 0x2C87, Range 0x2C89 0x2C89, Range 0x2C8B 0x2C8B, Range 0x2C8D 0x2C8D,
     Range 0x2C8F 0x2C8F, Range 0x2C91 0x2C91, Range 0x2C93 0x2C93, Range 0x2C95 0x2C95,
     Range 0x2C97 0x2C97, Range 0x2C99 0x2C99, Range 0x2C9B 0x2C9B, Range 0x2C9D 0x2C9D,
     Range 0x2C9F 0x2C9F, Range 0x2CA1 0x2CA1, Range 0x2CA3 0x2CA3, Range 0x2CA5 0x2CA5,
     Range 0x2CA7 0x2CA7, Range 0x2CA9 0x2CA9, Range 0x2CAB 0x2CAB, Range 0x2CAD 0x2CAD,
     Range 0x2CAF 0x2CAF, Range 0x2CB1 0x2CB1, Range 0x2CB3 0x2CB3, Range 0x2CB5 0x2CB5,
     Range 0x2CB7 0x2CB7, Range 0x2CB9 0x2CB9, Range 0x2CBB 0x2CBB, Range 0x2CBD 0x2CBD,
     Range 0x2CBF 0x2CBF, Range 0x2CC1 0x2CC1, Range 0x2CC3 0x2CC3, Range 0x2CC5 0x2CC5,
     Range 0x2CC7 0x2CC7, Range 0x2CC9 0x2CC9, Range 0x2CCB 0x2CCB, Range 0x2CCD 0x2CCD,
     Range 0x2CCF 0x2CCF, Range 0x2CD1 0x2CD1, Range 0x2CD3 0x2CD3, Range 0x2CD5 0x2CD5,
     Range 0x2CD7 0x2CD7, Range 0x2CD9 0x2CD9, Range 0x2CDB 0x2CDB, Range 0x2CDD 0x2CDD,
     Range 0x2CDF 0x2CDF, Range 0x2CE1 0x2CE1, Range 0x2CE3 0x2CE4, Range 0x2CEC 0x2CEC,
     Range 0x2CEE 0x2CEE, Range 0x2CF3 0x2CF3, Range 0x2D00 0x2D25, Range 0x2D27 0x2D27,
     Range 0x2D2D 0x2D2D, Range 0xA641 0xA641, Range 0xA643 0xA643, Range 0xA645 0xA645,
     Range 0xA647 0xA647, Range 0xA649 0xA649, Range 0xA64B 0xA64B, Range 0xA64D 0xA64D,
     Range 0xA64F 0xA64F, Range 0xA651 0xA651, Range 0xA653 0xA653, Range 0xA655 0xA655,
     Range 0xA657 0xA657, Range 0xA659 0xA659, Range 0xA65B 0xA65B, Range 0xA65D 0xA65D,
     Range 0xA65F 0xA65F, Range 0xA661 0xA661, Range 0xA663 0xA663, Range 0xA665 0xA665,
     Range 0xA667 0xA667, Range 0xA669 0xA669, Range 0xA66B 0xA66B, Range 0xA66D 0xA66D,
     Range 0xA681 0xA681, Range 0xA683 0xA683, Range 0xA685 0xA685, Range 0xA687 0xA687,
     Range 0xA689 0xA689, Range 0xA68B 0xA68B, Range 0xA68D 0xA68D, Range 0xA68F 0xA68F,
     Range 0xA691 0xA691, Range 0xA693 0xA693, Range 0xA695 0xA695, Range 0xA697 0xA697,
     Range 0xA699 0xA699, Range 0xA69B 0xA69B, Range 0xA723 0xA723, Range 0xA725 0xA725,
     Range 0xA727 0xA727, Range 0xA729 0xA729, Range 0xA72B 0xA72B, Range 0xA72D 0xA72D,
     Range 0xA72F 0xA731, Range 0xA733 0xA733, Range 0xA735 0xA735, Range 0xA737 0xA737,
     Range 0xA739 0xA739, Range 0xA73B 0xA73B, Range 0xA73D 0xA73D, Range 0xA73F 0xA73F,
     Range 0xA741 0xA741, Range 0xA743 0xA743, Range 0xA745 0xA745, Range 0xA747 0xA747,
     Range 0xA749 0xA749, Range 0xA74B 0xA74B, Range 0xA74D 0xA74D, Range 0xA74F 0xA74F,
     Range 0xA751 0xA751, Range 0xA753 0xA753, Range 0xA755 0xA755, Range 0xA757 0xA757,
     Range 0xA759 0xA759, Range 0xA75B 0xA75B, Range 0xA75D 0xA75D, Range 0xA75F 0xA75F,
     Range 0xA761 0xA761, Range 0xA763 0xA763, Range 0xA765 0xA765, Range 0xA767 0xA767,
     Range 0xA769 0xA769, Range 0xA76B 0xA76B, Range 0xA76D 0xA76D, Range 0xA76F 0xA76F,
     Range 0xA771 0xA778, Range 0xA77A 0xA77A, Range 0xA77C 0xA77C, Range 0xA77F 0xA77F,
     Range 0xA781 0xA781, Range 0xA783 0xA783, Range 0xA785 0xA785, Range 0xA787 0xA787,
     Range 0xA78C 0xA78C, Range 0xA78E 0xA78E, Range 0xA791 0xA791, Range 0xA793 0xA795,
     Range 0xA797 0xA797, Range 0xA799 0xA799, Range 0xA79B 0xA79B, Range 0xA79D 0xA79D,
     Range 0xA79F 0xA79F, Range 0xA7A1 0xA7A1, Range 0xA7A3 0xA7A3, Range 0xA7A5 0xA7A5,
     Range 0xA7A7 0xA7A7, Range 0xA7A9 0xA7A9, Range 0xA7AF 0xA7AF, Range 0xA7B5 0xA7B5,
     Range 0xA7B7 0xA7B7, Range 0xA7B9 0xA7B9, Range 0xA7BB 0xA7BB, Range 0xA7BD 0xA7BD,
     Range 0xA7BF 0xA7BF, Range 0xA7C1 0xA7C1, Range 0xA7C3 0xA7C3, Range 0xA7C8 0xA7C8,
     Range 0xA7CA 0xA7CA, Range 0xA7CD 0xA7CD, Range 0xA7CF 0xA7CF, Range 0xA7D1 0xA7D1,
     Range 0xA7D3 0xA7D3, Range 0xA7D5 0xA7D5, Range 0xA7D7 0xA7D7, Range 0xA7D9 0xA7D9,
     Range 0xA7DB 0xA7DB, Range 0xA7F6 0xA7F6, Range 0xA7FA 0xA7FA, Range 0xAB30 0xAB5A,
     Range 0xAB60 0xAB68, Range 0xAB70 0xABBF, Range 0xFB00 0xFB06, Range 0xFB13 0xFB17,
     Range 0xFF41 0xFF5A, Range 0x10428 0x1044F, Range 0x104D8 0x104FB, Range 0x10597 0x105A1,
     Range 0x105A3 0x105B1, Range 0x105B3 0x105B9, Range 0x105BB 0x105BC, Range 0x10CC0 0x10CF2,
     Range 0x10D70 0x10D85, Range 0x118C0 0x118DF, Range 0x16E60 0x16E7F, Range 0x16EBB 0x16ED3,
     Range 0x1D41A 0x1D433, Range 0x1D44E 0x1D454, Range 0x1D456 0x1D467, Range 0x1D482 0x1D49B,
     Range 0x1D4B6 0x1D4B9, Range 0x1D4BB 0x1D4BB, Range 0x1D4BD 0x1D4C3, Range 0x1D4C5 0x1D4CF,
     Range 0x1D4EA 0x1D503, Range 0x1D51E 0x1D537, Range 0x1D552 0x1D56B, Range 0x1D586 0x1D59F,
     Range 0x1D5BA 0x1D5D3, Range 0x1D5EE 0x1D607, Range 0x1D622 0x1D63B, Range 0x1D656 0x1D66F,
     Range 0x1D68A 0x1D6A5, Range 0x1D6C2 0x1D6DA, Range 0x1D6DC 0x1D6E1, Range 0x1D6FC 0x1D714,
     Range 0x1D716 0x1D71B, Range 0x1D736 0x1D74E, Range 0x1D750 0x1D755, Range 0x1D770 0x1D788,
     Range 0x1D78A 0x1D78F, Range 0x1D7AA 0x1D7C2, Range 0x1D7C4 0x1D7C9, Range 0x1D7CB 0x1D7CB,
     Range 0x1DF00 0x1DF09, Range 0x1DF0B 0x1DF1E, Range 0x1DF25 0x1DF2A, Range 0x1E922 0x1E943]"

definition spaceRanges :: "Range list" where
  "spaceRanges = [
     Range 0x0009 0x000D, Range 0x0020 0x0020, Range 0x0085 0x0085, Range 0x00A0 0x00A0,
     Range 0x1680 0x1680, Range 0x2000 0x200A, Range 0x2028 0x2029, Range 0x202F 0x202F,
     Range 0x205F 0x205F, Range 0x3000 0x3000]"

definition simpleUpper :: "CaseRun list" where
  "simpleUpper = [
     run 0x0061 0x007A 1 (- 32), run 0x00B5 0x00B5 1 743, run 0x00E0 0x00F6 1 (- 32),
     run 0x00F8 0x00FE 1 (- 32), run 0x00FF 0x00FF 1 121, run 0x0101 0x012F 2 (- 1),
     run 0x0131 0x0131 1 (- 232), run 0x0133 0x0137 2 (- 1), run 0x013A 0x0148 2 (- 1),
     run 0x014B 0x0177 2 (- 1), run 0x017A 0x017E 2 (- 1), run 0x017F 0x017F 1 (- 300),
     run 0x0180 0x0180 1 195, run 0x0183 0x0185 2 (- 1), run 0x0188 0x0188 1 (- 1),
     run 0x018C 0x018C 1 (- 1), run 0x0192 0x0192 1 (- 1), run 0x0195 0x0195 1 97,
     run 0x0199 0x0199 1 (- 1), run 0x019A 0x019A 1 163, run 0x019B 0x019B 1 42561,
     run 0x019E 0x019E 1 130, run 0x01A1 0x01A5 2 (- 1), run 0x01A8 0x01A8 1 (- 1),
     run 0x01AD 0x01AD 1 (- 1), run 0x01B0 0x01B0 1 (- 1), run 0x01B4 0x01B6 2 (- 1),
     run 0x01B9 0x01B9 1 (- 1), run 0x01BD 0x01BD 1 (- 1), run 0x01BF 0x01BF 1 56,
     run 0x01C5 0x01C5 1 (- 1), run 0x01C6 0x01C6 1 (- 2), run 0x01C8 0x01C8 1 (- 1),
     run 0x01C9 0x01C9 1 (- 2), run 0x01CB 0x01CB 1 (- 1), run 0x01CC 0x01CC 1 (- 2),
     run 0x01CE 0x01DC 2 (- 1), run 0x01DD 0x01DD 1 (- 79), run 0x01DF 0x01EF 2 (- 1),
     run 0x01F2 0x01F2 1 (- 1), run 0x01F3 0x01F3 1 (- 2), run 0x01F5 0x01F5 1 (- 1),
     run 0x01F9 0x021F 2 (- 1), run 0x0223 0x0233 2 (- 1), run 0x023C 0x023C 1 (- 1),
     run 0x023F 0x0240 1 10815, run 0x0242 0x0242 1 (- 1), run 0x0247 0x024F 2 (- 1),
     run 0x0250 0x0250 1 10783, run 0x0251 0x0251 1 10780, run 0x0252 0x0252 1 10782,
     run 0x0253 0x0253 1 (- 210), run 0x0254 0x0254 1 (- 206), run 0x0256 0x0257 1 (- 205),
     run 0x0259 0x0259 1 (- 202), run 0x025B 0x025B 1 (- 203), run 0x025C 0x025C 1 42319,
     run 0x0260 0x0260 1 (- 205), run 0x0261 0x0261 1 42315, run 0x0263 0x0263 1 (- 207),
     run 0x0264 0x0264 1 42343, run 0x0265 0x0265 1 42280, run 0x0266 0x0266 1 42308,
     run 0x0268 0x0268 1 (- 209), run 0x0269 0x0269 1 (- 211), run 0x026A 0x026A 1 42308,
     run 0x026B 0x026B 1 10743, run 0x026C 0x026C 1 42305, run 0x026F 0x026F 1 (- 211),
     run 0x0271 0x0271 1 10749, run 0x0272 0x0272 1 (- 213), run 0x0275 0x0275 1 (- 214),
     run 0x027D 0x027D 1 10727, run 0x0280 0x0280 1 (- 218), run 0x0282 0x0282 1 42307,
     run 0x0283 0x0283 1 (- 218), run 0x0287 0x0287 1 42282, run 0x0288 0x0288 1 (- 218),
     run 0x0289 0x0289 1 (- 69), run 0x028A 0x028B 1 (- 217), run 0x028C 0x028C 1 (- 71),
     run 0x0292 0x0292 1 (- 219), run 0x029D 0x029D 1 42261, run 0x029E 0x029E 1 42258,
     run 0x0345 0x0345 1 84, run 0x0371 0x0373 2 (- 1), run 0x0377 0x0377 1 (- 1),
     run 0x037B 0x037D 1 130, run 0x03AC 0x03AC 1 (- 38), run 0x03AD 0x03AF 1 (- 37),
     run 0x03B1 0x03C1 1 (- 32), run 0x03C2 0x03C2 1 (- 31), run 0x03C3 0x03CB 1 (- 32),
     run 0x03CC 0x03CC 1 (- 64), run 0x03CD 0x03CE 1 (- 63), run 0x03D0 0x03D0 1 (- 62),
     run 0x03D1 0x03D1 1 (- 57), run 0x03D5 0x03D5 1 (- 47), run 0x03D6 0x03D6 1 (- 54),
     run 0x03D7 0x03D7 1 (- 8), run 0x03D9 0x03EF 2 (- 1), run 0x03F0 0x03F0 1 (- 86),
     run 0x03F1 0x03F1 1 (- 80), run 0x03F2 0x03F2 1 7, run 0x03F3 0x03F3 1 (- 116),
     run 0x03F5 0x03F5 1 (- 96), run 0x03F8 0x03F8 1 (- 1), run 0x03FB 0x03FB 1 (- 1),
     run 0x0430 0x044F 1 (- 32), run 0x0450 0x045F 1 (- 80), run 0x0461 0x0481 2 (- 1),
     run 0x048B 0x04BF 2 (- 1), run 0x04C2 0x04CE 2 (- 1), run 0x04CF 0x04CF 1 (- 15),
     run 0x04D1 0x052F 2 (- 1), run 0x0561 0x0586 1 (- 48), run 0x10D0 0x10FA 1 3008,
     run 0x10FD 0x10FF 1 3008, run 0x13F8 0x13FD 1 (- 8), run 0x1C80 0x1C80 1 (- 6254),
     run 0x1C81 0x1C81 1 (- 6253), run 0x1C82 0x1C82 1 (- 6244), run 0x1C83 0x1C84 1 (- 6242),
     run 0x1C85 0x1C85 1 (- 6243), run 0x1C86 0x1C86 1 (- 6236), run 0x1C87 0x1C87 1 (- 6181),
     run 0x1C88 0x1C88 1 35266, run 0x1C8A 0x1C8A 1 (- 1), run 0x1D79 0x1D79 1 35332,
     run 0x1D7D 0x1D7D 1 3814, run 0x1D8E 0x1D8E 1 35384, run 0x1E01 0x1E95 2 (- 1),
     run 0x1E9B 0x1E9B 1 (- 59), run 0x1EA1 0x1EFF 2 (- 1), run 0x1F00 0x1F07 1 8,
     run 0x1F10 0x1F15 1 8, run 0x1F20 0x1F27 1 8, run 0x1F30 0x1F37 1 8,
     run 0x1F40 0x1F45 1 8, run 0x1F51 0x1F57 2 8, run 0x1F60 0x1F67 1 8,
     run 0x1F70 0x1F71 1 74, run 0x1F72 0x1F75 1 86, run 0x1F76 0x1F77 1 100,
     run 0x1F78 0x1F79 1 128, run 0x1F7A 0x1F7B 1 112, run 0x1F7C 0x1F7D 1 126,
     run 0x1F80 0x1F87 1 8, run 0x1F90 0x1F97 1 8, run 0x1FA0 0x1FA7 1 8,
     run 0x1FB0 0x1FB1 1 8, run 0x1FB3 0x1FB3 1 9, run 0x1FBE 0x1FBE 1 (- 7205),
     run 0x1FC3 0x1FC3 1 9, run 0x1FD0 0x1FD1 1 8, run 0x1FE0 0x1FE1 1 8,
     run 0x1FE5 0x1FE5 1 7, run 0x1FF3 0x1FF3 1 9, run 0x214E 0x214E 1 (- 28),
     run 0x2170 0x217F 1 (- 16), run 0x2184 0x2184 1 (- 1), run 0x24D0 0x24E9 1 (- 26),
     run 0x2C30 0x2C5F 1 (- 48), run 0x2C61 0x2C61 1 (- 1), run 0x2C65 0x2C65 1 (- 10795),
     run 0x2C66 0x2C66 1 (- 10792), run 0x2C68 0x2C6C 2 (- 1), run 0x2C73 0x2C73 1 (- 1),
     run 0x2C76 0x2C76 1 (- 1), run 0x2C81 0x2CE3 2 (- 1), run 0x2CEC 0x2CEE 2 (- 1),
     run 0x2CF3 0x2CF3 1 (- 1), run 0x2D00 0x2D25 1 (- 7264), run 0x2D27 0x2D27 1 (- 7264),
     run 0x2D2D 0x2D2D 1 (- 7264), run 0xA641 0xA66D 2 (- 1), run 0xA681 0xA69B 2 (- 1),
     run 0xA723 0xA72F 2 (- 1), run 0xA733 0xA76F 2 (- 1), run 0xA77A 0xA77C 2 (- 1),
     run 0xA77F 0xA787 2 (- 1), run 0xA78C 0xA78C 1 (- 1), run 0xA791 0xA793 2 (- 1),
     run 0xA794 0xA794 1 48, run 0xA797 0xA7A9 2 (- 1), run 0xA7B5 0xA7C3 2 (- 1),
     run 0xA7C8 0xA7CA 2 (- 1), run 0xA7CD 0xA7DB 2 (- 1), run 0xA7F6 0xA7F6 1 (- 1),
     run 0xAB53 0xAB53 1 (- 928), run 0xAB70 0xABBF 1 (- 38864), run 0xFF41 0xFF5A 1 (- 32),
     run 0x10428 0x1044F 1 (- 40), run 0x104D8 0x104FB 1 (- 40), run 0x10597 0x105A1 1 (- 39),
     run 0x105A3 0x105B1 1 (- 39), run 0x105B3 0x105B9 1 (- 39), run 0x105BB 0x105BC 1 (- 39),
     run 0x10CC0 0x10CF2 1 (- 64), run 0x10D70 0x10D85 1 (- 32), run 0x118C0 0x118DF 1 (- 32),
     run 0x16E60 0x16E7F 1 (- 32), run 0x16EBB 0x16ED3 1 (- 27), run 0x1E922 0x1E943 1 (- 34)]"

definition simpleLower :: "CaseRun list" where
  "simpleLower = [
     run 0x0041 0x005A 1 32, run 0x00C0 0x00D6 1 32, run 0x00D8 0x00DE 1 32,
     run 0x0100 0x012E 2 1, run 0x0130 0x0130 1 (- 199), run 0x0132 0x0136 2 1,
     run 0x0139 0x0147 2 1, run 0x014A 0x0176 2 1, run 0x0178 0x0178 1 (- 121),
     run 0x0179 0x017D 2 1, run 0x0181 0x0181 1 210, run 0x0182 0x0184 2 1,
     run 0x0186 0x0186 1 206, run 0x0187 0x0187 1 1, run 0x0189 0x018A 1 205,
     run 0x018B 0x018B 1 1, run 0x018E 0x018E 1 79, run 0x018F 0x018F 1 202,
     run 0x0190 0x0190 1 203, run 0x0191 0x0191 1 1, run 0x0193 0x0193 1 205,
     run 0x0194 0x0194 1 207, run 0x0196 0x0196 1 211, run 0x0197 0x0197 1 209,
     run 0x0198 0x0198 1 1, run 0x019C 0x019C 1 211, run 0x019D 0x019D 1 213,
     run 0x019F 0x019F 1 214, run 0x01A0 0x01A4 2 1, run 0x01A6 0x01A6 1 218,
     run 0x01A7 0x01A7 1 1, run 0x01A9 0x01A9 1 218, run 0x01AC 0x01AC 1 1,
     run 0x01AE 0x01AE 1 218, run 0x01AF 0x01AF 1 1, run 0x01B1 0x01B2 1 217,
     run 0x01B3 0x01B5 2 1, run 0x01B7 0x01B7 1 219, run 0x01B8 0x01B8 1 1,
     run 0x01BC 0x01BC 1 1, run 0x01C4 0x01C4 1 2, run 0x01C5 0x01C5 1 1,
     run 0x01C7 0x01C7 1 2, run 0x01C8 0x01C8 1 1, run 0x01CA 0x01CA 1 2,
     run 0x01CB 0x01DB 2 1, run 0x01DE 0x01EE 2 1, run 0x01F1 0x01F1 1 2,
     run 0x01F2 0x01F4 2 1, run 0x01F6 0x01F6 1 (- 97), run 0x01F7 0x01F7 1 (- 56),
     run 0x01F8 0x021E 2 1, run 0x0220 0x0220 1 (- 130), run 0x0222 0x0232 2 1,
     run 0x023A 0x023A 1 10795, run 0x023B 0x023B 1 1, run 0x023D 0x023D 1 (- 163),
     run 0x023E 0x023E 1 10792, run 0x0241 0x0241 1 1, run 0x0243 0x0243 1 (- 195),
     run 0x0244 0x0244 1 69, run 0x0245 0x0245 1 71, run 0x0246 0x024E 2 1,
     run 0x0370 0x0372 2 1, run 0x0376 0x0376 1 1, run 0x037F 0x037F 1 116,
     run 0x0386 0x0386 1 38, run 0x0388 0x038A 1 37, run 0x038C 0x038C 1 64,
     run 0x038E 0x038F 1 63, run 0x0391 0x03A1 1 32, run 0x03A3 0x03AB 1 32,
     run 0x03CF 0x03CF 1 8, run 0x03D8 0x03EE 2 1, run 0x03F4 0x03F4 1 (- 60),
     run 0x03F7 0x03F7 1 1, run 0x03F9 0x03F9 1 (- 7), run 0x03FA 0x03FA 1 1,
     run 0x03FD 0x03FF 1 (- 130), run 0x0400 0x040F 1 80, run 0x0410 0x042F 1 32,
     run 0x0460 0x0480 2 1, run 0x048A 0x04BE 2 1, run 0x04C0 0x04C0 1 15,
     run 0x04C1 0x04CD 2 1, run 0x04D0 0x052E 2 1, run 0x0531 0x0556 1 48,
     run 0x10A0 0x10C5 1 7264, run 0x10C7 0x10C7 1 7264, run 0x10CD 0x10CD 1 7264,
     run 0x13A0 0x13EF 1 38864, run 0x13F0 0x13F5 1 8, run 0x1C89 0x1C89 1 1,
     run 0x1C90 0x1CBA 1 (- 3008), run 0x1CBD 0x1CBF 1 (- 3008), run 0x1E00 0x1E94 2 1,
     run 0x1E9E 0x1E9E 1 (- 7615), run 0x1EA0 0x1EFE 2 1, run 0x1F08 0x1F0F 1 (- 8),
     run 0x1F18 0x1F1D 1 (- 8), run 0x1F28 0x1F2F 1 (- 8), run 0x1F38 0x1F3F 1 (- 8),
     run 0x1F48 0x1F4D 1 (- 8), run 0x1F59 0x1F5F 2 (- 8), run 0x1F68 0x1F6F 1 (- 8),
     run 0x1F88 0x1F8F 1 (- 8), run 0x1F98 0x1F9F 1 (- 8), run 0x1FA8 0x1FAF 1 (- 8),
     run 0x1FB8 0x1FB9 1 (- 8), run 0x1FBA 0x1FBB 1 (- 74), run 0x1FBC 0x1FBC 1 (- 9),
     run 0x1FC8 0x1FCB 1 (- 86), run 0x1FCC 0x1FCC 1 (- 9), run 0x1FD8 0x1FD9 1 (- 8),
     run 0x1FDA 0x1FDB 1 (- 100), run 0x1FE8 0x1FE9 1 (- 8), run 0x1FEA 0x1FEB 1 (- 112),
     run 0x1FEC 0x1FEC 1 (- 7), run 0x1FF8 0x1FF9 1 (- 128), run 0x1FFA 0x1FFB 1 (- 126),
     run 0x1FFC 0x1FFC 1 (- 9), run 0x2126 0x2126 1 (- 7517), run 0x212A 0x212A 1 (- 8383),
     run 0x212B 0x212B 1 (- 8262), run 0x2132 0x2132 1 28, run 0x2160 0x216F 1 16,
     run 0x2183 0x2183 1 1, run 0x24B6 0x24CF 1 26, run 0x2C00 0x2C2F 1 48,
     run 0x2C60 0x2C60 1 1, run 0x2C62 0x2C62 1 (- 10743), run 0x2C63 0x2C63 1 (- 3814),
     run 0x2C64 0x2C64 1 (- 10727), run 0x2C67 0x2C6B 2 1, run 0x2C6D 0x2C6D 1 (- 10780),
     run 0x2C6E 0x2C6E 1 (- 10749), run 0x2C6F 0x2C6F 1 (- 10783), run 0x2C70 0x2C70 1 (- 10782),
     run 0x2C72 0x2C72 1 1, run 0x2C75 0x2C75 1 1, run 0x2C7E 0x2C7F 1 (- 10815),
     run 0x2C80 0x2CE2 2 1, run 0x2CEB 0x2CED 2 1, run 0x2CF2 0x2CF2 1 1,
     run 0xA640 0xA66C 2 1, run 0xA680 0xA69A 2 1, run 0xA722 0xA72E 2 1,
     run 0xA732 0xA76E 2 1, run 0xA779 0xA77B 2 1, run 0xA77D 0xA77D 1 (- 35332),
     run 0xA77E 0xA786 2 1, run 0xA78B 0xA78B 1 1, run 0xA78D 0xA78D 1 (- 42280),
     run 0xA790 0xA792 2 1, run 0xA796 0xA7A8 2 1, run 0xA7AA 0xA7AA 1 (- 42308),
     run 0xA7AB 0xA7AB 1 (- 42319), run 0xA7AC 0xA7AC 1 (- 42315), run 0xA7AD 0xA7AD 1 (- 42305),
     run 0xA7AE 0xA7AE 1 (- 42308), run 0xA7B0 0xA7B0 1 (- 42258), run 0xA7B1 0xA7B1 1 (- 42282),
     run 0xA7B2 0xA7B2 1 (- 42261), run 0xA7B3 0xA7B3 1 928, run 0xA7B4 0xA7C2 2 1,
     run 0xA7C4 0xA7C4 1 (- 48), run 0xA7C5 0xA7C5 1 (- 42307), run 0xA7C6 0xA7C6 1 (- 35384),
     run 0xA7C7 0xA7C9 2 1, run 0xA7CB 0xA7CB 1 (- 42343), run 0xA7CC 0xA7DA 2 1,
     run 0xA7DC 0xA7DC 1 (- 42561), run 0xA7F5 0xA7F5 1 1, run 0xFF21 0xFF3A 1 32,
     run 0x10400 0x10427 1 40, run 0x104B0 0x104D3 1 40, run 0x10570 0x1057A 1 39,
     run 0x1057C 0x1058A 1 39, run 0x1058C 0x10592 1 39, run 0x10594 0x10595 1 39,
     run 0x10C80 0x10CB2 1 64, run 0x10D50 0x10D65 1 32, run 0x118A0 0x118BF 1 32,
     run 0x16E40 0x16E5F 1 32, run 0x16EA0 0x16EB8 1 27, run 0x1E900 0x1E921 1 34]"

definition expandUpper :: "FullCase list" where
  "expandUpper = [
     full 0x00DF 2 [0x0053, 0x0053, 0x0000], full 0x0149 2 [0x02BC, 0x004E, 0x0000],
     full 0x01F0 2 [0x004A, 0x030C, 0x0000], full 0x0390 3 [0x0399, 0x0308, 0x0301],
     full 0x03B0 3 [0x03A5, 0x0308, 0x0301], full 0x0587 2 [0x0535, 0x0552, 0x0000],
     full 0x1E96 2 [0x0048, 0x0331, 0x0000], full 0x1E97 2 [0x0054, 0x0308, 0x0000],
     full 0x1E98 2 [0x0057, 0x030A, 0x0000], full 0x1E99 2 [0x0059, 0x030A, 0x0000],
     full 0x1E9A 2 [0x0041, 0x02BE, 0x0000], full 0x1F50 2 [0x03A5, 0x0313, 0x0000],
     full 0x1F52 3 [0x03A5, 0x0313, 0x0300], full 0x1F54 3 [0x03A5, 0x0313, 0x0301],
     full 0x1F56 3 [0x03A5, 0x0313, 0x0342], full 0x1F80 2 [0x1F08, 0x0399, 0x0000],
     full 0x1F81 2 [0x1F09, 0x0399, 0x0000], full 0x1F82 2 [0x1F0A, 0x0399, 0x0000],
     full 0x1F83 2 [0x1F0B, 0x0399, 0x0000], full 0x1F84 2 [0x1F0C, 0x0399, 0x0000],
     full 0x1F85 2 [0x1F0D, 0x0399, 0x0000], full 0x1F86 2 [0x1F0E, 0x0399, 0x0000],
     full 0x1F87 2 [0x1F0F, 0x0399, 0x0000], full 0x1F88 2 [0x1F08, 0x0399, 0x0000],
     full 0x1F89 2 [0x1F09, 0x0399, 0x0000], full 0x1F8A 2 [0x1F0A, 0x0399, 0x0000],
     full 0x1F8B 2 [0x1F0B, 0x0399, 0x0000], full 0x1F8C 2 [0x1F0C, 0x0399, 0x0000],
     full 0x1F8D 2 [0x1F0D, 0x0399, 0x0000], full 0x1F8E 2 [0x1F0E, 0x0399, 0x0000],
     full 0x1F8F 2 [0x1F0F, 0x0399, 0x0000], full 0x1F90 2 [0x1F28, 0x0399, 0x0000],
     full 0x1F91 2 [0x1F29, 0x0399, 0x0000], full 0x1F92 2 [0x1F2A, 0x0399, 0x0000],
     full 0x1F93 2 [0x1F2B, 0x0399, 0x0000], full 0x1F94 2 [0x1F2C, 0x0399, 0x0000],
     full 0x1F95 2 [0x1F2D, 0x0399, 0x0000], full 0x1F96 2 [0x1F2E, 0x0399, 0x0000],
     full 0x1F97 2 [0x1F2F, 0x0399, 0x0000], full 0x1F98 2 [0x1F28, 0x0399, 0x0000],
     full 0x1F99 2 [0x1F29, 0x0399, 0x0000], full 0x1F9A 2 [0x1F2A, 0x0399, 0x0000],
     full 0x1F9B 2 [0x1F2B, 0x0399, 0x0000], full 0x1F9C 2 [0x1F2C, 0x0399, 0x0000],
     full 0x1F9D 2 [0x1F2D, 0x0399, 0x0000], full 0x1F9E 2 [0x1F2E, 0x0399, 0x0000],
     full 0x1F9F 2 [0x1F2F, 0x0399, 0x0000], full 0x1FA0 2 [0x1F68, 0x0399, 0x0000],
     full 0x1FA1 2 [0x1F69, 0x0399, 0x0000], full 0x1FA2 2 [0x1F6A, 0x0399, 0x0000],
     full 0x1FA3 2 [0x1F6B, 0x0399, 0x0000], full 0x1FA4 2 [0x1F6C, 0x0399, 0x0000],
     full 0x1FA5 2 [0x1F6D, 0x0399, 0x0000], full 0x1FA6 2 [0x1F6E, 0x0399, 0x0000],
     full 0x1FA7 2 [0x1F6F, 0x0399, 0x0000], full 0x1FA8 2 [0x1F68, 0x0399, 0x0000],
     full 0x1FA9 2 [0x1F69, 0x0399, 0x0000], full 0x1FAA 2 [0x1F6A, 0x0399, 0x0000],
     full 0x1FAB 2 [0x1F6B, 0x0399, 0x0000], full 0x1FAC 2 [0x1F6C, 0x0399, 0x0000],
     full 0x1FAD 2 [0x1F6D, 0x0399, 0x0000], full 0x1FAE 2 [0x1F6E, 0x0399, 0x0000],
     full 0x1FAF 2 [0x1F6F, 0x0399, 0x0000], full 0x1FB2 2 [0x1FBA, 0x0399, 0x0000],
     full 0x1FB3 2 [0x0391, 0x0399, 0x0000], full 0x1FB4 2 [0x0386, 0x0399, 0x0000],
     full 0x1FB6 2 [0x0391, 0x0342, 0x0000], full 0x1FB7 3 [0x0391, 0x0342, 0x0399],
     full 0x1FBC 2 [0x0391, 0x0399, 0x0000], full 0x1FC2 2 [0x1FCA, 0x0399, 0x0000],
     full 0x1FC3 2 [0x0397, 0x0399, 0x0000], full 0x1FC4 2 [0x0389, 0x0399, 0x0000],
     full 0x1FC6 2 [0x0397, 0x0342, 0x0000], full 0x1FC7 3 [0x0397, 0x0342, 0x0399],
     full 0x1FCC 2 [0x0397, 0x0399, 0x0000], full 0x1FD2 3 [0x0399, 0x0308, 0x0300],
     full 0x1FD3 3 [0x0399, 0x0308, 0x0301], full 0x1FD6 2 [0x0399, 0x0342, 0x0000],
     full 0x1FD7 3 [0x0399, 0x0308, 0x0342], full 0x1FE2 3 [0x03A5, 0x0308, 0x0300],
     full 0x1FE3 3 [0x03A5, 0x0308, 0x0301], full 0x1FE4 2 [0x03A1, 0x0313, 0x0000],
     full 0x1FE6 2 [0x03A5, 0x0342, 0x0000], full 0x1FE7 3 [0x03A5, 0x0308, 0x0342],
     full 0x1FF2 2 [0x1FFA, 0x0399, 0x0000], full 0x1FF3 2 [0x03A9, 0x0399, 0x0000],
     full 0x1FF4 2 [0x038F, 0x0399, 0x0000], full 0x1FF6 2 [0x03A9, 0x0342, 0x0000],
     full 0x1FF7 3 [0x03A9, 0x0342, 0x0399], full 0x1FFC 2 [0x03A9, 0x0399, 0x0000],
     full 0xFB00 2 [0x0046, 0x0046, 0x0000], full 0xFB01 2 [0x0046, 0x0049, 0x0000],
     full 0xFB02 2 [0x0046, 0x004C, 0x0000], full 0xFB03 3 [0x0046, 0x0046, 0x0049],
     full 0xFB04 3 [0x0046, 0x0046, 0x004C], full 0xFB05 2 [0x0053, 0x0054, 0x0000],
     full 0xFB06 2 [0x0053, 0x0054, 0x0000], full 0xFB13 2 [0x0544, 0x0546, 0x0000],
     full 0xFB14 2 [0x0544, 0x0535, 0x0000], full 0xFB15 2 [0x0544, 0x053B, 0x0000],
     full 0xFB16 2 [0x054E, 0x0546, 0x0000], full 0xFB17 2 [0x0544, 0x053D, 0x0000]]"

definition expandLower :: "FullCase list" where
  "expandLower = [
     full 0x0130 2 [0x0069, 0x0307, 0x0000]]"

end
