(* ===== verification/RangeSearch.thy ===== *)
theory RangeSearch
  imports KexPrelude
begin

text \<open>
  The contract of the binary searches over Unicode tables.  \<open>common/unicode_category.hxx\<close>
  and \<open>common/utf8.hxx\<close> search three kinds of sorted tables with the same loop; each search
  is an instance of the locale below, which shows that on an ordered table the loop finds
  exactly what a scan of the table from its start would find.
\<close>

section \<open>Ordered tables\<close>

fun ordered_table :: "('r \<Rightarrow> char32) \<Rightarrow> ('r \<Rightarrow> char32) \<Rightarrow> 'r list \<Rightarrow> bool" where
  "ordered_table lo hi [] = True"
| "ordered_table lo hi [r] = (lo r \<le> hi r)"
| "ordered_table lo hi (r # q # rs) =
     (lo r \<le> hi r \<and> hi r < lo q \<and> ordered_table lo hi (q # rs))"

lemma ordered_table_sorted:
  "ordered_table lo hi rs \<Longrightarrow>
     sorted_wrt (\<lambda>r q. hi r < lo q) rs \<and> (\<forall>r \<in> set rs. lo r \<le> hi r)"
proof (induction rs rule: induct_list012)
  case (3 r q rs)
  then have "sorted_wrt (\<lambda>r q. hi r < lo q) (q # rs)" "\<forall>r \<in> set (q # rs). lo r \<le> hi r"
    by auto
  moreover have "hi r < lo s" if "s \<in> set rs" for s
  proof -
    have "hi q < lo s" using calculation(1) that by simp
    moreover have "hi r < lo q" "lo q \<le> hi q" using "3.prems" by (cases rs; auto)+
    ultimately show ?thesis by (meson less_le_trans less_trans)
  qed
  ultimately show ?case using "3.prems" by auto
qed auto

section \<open>The search loop\<close>

locale table_search =
  fixes lo hi :: "'r \<Rightarrow> char32"
    and hit :: "'r \<Rightarrow> 'x" and miss :: 'x
    and search :: "'r list \<Rightarrow> char32 \<Rightarrow> nat \<Rightarrow> nat \<Rightarrow> 'x"
  assumes search_step:
    "search rs c low high =
       (if low < high then
          let mid = low + (high - low) div 2
          in if c < lo (rs ! mid) then search rs c low mid
             else if c > hi (rs ! mid) then search rs c (mid + 1) high
             else hit (rs ! mid)
        else miss)"
begin

lemma search_between:
  assumes "ordered_table lo hi rs" "high \<le> length rs"
    and "\<And>i. i < low \<Longrightarrow> i < length rs \<Longrightarrow> hi (rs ! i) < c"
    and "\<And>i. high \<le> i \<Longrightarrow> i < length rs \<Longrightarrow> c < lo (rs ! i)"
  shows "search rs c low high =
     (case find (\<lambda>r. lo r \<le> c \<and> c \<le> hi r) rs of None \<Rightarrow> miss | Some r \<Rightarrow> hit r)"
  using assms(2-4)
proof (induction "high - low" arbitrary: low high rule: less_induct)
  case less
  have above: "hi (rs ! i) < lo (rs ! j)" if "i < j" "j < length rs" for i j
    using ordered_table_sorted [OF assms(1)] that by (auto simp: sorted_wrt_iff_nth_less)
  have valid: "lo (rs ! i) \<le> hi (rs ! i)" if "i < length rs" for i
    using ordered_table_sorted [OF assms(1)] that by auto
  show ?case
  proof (cases "low < high")
    case False
    have "\<not> (lo r \<le> c \<and> c \<le> hi r)" if r: "r \<in> set rs" for r
    proof -
      obtain i where "i < length rs" "r = rs ! i" using r by (metis in_set_conv_nth)
      then show ?thesis
        using less.prems(2,3) [of i] False by (cases "i < low") auto
    qed
    then have "find (\<lambda>r. lo r \<le> c \<and> c \<le> hi r) rs = None"
      by (simp add: find_None_iff)
    with False show ?thesis by (subst search_step) simp
  next
    case True
    define mid where "mid = low + (high - low) div 2"
    have mid: "low \<le> mid" "mid < high" "mid < length rs"
      using True less.prems(1) by (auto simp: mid_def)
    consider "c < lo (rs ! mid)" | "hi (rs ! mid) < c" | "lo (rs ! mid) \<le> c" "c \<le> hi (rs ! mid)"
      by fastforce
    then show ?thesis
    proof cases
      case 1
      have "c < lo (rs ! i)" if "mid \<le> i" "i < length rs" for i
      proof (cases "i = mid")
        case False
        then have "hi (rs ! mid) < lo (rs ! i)" using above that by simp
        with 1 valid [OF mid(3)] show ?thesis by order
      qed (use 1 in simp)
      then have "search rs c low mid =
          (case find (\<lambda>r. lo r \<le> c \<and> c \<le> hi r) rs of None \<Rightarrow> miss | Some r \<Rightarrow> hit r)"
        using mid less.prems(2) by (intro less.hyps) simp_all
      moreover have "search rs c low high = search rs c low mid"
        using 1 True by (subst search_step) (simp flip: mid_def)
      ultimately show ?thesis by simp
    next
      case 2
      have "hi (rs ! i) < c" if "i < mid + 1" "i < length rs" for i
      proof (cases "i = mid")
        case False
        then have "hi (rs ! i) < lo (rs ! mid)" using above mid(3) that by simp
        with 2 valid [OF mid(3)] show ?thesis by order
      qed (use 2 in simp)
      moreover have "\<not> c < lo (rs ! mid)"
        using 2 valid [OF mid(3)] by (meson not_less_iff_gr_or_eq less_le_trans)
      moreover have "search rs c (mid + 1) high =
          (case find (\<lambda>r. lo r \<le> c \<and> c \<le> hi r) rs of None \<Rightarrow> miss | Some r \<Rightarrow> hit r)"
        using mid less.prems(1,3) calculation(1) by (intro less.hyps) simp_all
      moreover have "search rs c low high = search rs c (mid + 1) high"
        using 2 True calculation(2) by (subst search_step) (simp flip: mid_def)
      ultimately show ?thesis by simp
    next
      case 3
      have "\<not> (lo (rs ! i) \<le> c \<and> c \<le> hi (rs ! i))" if "i < mid" for i
        using 3 above [OF that mid(3)] by (meson leD le_less_trans)
      then have "find (\<lambda>r. lo r \<le> c \<and> c \<le> hi r) rs = Some (rs ! mid)"
        using 3 mid by (auto simp: find_Some_iff)
      moreover have "search rs c low high = hit (rs ! mid)"
        using 3 True by (subst search_step) (simp add: leD flip: mid_def)
      ultimately show ?thesis by simp
    qed
  qed
qed

lemma search_is_scan:
  "ordered_table lo hi rs \<Longrightarrow> search rs c 0 (length rs) =
     (case find (\<lambda>r. lo r \<le> c \<and> c \<le> hi r) rs of None \<Rightarrow> miss | Some r \<Rightarrow> hit r)"
  by (rule search_between) auto

end

end
