(* ===== verification/UnicodeCategory.thy ===== *)
theory UnicodeCategory
  imports UnicodeTables RangeSearch
begin

text \<open>
  Category lookup of \<open>src/src/common/unicode_category.hxx\<close>: the binary search over the
  generated ranges, shown to be membership in one of the ranges because each of the four
  tables is ordered.
\<close>

section \<open>The search\<close>

function inRanges_from :: "Range list \<Rightarrow> char32 \<Rightarrow> nat \<Rightarrow> nat \<Rightarrow> bool" where
  "inRanges_from ranges c low high =
     (if low < high then
        let mid = low + (high - low) div 2
        in if c < range_start (ranges ! mid) then inRanges_from ranges c low mid
           else if c > range_end (ranges ! mid) then inRanges_from ranges c (mid + 1) high
           else True
      else False)"
  by pat_completeness auto
termination
  by (relation "measure (\<lambda>(ranges, c, low, high). high - low)") (auto simp: Let_def)

declare inRanges_from.simps [simp del]

definition inRanges :: "Range list \<Rightarrow> char32 \<Rightarrow> bool" where
  "inRanges ranges c = inRanges_from ranges c 0 (length ranges)"

interpretation range_search: table_search range_start range_end "\<lambda>_. True" False inRanges_from
  by unfold_locales (rule inRanges_from.simps)

definition range_set :: "Range list \<Rightarrow> char32 set" where
  "range_set ranges = {c. \<exists>r \<in> set ranges. range_start r \<le> c \<and> c \<le> range_end r}"

abbreviation ordered_ranges :: "Range list \<Rightarrow> bool" where
  "ordered_ranges \<equiv> ordered_table range_start range_end"

lemma inRanges_iff: "ordered_ranges ranges \<Longrightarrow> inRanges ranges c \<longleftrightarrow> c \<in> range_set ranges"
  by (auto simp: inRanges_def range_search.search_is_scan range_set_def find_None_iff
      dest!: find_Some_iff [THEN iffD1] split: option.splits)

section \<open>The tables\<close>

lemma letterRanges_ordered: "ordered_ranges letterRanges"
  by (simp add: letterRanges_def)

lemma upperRanges_ordered: "ordered_ranges upperRanges"
  by (simp add: upperRanges_def)

lemma lowerRanges_ordered: "ordered_ranges lowerRanges"
  by (simp add: lowerRanges_def)

lemma spaceRanges_ordered: "ordered_ranges spaceRanges"
  by (simp add: spaceRanges_def)

lemmas tables_ordered [simp] =
  letterRanges_ordered upperRanges_ordered lowerRanges_ordered spaceRanges_ordered

end
