(* ===== verification/CaseMapping.thy ===== *)
theory CaseMapping
  imports UnicodeTables RangeSearch Utf8
begin

text \<open>
  Case mapping of \<open>src/src/common/utf8.hxx\<close> (lines 98 to 168): the 1:1 mapping of a
  codepoint through a table of runs, and the mapping of a whole string, which may grow.  The
  lemmas show that the two binary searches find what a scan of the tables finds and that a
  mapped string is the encoding of its codepoints mapped one by one.
\<close>

section \<open>The searches\<close>

function findRun_from :: "CaseRun list \<Rightarrow> char32 \<Rightarrow> nat \<Rightarrow> nat \<Rightarrow> CaseRun option" where
  "findRun_from runs c low high =
     (if low < high then
        let mid = low + (high - low) div 2
        in if c < run_start (runs ! mid) then findRun_from runs c low mid
           else if c > run_end (runs ! mid) then findRun_from runs c (mid + 1) high
           else Some (runs ! mid)
      else None)"
  by pat_completeness auto
termination
  by (relation "measure (\<lambda>(runs, c, low, high). high - low)") (auto simp: Let_def)

declare findRun_from.simps [simp del]

definition findRun :: "CaseRun list \<Rightarrow> char32 \<Rightarrow> CaseRun option" where
  "findRun runs c = findRun_from runs c 0 (length runs)"

definition mapSimple :: "CaseRun list \<Rightarrow> char32 \<Rightarrow> char32" where
  "mapSimple runs c =
     (case findRun runs c of
        None \<Rightarrow> c
      | Some r \<Rightarrow>
          if (c - run_start r) mod ucast (stride r) \<noteq> 0 then c
          else c + delta r)"

function findExpansion_from :: "FullCase list \<Rightarrow> char32 \<Rightarrow> nat \<Rightarrow> nat \<Rightarrow> FullCase option" where
  "findExpansion_from entries c low high =
     (if low < high then
        let mid = low + (high - low) div 2
        in if c < fc_from (entries ! mid) then findExpansion_from entries c low mid
           else if c > fc_from (entries ! mid) then findExpansion_from entries c (mid + 1) high
           else Some (entries ! mid)
      else None)"
  by pat_completeness auto
termination
  by (relation "measure (\<lambda>(entries, c, low, high). high - low)") (auto simp: Let_def)

declare findExpansion_from.simps [simp del]

definition findExpansion :: "FullCase list \<Rightarrow> char32 \<Rightarrow> FullCase option" where
  "findExpansion entries c = findExpansion_from entries c 0 (length entries)"

interpretation run_search: table_search run_start run_end Some None findRun_from
  by unfold_locales (rule findRun_from.simps)

interpretation expansion_search: table_search fc_from fc_from Some None findExpansion_from
  by unfold_locales (rule findExpansion_from.simps)

section \<open>Codepoints and strings\<close>

definition toUpper :: "char32 \<Rightarrow> char32" where
  "toUpper c = mapSimple simpleUpper c"

definition toLower :: "char32 \<Rightarrow> char32" where
  "toLower c = mapSimple simpleLower c"

definition mapString :: "FullCase list \<Rightarrow> (char32 \<Rightarrow> char32) \<Rightarrow> string \<Rightarrow> string" where
  \<comment> \<open>the loop the two string overloads share, with their table and 1:1 mapping\<close>
  "mapString expansions simple s =
     foldl (\<lambda>out cp.
       case findExpansion expansions cp of
         Some wide \<Rightarrow> foldl (\<lambda>out i. out @ encode (fc_to wide ! i)) out [0..<unat (fc_length wide)]
       | None \<Rightarrow> out @ encode (simple cp)) [] (decode s)"

definition toUpperString :: "string \<Rightarrow> string" where
  "toUpperString s = mapString expandUpper toUpper s"

definition toLowerString :: "string \<Rightarrow> string" where
  "toLowerString s = mapString expandLower toLower s"

section \<open>The searches are scans of the tables\<close>

lemma simple_tables_ordered [simp]:
  "ordered_table run_start run_end simpleUpper"
  "ordered_table run_start run_end simpleLower"
  by (simp_all add: simpleUpper_def simpleLower_def)

lemma expansion_tables_ordered [simp]:
  "ordered_table fc_from fc_from expandUpper"
  "ordered_table fc_from fc_from expandLower"
  by (simp_all add: expandUpper_def expandLower_def)

lemma findRun_scan:
  "ordered_table run_start run_end runs \<Longrightarrow>
     findRun runs c = find (\<lambda>r. run_start r \<le> c \<and> c \<le> run_end r) runs"
  by (simp add: findRun_def run_search.search_is_scan split: option.splits)

lemma findExpansion_scan:
  assumes "ordered_table fc_from fc_from entries"
  shows "findExpansion entries c = find (\<lambda>e. fc_from e = c) entries"
proof -
  have "(\<lambda>e :: FullCase. fc_from e \<le> c \<and> c \<le> fc_from e) = (\<lambda>e. fc_from e = c)" by auto
  then show ?thesis
    using assms by (simp add: findExpansion_def expansion_search.search_is_scan split: option.splits)
qed

section \<open>Mapping a string maps its codepoints\<close>

definition fullMapping :: "FullCase list \<Rightarrow> (char32 \<Rightarrow> char32) \<Rightarrow> char32 \<Rightarrow> char32 list" where
  "fullMapping expansions simple cp =
     (case find (\<lambda>e. fc_from e = cp) expansions of
        Some wide \<Rightarrow> map ((!) (fc_to wide)) [0..<unat (fc_length wide)]
      | None \<Rightarrow> [simple cp])"

lemma encodeAll_append: "encodeAll (xs @ ys) = encodeAll xs @ encodeAll ys"
  by (simp add: encodeAll_concat)

lemma encodeAll_concat_map: "encodeAll (concat (map f xs)) = concat (map (\<lambda>x. encodeAll (f x)) xs)"
  by (induction xs) (simp_all add: encodeAll_append)

lemma mapString_encodeAll:
  assumes "ordered_table fc_from fc_from expansions"
  shows "mapString expansions simple s =
    encodeAll (concat (map (fullMapping expansions simple) (decode s)))"
proof -
  have step: "(\<lambda>out cp. case findExpansion expansions cp of
         Some wide \<Rightarrow> foldl (\<lambda>out i. out @ encode (fc_to wide ! i)) out [0..<unat (fc_length wide)]
       | None \<Rightarrow> out @ encode (simple cp)) =
     (\<lambda>out cp. out @ encodeAll (fullMapping expansions simple cp))"
    using assms
    by (intro ext) (simp add: findExpansion_scan fullMapping_def foldl_append_concat
        encodeAll_concat comp_def split: option.split)
  show ?thesis
    unfolding mapString_def step
    unfolding foldl_append_concat
    by (simp add: encodeAll_concat_map)
qed

text \<open>
  Upper-casing a string decodes it, maps every codepoint to its expansion when the full
  table has one and through the run that holds it otherwise, and encodes the results in
  order; decoding the answer gives back exactly those codepoints, so a mapped string is
  always well-formed UTF-8.
\<close>
theorem toUpperString_codepoints:
  "decode (toUpperString s) =
     map scalarOrReplacement (concat (map (fullMapping expandUpper (\<lambda>c.
       case find (\<lambda>r. run_start r \<le> c \<and> c \<le> run_end r) simpleUpper of
         None \<Rightarrow> c
       | Some r \<Rightarrow> if (c - run_start r) mod ucast (stride r) \<noteq> 0 then c else c + delta r)) (decode s)))"
proof -
  have "toUpper = (\<lambda>c. case find (\<lambda>r. run_start r \<le> c \<and> c \<le> run_end r) simpleUpper of
         None \<Rightarrow> c
       | Some r \<Rightarrow> if (c - run_start r) mod ucast (stride r) \<noteq> 0 then c else c + delta r)"
    by (intro ext) (simp add: toUpper_def mapSimple_def findRun_scan)
  then show ?thesis
    by (simp add: toUpperString_def mapString_encodeAll decode_encodeAll)
qed

end
