(* ===== verification/Token.thy ===== *)
theory Token
  imports KexPrelude
begin

text \<open>
  Tokens of \<open>src/src/lexer/token.hxx\<close>: the token types (one datatype for each
  group of the enumeration), source locations and tokens, the names \<open>token.cxx\<close> prints, the keyword
  table of \<open>lexer.cxx\<close> and its test for token types that end an expression.
\<close>

datatype KeywordType =
    K_After | K_Break | K_Compiled | K_Do | K_Elif | K_Else
  | K_End | K_Export | K_False | K_Final | K_Foul | K_If
  | K_Let | K_Loop | K_Main | K_Make | K_Match | K_Module
  | K_Capability | K_With | K_Next | K_None | K_Private | K_Public
  | K_Receive | K_Record | K_Rescue | K_Return | K_Serving | K_Slot
  | K_Spawn | K_Then | K_This | K_Timeout | K_Trait | K_True
  | K_Try | K_Trying | K_Type | K_Using | K_Var | K_When
  | K_While

datatype SymbolType =
    S_Arrow | S_FatArrow | S_Amp | S_At | S_Bang | S_Colon
  | S_Caret | S_TypeAnnotation | S_SlotAnnotation | S_Comma | S_Dot | S_DotDot
  | S_DotDotDot | S_Equals | S_EqEq | S_GreaterThan | S_GreaterEq | S_LBrace
  | S_RBrace | S_LBracket | S_RBracket | S_LessThan | S_LessEq | S_LParen
  | S_RParen | S_Minus | S_NotEq | S_Percent | S_Pipe | S_PipePipe
  | S_AmpAmp | S_Plus | S_Question | S_Slash | S_Star | S_Tilde
  | S_Underscore | S_HashLBracket | S_PlusEq | S_MinusEq | S_StarEq | S_SlashEq
  | S_PercentEq | S_AmpAmpEq | S_PipePipeEq

datatype LiteralType =
    L_LowerIdent | L_UpperIdent | L_SpliceIdent | L_Integer | L_Float | L_String
  | L_RawString | L_InterpolatedRawString | L_Char | L_Atom

datatype SpecialType =
    X_Newline | X_Eof | X_Error

datatype TokenType =
    Keyword KeywordType | Symbol SymbolType | Literal LiteralType | Special SpecialType

text \<open>
  \<open>T_X\<close> is \<open>TokenType::X\<close>.
\<close>

abbreviation T_After :: TokenType where "T_After \<equiv> Keyword K_After"
abbreviation T_Break :: TokenType where "T_Break \<equiv> Keyword K_Break"
abbreviation T_Compiled :: TokenType where "T_Compiled \<equiv> Keyword K_Compiled"
abbreviation T_Do :: TokenType where "T_Do \<equiv> Keyword K_Do"
abbreviation T_Elif :: TokenType where "T_Elif \<equiv> Keyword K_Elif"
abbreviation T_Else :: TokenType where "T_Else \<equiv> Keyword K_Else"
abbreviation T_End :: TokenType where "T_End \<equiv> Keyword K_End"
abbreviation T_Export :: TokenType where "T_Export \<equiv> Keyword K_Export"
abbreviation T_False :: TokenType where "T_False \<equiv> Keyword K_False"
abbreviation T_Final :: TokenType where "T_Final \<equiv> Keyword K_Final"
abbreviation T_Foul :: TokenType where "T_Foul \<equiv> Keyword K_Foul"
abbreviation T_If :: TokenType where "T_If \<equiv> Keyword K_If"
abbreviation T_Let :: TokenType where "T_Let \<equiv> Keyword K_Let"
abbreviation T_Loop :: TokenType where "T_Loop \<equiv> Keyword K_Loop"
abbreviation T_Main :: TokenType where "T_Main \<equiv> Keyword K_Main"
abbreviation T_Make :: TokenType where "T_Make \<equiv> Keyword K_Make"
abbreviation T_Match :: TokenType where "T_Match \<equiv> Keyword K_Match"
abbreviation T_Module :: TokenType where "T_Module \<equiv> Keyword K_Module"
abbreviation T_Capability :: TokenType where "T_Capability \<equiv> Keyword K_Capability"
abbreviation T_With :: TokenType where "T_With \<equiv> Keyword K_With"
abbreviation T_Next :: TokenType where "T_Next \<equiv> Keyword K_Next"
abbreviation T_None :: TokenType where "T_None \<equiv> Keyword K_None"
abbreviation T_Private :: TokenType where "T_Private \<equiv> Keyword K_Private"
abbreviation T_Public :: TokenType where "T_Public \<equiv> Keyword K_Public"
abbreviation T_Receive :: TokenType where "T_Receive \<equiv> Keyword K_Receive"
abbreviation T_Record :: TokenType where "T_Record \<equiv> Keyword K_Record"
abbreviation T_Rescue :: TokenType where "T_Rescue \<equiv> Keyword K_Rescue"
abbreviation T_Return :: TokenType where "T_Return \<equiv> Keyword K_Return"
abbreviation T_Serving :: TokenType where "T_Serving \<equiv> Keyword K_Serving"
abbreviation T_Slot :: TokenType where "T_Slot \<equiv> Keyword K_Slot"
abbreviation T_Spawn :: TokenType where "T_Spawn \<equiv> Keyword K_Spawn"
abbreviation T_Then :: TokenType where "T_Then \<equiv> Keyword K_Then"
abbreviation T_This :: TokenType where "T_This \<equiv> Keyword K_This"
abbreviation T_Timeout :: TokenType where "T_Timeout \<equiv> Keyword K_Timeout"
abbreviation T_Trait :: TokenType where "T_Trait \<equiv> Keyword K_Trait"
abbreviation T_True :: TokenType where "T_True \<equiv> Keyword K_True"
abbreviation T_Try :: TokenType where "T_Try \<equiv> Keyword K_Try"
abbreviation T_Trying :: TokenType where "T_Trying \<equiv> Keyword K_Trying"
abbreviation T_Type :: TokenType where "T_Type \<equiv> Keyword K_Type"
abbreviation T_Using :: TokenType where "T_Using \<equiv> Keyword K_Using"
abbreviation T_Var :: TokenType where "T_Var \<equiv> Keyword K_Var"
abbreviation T_When :: TokenType where "T_When \<equiv> Keyword K_When"
abbreviation T_While :: TokenType where "T_While \<equiv> Keyword K_While"
abbreviation T_Arrow :: TokenType where "T_Arrow \<equiv> Symbol S_Arrow"
abbreviation T_FatArrow :: TokenType where "T_FatArrow \<equiv> Symbol S_FatArrow"
abbreviation T_Amp :: TokenType where "T_Amp \<equiv> Symbol S_Amp"
abbreviation T_At :: TokenType where "T_At \<equiv> Symbol S_At"
abbreviation T_Bang :: TokenType where "T_Bang \<equiv> Symbol S_Bang"
abbreviation T_Colon :: TokenType where "T_Colon \<equiv> Symbol S_Colon"
abbreviation T_Caret :: TokenType where "T_Caret \<equiv> Symbol S_Caret"
abbreviation T_TypeAnnotation :: TokenType where "T_TypeAnnotation \<equiv> Symbol S_TypeAnnotation"
abbreviation T_SlotAnnotation :: TokenType where "T_SlotAnnotation \<equiv> Symbol S_SlotAnnotation"
abbreviation T_Comma :: TokenType where "T_Comma \<equiv> Symbol S_Comma"
abbreviation T_Dot :: TokenType where "T_Dot \<equiv> Symbol S_Dot"
abbreviation T_DotDot :: TokenType where "T_DotDot \<equiv> Symbol S_DotDot"
abbreviation T_DotDotDot :: TokenType where "T_DotDotDot \<equiv> Symbol S_DotDotDot"
abbreviation T_Equals :: TokenType where "T_Equals \<equiv> Symbol S_Equals"
abbreviation T_EqEq :: TokenType where "T_EqEq \<equiv> Symbol S_EqEq"
abbreviation T_GreaterThan :: TokenType where "T_GreaterThan \<equiv> Symbol S_GreaterThan"
abbreviation T_GreaterEq :: TokenType where "T_GreaterEq \<equiv> Symbol S_GreaterEq"
abbreviation T_LBrace :: TokenType where "T_LBrace \<equiv> Symbol S_LBrace"
abbreviation T_RBrace :: TokenType where "T_RBrace \<equiv> Symbol S_RBrace"
abbreviation T_LBracket :: TokenType where "T_LBracket \<equiv> Symbol S_LBracket"
abbreviation T_RBracket :: TokenType where "T_RBracket \<equiv> Symbol S_RBracket"
abbreviation T_LessThan :: TokenType where "T_LessThan \<equiv> Symbol S_LessThan"
abbreviation T_LessEq :: TokenType where "T_LessEq \<equiv> Symbol S_LessEq"
abbreviation T_LParen :: TokenType where "T_LParen \<equiv> Symbol S_LParen"
abbreviation T_RParen :: TokenType where "T_RParen \<equiv> Symbol S_RParen"
abbreviation T_Minus :: TokenType where "T_Minus \<equiv> Symbol S_Minus"
abbreviation T_NotEq :: TokenType where "T_NotEq \<equiv> Symbol S_NotEq"
abbreviation T_Percent :: TokenType where "T_Percent \<equiv> Symbol S_Percent"
abbreviation T_Pipe :: TokenType where "T_Pipe \<equiv> Symbol S_Pipe"
abbreviation T_PipePipe :: TokenType where "T_PipePipe \<equiv> Symbol S_PipePipe"
abbreviation T_AmpAmp :: TokenType where "T_AmpAmp \<equiv> Symbol S_AmpAmp"
abbreviation T_Plus :: TokenType where "T_Plus \<equiv> Symbol S_Plus"
abbreviation T_Question :: TokenType where "T_Question \<equiv> Symbol S_Question"
abbreviation T_Slash :: TokenType where "T_Slash \<equiv> Symbol S_Slash"
abbreviation T_Star :: TokenType where "T_Star \<equiv> Symbol S_Star"
abbreviation T_Tilde :: TokenType where "T_Tilde \<equiv> Symbol S_Tilde"
abbreviation T_Underscore :: TokenType where "T_Underscore \<equiv> Symbol S_Underscore"
abbreviation T_HashLBracket :: TokenType where "T_HashLBracket \<equiv> Symbol S_HashLBracket"
abbreviation T_PlusEq :: TokenType where "T_PlusEq \<equiv> Symbol S_PlusEq"
abbreviation T_MinusEq :: TokenType where "T_MinusEq \<equiv> Symbol S_MinusEq"
abbreviation T_StarEq :: TokenType where "T_StarEq \<equiv> Symbol S_StarEq"
abbreviation T_SlashEq :: TokenType where "T_SlashEq \<equiv> Symbol S_SlashEq"
abbreviation T_PercentEq :: TokenType where "T_PercentEq \<equiv> Symbol S_PercentEq"
abbreviation T_AmpAmpEq :: TokenType where "T_AmpAmpEq \<equiv> Symbol S_AmpAmpEq"
abbreviation T_PipePipeEq :: TokenType where "T_PipePipeEq \<equiv> Symbol S_PipePipeEq"
abbreviation T_LowerIdent :: TokenType where "T_LowerIdent \<equiv> Literal L_LowerIdent"
abbreviation T_UpperIdent :: TokenType where "T_UpperIdent \<equiv> Literal L_UpperIdent"
abbreviation T_SpliceIdent :: TokenType where "T_SpliceIdent \<equiv> Literal L_SpliceIdent"
abbreviation T_Integer :: TokenType where "T_Integer \<equiv> Literal L_Integer"
abbreviation T_Float :: TokenType where "T_Float \<equiv> Literal L_Float"
abbreviation T_String :: TokenType where "T_String \<equiv> Literal L_String"
abbreviation T_RawString :: TokenType where "T_RawString \<equiv> Literal L_RawString"
abbreviation T_InterpolatedRawString :: TokenType where "T_InterpolatedRawString \<equiv> Literal L_InterpolatedRawString"
abbreviation T_Char :: TokenType where "T_Char \<equiv> Literal L_Char"
abbreviation T_Atom :: TokenType where "T_Atom \<equiv> Literal L_Atom"
abbreviation T_Newline :: TokenType where "T_Newline \<equiv> Special X_Newline"
abbreviation T_Eof :: TokenType where "T_Eof \<equiv> Special X_Eof"
abbreviation T_Error :: TokenType where "T_Error \<equiv> Special X_Error"

record SourceLocation =
  loc_file :: string
  loc_line :: int
  loc_column :: int
  loc_startOffset :: int
  loc_endOffset :: int

record Token =
  tok_type :: TokenType
  tok_value :: string
  tok_location :: SourceLocation
  tok_startOffset :: int
  tok_endOffset :: int
  tok_escapedDollars :: "nat list"

primrec keywordName :: "KeywordType \<Rightarrow> string" where
  "keywordName K_After = ''after''"
| "keywordName K_Break = ''break''"
| "keywordName K_Compiled = ''compiled''"
| "keywordName K_Do = ''do''"
| "keywordName K_Elif = ''elif''"
| "keywordName K_Else = ''else''"
| "keywordName K_End = ''end''"
| "keywordName K_Export = ''export''"
| "keywordName K_False = ''false''"
| "keywordName K_Final = ''final''"
| "keywordName K_Foul = ''foul''"
| "keywordName K_If = ''if''"
| "keywordName K_Let = ''let''"
| "keywordName K_Loop = ''loop''"
| "keywordName K_Main = ''main''"
| "keywordName K_Make = ''make''"
| "keywordName K_Match = ''match''"
| "keywordName K_Module = ''module''"
| "keywordName K_Capability = ''capability''"
| "keywordName K_With = ''with''"
| "keywordName K_Next = ''next''"
| "keywordName K_None = ''None''"
| "keywordName K_Private = ''private''"
| "keywordName K_Public = ''public''"
| "keywordName K_Receive = ''receive''"
| "keywordName K_Record = ''record''"
| "keywordName K_Rescue = ''rescue''"
| "keywordName K_Return = ''return''"
| "keywordName K_Serving = ''serving''"
| "keywordName K_Slot = ''slot''"
| "keywordName K_Spawn = ''spawn''"
| "keywordName K_Then = ''then''"
| "keywordName K_This = ''this''"
| "keywordName K_Timeout = ''timeout''"
| "keywordName K_Trait = ''trait''"
| "keywordName K_True = ''true''"
| "keywordName K_Try = ''try''"
| "keywordName K_Trying = ''trying''"
| "keywordName K_Type = ''type''"
| "keywordName K_Using = ''using''"
| "keywordName K_Var = ''var''"
| "keywordName K_When = ''when''"
| "keywordName K_While = ''while''"

primrec symbolName :: "SymbolType \<Rightarrow> string" where
  "symbolName S_Arrow = ''->''"
| "symbolName S_FatArrow = ''=>''"
| "symbolName S_Amp = ''&''"
| "symbolName S_At = ''@''"
| "symbolName S_Bang = ''!''"
| "symbolName S_Colon = '':''"
| "symbolName S_Caret = ''^''"
| "symbolName S_TypeAnnotation = '':>''"
| "symbolName S_SlotAnnotation = ''::>''"
| "symbolName S_Comma = '',''"
| "symbolName S_Dot = ''.''"
| "symbolName S_DotDot = ''..''"
| "symbolName S_DotDotDot = ''...''"
| "symbolName S_Equals = ''=''"
| "symbolName S_EqEq = ''==''"
| "symbolName S_GreaterThan = ''>''"
| "symbolName S_GreaterEq = ''>=''"
| "symbolName S_LBrace = ''{''"
| "symbolName S_RBrace = ''}''"
| "symbolName S_LBracket = ''[''"
| "symbolName S_RBracket = '']''"
| "symbolName S_LessThan = ''<''"
| "symbolName S_LessEq = ''<=''"
| "symbolName S_LParen = ''(''"
| "symbolName S_RParen = '')''"
| "symbolName S_Minus = ''-''"
| "symbolName S_NotEq = ''!=''"
| "symbolName S_Percent = ''%''"
| "symbolName S_Pipe = ''|''"
| "symbolName S_PipePipe = ''||''"
| "symbolName S_AmpAmp = ''&&''"
| "symbolName S_Plus = ''+''"
| "symbolName S_Question = ''?''"
| "symbolName S_Slash = ''/''"
| "symbolName S_Star = ''*''"
| "symbolName S_Tilde = ''~''"
| "symbolName S_Underscore = ''_''"
| "symbolName S_HashLBracket = ''#[''"
| "symbolName S_PlusEq = ''+=''"
| "symbolName S_MinusEq = ''-=''"
| "symbolName S_StarEq = ''*=''"
| "symbolName S_SlashEq = ''/=''"
| "symbolName S_PercentEq = ''%=''"
| "symbolName S_AmpAmpEq = ''&&=''"
| "symbolName S_PipePipeEq = ''||=''"

primrec literalName :: "LiteralType \<Rightarrow> string" where
  "literalName L_LowerIdent = ''LowerIdent''"
| "literalName L_UpperIdent = ''UpperIdent''"
| "literalName L_SpliceIdent = ''SpliceIdent''"
| "literalName L_Integer = ''Integer''"
| "literalName L_Float = ''Float''"
| "literalName L_String = ''String''"
| "literalName L_RawString = ''RawString''"
| "literalName L_InterpolatedRawString = ''InterpolatedRawString''"
| "literalName L_Char = ''Char''"
| "literalName L_Atom = ''Atom''"

primrec specialName :: "SpecialType \<Rightarrow> string" where
  "specialName X_Newline = ''Newline''"
| "specialName X_Eof = ''Eof''"
| "specialName X_Error = ''Error''"

primrec tokenTypeName :: "TokenType \<Rightarrow> string" where
  "tokenTypeName (Keyword k) = keywordName k"
| "tokenTypeName (Symbol k) = symbolName k"
| "tokenTypeName (Literal k) = literalName k"
| "tokenTypeName (Special k) = specialName k"

definition keywordTable :: "(string \<times> TokenType) list" where
  "keywordTable = [
     (''after'', T_After), (''break'', T_Break), (''capability'', T_Capability),
     (''compiled'', T_Compiled), (''do'', T_Do), (''elif'', T_Elif),
     (''else'', T_Else), (''end'', T_End), (''export'', T_Export),
     (''false'', T_False), (''final'', T_Final), (''foul'', T_Foul),
     (''if'', T_If), (''let'', T_Let), (''loop'', T_Loop),
     (''main'', T_Main), (''make'', T_Make), (''match'', T_Match),
     (''module'', T_Module), (''next'', T_Next), (''private'', T_Private),
     (''public'', T_Public), (''receive'', T_Receive), (''record'', T_Record),
     (''rescue'', T_Rescue), (''return'', T_Return), (''serving'', T_Serving),
     (''slot'', T_Slot), (''spawn'', T_Spawn), (''then'', T_Then),
     (''this'', T_This), (''timeout'', T_Timeout), (''trait'', T_Trait),
     (''true'', T_True), (''try'', T_Try), (''trying'', T_Trying),
     (''type'', T_Type), (''using'', T_Using), (''var'', T_Var),
     (''when'', T_When), (''while'', T_While), (''with'', T_With)]"

definition isKeywordToken :: "TokenType \<Rightarrow> bool" where
  "isKeywordToken type = list_ex (\<lambda>(spelling, keywordType). keywordType = type) keywordTable"

definition canEndExpression :: "TokenType \<Rightarrow> bool" where
  "canEndExpression type =
     (type \<in> {T_LowerIdent, T_UpperIdent, T_Integer, T_Float, T_String, T_RawString,
       T_InterpolatedRawString, T_Char, T_Atom, T_RParen, T_RBracket, T_RBrace,
       T_End, T_True, T_False, T_None, T_This})"

section \<open>The keyword table\<close>

lemma keywords_distinct: "distinct (map fst keywordTable)"
  by (simp add: keywordTable_def)

lemma map_of_keywords_set: "map_of keywordTable s = Some t \<longleftrightarrow> (s, t) \<in> set keywordTable"
  using keywords_distinct by (simp add: map_of_eq_Some_iff)

lemma keyword_names: "list_all (\<lambda>(s, t). tokenTypeName t = s) keywordTable"
  by (simp add: keywordTable_def)

lemma keywords_never_end_with_question: "list_all (\<lambda>(s, t). s \<noteq> [] \<and> last s \<noteq> CHR ''?'') keywordTable"
  by (simp add: keywordTable_def)

text \<open>
  The keyword table and the printed names agree: a spelling is found with a type exactly
  when that type is a keyword and its printed name is the spelling, so no two keywords share a
  token type and \<open>isKeywordToken\<close> is true of exactly the types the table can produce.
\<close>
theorem keyword_lookup_iff_name:
  "map_of keywordTable s = Some t \<longleftrightarrow> isKeywordToken t \<and> tokenTypeName t = s"
proof -
  have "(s, t) \<in> set keywordTable \<longleftrightarrow> isKeywordToken t \<and> tokenTypeName t = s"
    using keyword_names by (fastforce simp: isKeywordToken_def list_ex_iff list_all_iff)
  then show ?thesis by (simp add: map_of_keywords_set)
qed

end
