(* ===== verification/RawString.thy ===== *)
theory RawString
  imports KexPrelude "HOL-Library.Sublist"
begin

text \<open>
  Block-shaped raw string literals: the margin of \<open>src/src/common/raw_string_margin.hxx\<close> and
  the dedenting at the end of \<open>Lexer::lexRawString\<close>.  A position in the body is modelled by
  the rest of the body from there, so \<open>find('\n', lineStart)\<close> is the length of the line that
  opens the rest.  The theorems say that the margin is the longest whitespace all nonblank
  lines share, and that the bytes a literal spells do not depend on how far it is indented.
\<close>

section \<open>Lines\<close>

abbreviation LF :: char where "LF \<equiv> CHR 0x0A"
abbreviation CR :: char where "CR \<equiv> CHR 0x0D"
abbreviation TAB :: char where "TAB \<equiv> CHR 0x09"

definition isBlankChar :: "char \<Rightarrow> bool" where
  "isBlankChar c \<longleftrightarrow> c = CHR '' '' \<or> c = TAB"

definition lineOf :: "string \<Rightarrow> string" where
  \<comment> \<open>\<open>body.substr(lineStart, lineEnd - lineStart)\<close>, the line up to the next newline or the end\<close>
  "lineOf rest = takeWhile (\<lambda>c. c \<noteq> LF) rest"

definition lineContent :: "string \<Rightarrow> string" where
  \<comment> \<open>the line up to \<open>contentEnd\<close>: without one final carriage return\<close>
  "lineContent line = (if line \<noteq> [] \<and> last line = CR then butlast line else line)"

definition leadingBlanks :: "string \<Rightarrow> string" where
  "leadingBlanks content = takeWhile isBlankChar content"

fun commonPrefix :: "string \<Rightarrow> string \<Rightarrow> string" where
  "commonPrefix (a # as) (b # bs) = (if a = b then a # commonPrefix as bs else [])"
| "commonPrefix as bs = []"

lemma lineOf_shorter: "length (lineOf rest) < length rest \<Longrightarrow> length (drop (Suc (length (lineOf rest))) rest) < length rest"
  by simp

section \<open>The margin\<close>

function margin_loop :: "string \<Rightarrow> bool \<Rightarrow> string \<Rightarrow> string" where
  "margin_loop margin seenLine rest =
     (let line = lineOf rest;
          hasNewline = length line < length rest;
          content = lineContent line;
          leading = leadingBlanks content;
          next_rest = drop (length line + 1) rest
      in if length leading < length content then
           let margin' = (if \<not> seenLine then leading else commonPrefix margin leading)
           in if margin' = [] then margin'
              else if \<not> hasNewline then margin'
              else margin_loop margin' True next_rest
         else if \<not> hasNewline then margin
         else margin_loop margin seenLine next_rest)"
  by pat_completeness auto
termination
  by (relation "measure (\<lambda>(margin, seenLine, rest). length rest)") auto

declare margin_loop.simps [simp del]

definition rawStringMargin :: "string \<Rightarrow> string" where
  "rawStringMargin body = margin_loop [] False body"

definition rawStringClosingLineStart :: "string \<Rightarrow> nat option" where
  "rawStringClosingLineStart body =
     (let tail = rev (takeWhile (\<lambda>c. c \<noteq> LF) (rev body));
          lineStart = length body - length tail
      in if list_all (\<lambda>c. c = CHR '' '' \<or> c = TAB \<or> c = CR) tail then Some lineStart else None)"

section \<open>Dedenting a literal\<close>

definition dedentLine :: "string \<Rightarrow> string \<Rightarrow> string" where
  "dedentLine margin line =
     (let content = lineContent line
      in if list_all isBlankChar content
         then (if length content < length line then [CR] else [])
         else drop (length margin) line)"

function dedent_loop :: "string \<Rightarrow> string \<Rightarrow> string" where
  "dedent_loop margin rest =
     (if rest \<noteq> [] then
        let line = lineOf rest;
            hasNewline = length line < length rest
        in dedentLine margin line @ (if hasNewline then [LF] else []) @
           dedent_loop margin (drop (length line + (if hasNewline then 1 else 0)) rest)
      else [])"
  by pat_completeness auto
termination
proof (relation "measure (\<lambda>(margin, rest). length rest)")
  fix margin rest :: string and line hasNewline
  assume "rest \<noteq> []" "line = lineOf rest" "hasNewline = (length line < length rest)"
  moreover have "length (lineOf rest) \<le> length rest"
    by (simp add: lineOf_def length_takeWhile_le)
  ultimately show "((margin, drop (length line + (if hasNewline then 1 else 0)) rest), margin, rest)
      \<in> measure (\<lambda>(margin, rest). length rest)"
    by (cases "length (lineOf rest) = length rest") auto
qed simp

declare dedent_loop.simps [simp del]

definition dedentBlock :: "string \<Rightarrow> string" where
  \<comment> \<open>what \<open>lexRawString\<close> does with the raw text between the delimiters\<close>
  "dedentBlock raw =
     (if prefix [LF] raw \<or> prefix [CR, LF] raw then
        let body = drop (if prefix [CR, LF] raw then 2 else 1) raw;
            body = (case rawStringClosingLineStart body of
                      Some closingLine \<Rightarrow> take closingLine body
                    | None \<Rightarrow> body)
        in dedent_loop (rawStringMargin body) body
      else raw)"

section \<open>The loops as functions of the lines\<close>

function splitLines :: "string \<Rightarrow> string list" where
  "splitLines rest =
     (if length (lineOf rest) < length rest
      then lineOf rest # splitLines (drop (length (lineOf rest) + 1) rest)
      else [lineOf rest])"
  by pat_completeness auto
termination
  by (relation "measure length") auto

declare splitLines.simps [simp del]

fun joinLines :: "string list \<Rightarrow> string" where
  "joinLines [] = []"
| "joinLines [l] = l"
| "joinLines (l # ls) = l @ LF # joinLines ls"

definition nonblank :: "string \<Rightarrow> bool" where
  "nonblank line \<longleftrightarrow> \<not> list_all isBlankChar (lineContent line)"

definition leads :: "string list \<Rightarrow> string list" where
  "leads ls = map (\<lambda>l. leadingBlanks (lineContent l)) (filter nonblank ls)"

fun foldMargin :: "string list \<Rightarrow> string" where
  "foldMargin [] = []"
| "foldMargin (l # ls) = foldl commonPrefix l ls"

lemma lineOf_le: "length (lineOf rest) \<le> length rest"
  by (simp add: lineOf_def length_takeWhile_le)

lemma joinLines_Cons: "ls \<noteq> [] \<Longrightarrow> joinLines (l # ls) = l @ LF # joinLines ls"
  by (cases ls) auto

lemma splitLines_not_Nil [simp]: "splitLines s \<noteq> []"
  by (subst splitLines.simps) simp

lemma lineOf_no_newline: "LF \<notin> set l \<Longrightarrow> lineOf l = l"
  unfolding lineOf_def by (induction l) auto

lemma lineOf_append: "LF \<notin> set l \<Longrightarrow> lineOf (l @ LF # rest) = l"
  unfolding lineOf_def by (induction l) auto

lemma splitLines_Cons:
  "LF \<notin> set l \<Longrightarrow> splitLines (l @ LF # rest) = l # splitLines rest"
  by (subst splitLines.simps) (simp add: lineOf_append)

lemma splitLines_last: "LF \<notin> set l \<Longrightarrow> splitLines l = [l]"
  by (subst splitLines.simps) (simp add: lineOf_no_newline)

lemma splitLines_joinLines:
  "ls \<noteq> [] \<Longrightarrow> \<forall>l \<in> set ls. LF \<notin> set l \<Longrightarrow> splitLines (joinLines ls) = ls"
  by (induction ls rule: joinLines.induct) (auto simp: splitLines_Cons splitLines_last)

lemma lineOf_newline:
  "length (lineOf s) < length s \<Longrightarrow> s = lineOf s @ LF # drop (length (lineOf s) + 1) s"
  unfolding lineOf_def by (induction s) auto

lemma lineOf_whole: "\<not> length (lineOf s) < length s \<Longrightarrow> lineOf s = s"
  unfolding lineOf_def by (induction s) (auto simp: length_takeWhile_le)

lemma joinLines_splitLines: "joinLines (splitLines s) = s"
proof (induction s rule: splitLines.induct)
  case (1 s)
  show ?case
  proof (cases "length (lineOf s) < length s")
    case True
    then have "joinLines (splitLines s) = lineOf s @ LF # drop (length (lineOf s) + 1) s"
      using "1" by (subst splitLines.simps) (simp add: joinLines_Cons)
    then show ?thesis using lineOf_newline [OF True] by simp
  next
    case False
    then show ?thesis by (subst splitLines.simps) (simp add: lineOf_whole)
  qed
qed

lemma splitLines_no_newline: "l \<in> set (splitLines s) \<Longrightarrow> LF \<notin> set l"
proof (induction s rule: splitLines.induct)
  case (1 s)
  have "LF \<notin> set (lineOf s)" by (auto simp: lineOf_def dest: set_takeWhileD)
  with "1" show ?case
    by (subst (asm) (2) splitLines.simps) (auto split: if_splits)
qed

lemma takeWhile_shorter_iff: "length (takeWhile P xs) < length xs \<longleftrightarrow> \<not> list_all P xs"
  by (induction xs) auto

lemma nonblank_iff: "nonblank l \<longleftrightarrow> length (leadingBlanks (lineContent l)) < length (lineContent l)"
  unfolding nonblank_def leadingBlanks_def by (rule takeWhile_shorter_iff [symmetric])

lemma commonPrefix_Nil [simp]: "commonPrefix [] bs = []" "commonPrefix as [] = []"
  by (cases as; simp)+

lemma foldl_commonPrefix_Nil [simp]: "foldl commonPrefix [] ls = []"
  by (induction ls) auto

lemma leads_Cons:
  "leads (l # ls) = (if nonblank l then leadingBlanks (lineContent l) # leads ls else leads ls)"
  by (simp add: leads_def)

lemma leads_Nil [simp]: "leads [] = []"
  by (simp add: leads_def)

lemma margin_loop_seen:
  "margin \<noteq> [] \<Longrightarrow> margin_loop margin True rest = foldl commonPrefix margin (leads (splitLines rest))"
proof (induction margin True rest rule: margin_loop.induct)
  case (1 margin rest)
  show ?case
    using "1" by (subst margin_loop.simps, subst splitLines.simps)
      (auto simp: Let_def leads_Cons nonblank_iff)
qed

lemma margin_loop_unseen: "margin_loop [] False rest = foldMargin (leads (splitLines rest))"
proof (induction "[] :: string" False rest rule: margin_loop.induct)
  case (1 rest)
  show ?case
    using "1" by (subst margin_loop.simps, subst splitLines.simps)
      (auto simp: Let_def leads_Cons nonblank_iff margin_loop_seen)
qed

lemma rawStringMargin_lines: "rawStringMargin body = foldMargin (leads (splitLines body))"
  by (simp add: rawStringMargin_def margin_loop_unseen)

lemma dedent_loop_lines:
  "dedent_loop margin rest = joinLines (map (dedentLine margin) (splitLines rest))"
proof (induction margin rest rule: dedent_loop.induct)
  case (1 margin rest)
  show ?case
  proof (cases "length (lineOf rest) < length rest")
    case True
    then have "rest \<noteq> []" by auto
    with 1 True show ?thesis
      by (subst dedent_loop.simps, subst splitLines.simps) (simp add: Let_def joinLines_Cons)
  next
    case False
    then have "splitLines rest = [rest]" "lineOf rest = rest"
      by (simp_all add: splitLines.simps [of rest] lineOf_whole)
    then show ?thesis
      by (subst dedent_loop.simps) (simp add: Let_def dedent_loop.simps dedentLine_def lineContent_def)
  qed
qed

section \<open>The margin is the longest shared indentation\<close>

lemma prefix_commonPrefix: "prefix p (commonPrefix as bs) \<longleftrightarrow> prefix p as \<and> prefix p bs"
proof (induction as bs arbitrary: p rule: commonPrefix.induct)
  case (1 a as b bs)
  then show ?case by (cases p) auto
qed auto

lemma prefix_foldl_commonPrefix:
  "prefix p (foldl commonPrefix m ls) \<longleftrightarrow> prefix p m \<and> (\<forall>l \<in> set ls. prefix p l)"
  by (induction ls arbitrary: m) (auto simp: prefix_commonPrefix)

lemma prefix_foldMargin:
  "ls \<noteq> [] \<Longrightarrow> prefix p (foldMargin ls) \<longleftrightarrow> (\<forall>l \<in> set ls. prefix p l)"
  by (cases ls) (auto simp: prefix_foldl_commonPrefix)

lemma prefix_takeWhile_iff: "prefix p (takeWhile P xs) \<longleftrightarrow> list_all P p \<and> prefix p xs"
proof (induction xs arbitrary: p)
  case (Cons x xs)
  then show ?case by (cases p) auto
qed auto

lemma lineContent_cases:
  obtains "lineContent line = line" | "line = lineContent line @ [CR]"
proof (cases "line \<noteq> [] \<and> last line = CR")
  case True
  then have "line = lineContent line @ [CR]"
    using append_butlast_last_id [of line] by (simp add: lineContent_def)
  then show ?thesis by (rule that(2))
next
  case False
  then show ?thesis by (intro that(1)) (auto simp: lineContent_def)
qed

lemma prefix_lineContent:
  "list_all isBlankChar p \<Longrightarrow> prefix p (lineContent line) \<longleftrightarrow> prefix p line"
proof (rule lineContent_cases [of line])
  assume p: "list_all isBlankChar p" and l: "line = lineContent line @ [CR]"
  have "p \<noteq> lineContent line @ [CR]"
    using p by (auto simp: isBlankChar_def)
  then show ?thesis by (subst (2) l) (auto simp: prefix_snoc)
qed simp

text \<open>
  The margin of a block with at least one nonblank line is the longest indentation its
  nonblank lines share: a string is a prefix of the margin exactly when it consists of spaces
  and tabs and every nonblank line starts with it.
\<close>
theorem rawStringMargin_longest:
  assumes "\<exists>line \<in> set (splitLines body). nonblank line"
  shows "prefix p (rawStringMargin body) \<longleftrightarrow>
    list_all isBlankChar p \<and> (\<forall>line \<in> set (splitLines body). nonblank line \<longrightarrow> prefix p line)"
proof -
  have "leads (splitLines body) \<noteq> []"
    using assms by (auto simp: leads_def filter_empty_conv)
  moreover have "set (leads (splitLines body)) =
      (\<lambda>l. leadingBlanks (lineContent l)) ` {l \<in> set (splitLines body). nonblank l}"
    by (auto simp: leads_def)
  ultimately have "prefix p (rawStringMargin body) \<longleftrightarrow>
      (\<forall>l \<in> set (splitLines body). nonblank l \<longrightarrow> list_all isBlankChar p \<and> prefix p (lineContent l))"
    by (auto simp: rawStringMargin_lines prefix_foldMargin leadingBlanks_def prefix_takeWhile_iff)
  then show ?thesis
    using assms by (auto simp: prefix_lineContent)
qed

theorem rawStringMargin_longest_witness:
  "(\<exists>line \<in> set (splitLines ''  a''). nonblank line) \<and> prefix '' '' (rawStringMargin ''  a'')"
proof -
  have l: "splitLines ''  a'' = [''  a'']" by (rule splitLines_last) simp
  have n: "nonblank ''  a''"
    by (simp add: nonblank_def lineContent_def isBlankChar_def)
  have "\<exists>line \<in> set (splitLines ''  a''). nonblank line" using l n by simp
  from this rawStringMargin_longest [OF this, of "'' ''"] show ?thesis
    using l by (simp add: isBlankChar_def)
qed

section \<open>Indentation does not change a literal\<close>

definition reindentLine :: "string \<Rightarrow> string \<Rightarrow> string" where
  "reindentLine w line = (if nonblank line then w @ line else line)"

definition reindent :: "string \<Rightarrow> string \<Rightarrow> string" where
  \<comment> \<open>the body with every nonblank line moved right by \<open>w\<close>\<close>
  "reindent w body = joinLines (map (reindentLine w) (splitLines body))"

lemma lineContent_append:
  "lineContent l \<noteq> [] \<Longrightarrow> lineContent (w @ l) = w @ lineContent l"
  by (auto simp: lineContent_def butlast_append)

lemma nonblank_content: "nonblank l \<Longrightarrow> lineContent l \<noteq> []"
  by (auto simp: nonblank_def)

lemma nonblank_reindent [simp]: "nonblank (reindentLine w l) = nonblank l"
  using nonblank_content [of l] lineContent_append [of l w]
  by (auto simp: reindentLine_def nonblank_def)

lemma lead_reindent:
  "list_all isBlankChar w \<Longrightarrow> nonblank l \<Longrightarrow>
     leadingBlanks (lineContent (reindentLine w l)) = w @ leadingBlanks (lineContent l)"
  by (auto simp: reindentLine_def lineContent_append nonblank_content leadingBlanks_def
      list_all_iff takeWhile_append2)

lemma leads_reindent:
  "list_all isBlankChar w \<Longrightarrow> leads (map (reindentLine w) ls) = map ((@) w) (leads ls)"
  by (induction ls) (simp_all add: leads_Cons lead_reindent)

lemma commonPrefix_append: "commonPrefix (w @ as) (w @ bs) = w @ commonPrefix as bs"
  by (induction w) auto

lemma foldl_commonPrefix_append:
  "foldl commonPrefix (w @ m) (map ((@) w) ls) = w @ foldl commonPrefix m ls"
  by (induction ls arbitrary: m) (auto simp: commonPrefix_append)

lemma foldMargin_append: "ls \<noteq> [] \<Longrightarrow> foldMargin (map ((@) w) ls) = w @ foldMargin ls"
  by (cases ls) (auto simp: foldl_commonPrefix_append)

lemma dedentLine_reindent:
  "nonblank l \<Longrightarrow> dedentLine (w @ m) (reindentLine w l) = dedentLine m l"
proof -
  assume l: "nonblank l"
  then have "reindentLine w l = w @ l" "nonblank (w @ l)"
    using nonblank_reindent [of w l] by (simp_all add: reindentLine_def)
  with l show ?thesis by (simp add: dedentLine_def nonblank_def)
qed

lemma dedentLine_blank: "\<not> nonblank l \<Longrightarrow> dedentLine m l = dedentLine m' l"
  by (simp add: dedentLine_def nonblank_def)

lemma dedentLines_reindent:
  assumes "list_all isBlankChar w"
  shows "map (dedentLine (foldMargin (leads (map (reindentLine w) ls)))) (map (reindentLine w) ls) =
     map (dedentLine (foldMargin (leads ls))) ls"
proof (cases "leads ls = []")
  case True
  then have "\<not> nonblank l" if "l \<in> set ls" for l
    using that by (auto simp: leads_def filter_empty_conv)
  then show ?thesis
    by (auto simp: reindentLine_def intro: dedentLine_blank)
next
  case False
  then have m: "foldMargin (leads (map (reindentLine w) ls)) = w @ foldMargin (leads ls)"
    using assms by (simp add: leads_reindent foldMargin_append)
  have "dedentLine (w @ m) (reindentLine w l) = dedentLine m l" for m l
  proof (cases "nonblank l")
    case True
    then show ?thesis by (rule dedentLine_reindent)
  next
    case False
    then show ?thesis by (simp add: reindentLine_def dedentLine_blank [OF False, of "w @ m" m])
  qed
  then show ?thesis unfolding m by simp
qed

lemma reindent_splitLines:
  assumes "list_all isBlankChar w"
  shows "splitLines (reindent w body) = map (reindentLine w) (splitLines body)"
proof -
  have "LF \<notin> set w" using assms by (induction w) (auto simp: isBlankChar_def)
  then have "LF \<notin> set (reindentLine w l)" if "l \<in> set (splitLines body)" for l
    using splitLines_no_newline [OF that] by (simp add: reindentLine_def)
  then have "\<forall>l \<in> set (map (reindentLine w) (splitLines body)). LF \<notin> set l"
    by simp
  then show ?thesis
    unfolding reindent_def by (rule splitLines_joinLines [rotated]) simp
qed

lemma dedent_reindent:
  "list_all isBlankChar w \<Longrightarrow>
     dedent_loop (rawStringMargin (reindent w body)) (reindent w body) =
     dedent_loop (rawStringMargin body) body"
  by (simp only: dedent_loop_lines rawStringMargin_lines reindent_splitLines dedentLines_reindent)

lemma closingLine_drops_tail:
  assumes "list_all (\<lambda>c. isBlankChar c \<or> c = CR) tail"
  shows "rawStringClosingLineStart (body @ LF # tail) = Some (length body + 1)"
proof -
  have "LF \<notin> set tail"
    using assms by (induction tail) (auto simp: isBlankChar_def)
  then have t: "takeWhile (\<lambda>c. c \<noteq> LF) (rev tail @ LF # rev body) = rev tail"
    by (induction tail rule: rev_induct) auto
  have l: "list_all (\<lambda>c. c = CHR '' '' \<or> c = TAB \<or> c = CR) tail"
    using assms by (induction tail) (auto simp: isBlankChar_def)
  have r: "rev (body @ LF # tail) = rev tail @ LF # rev body" by simp
  show ?thesis
    unfolding rawStringClosingLineStart_def r t Let_def rev_rev_ident if_P [OF l] by simp
qed

lemma dedentBlock_body:
  assumes "list_all (\<lambda>c. isBlankChar c \<or> c = CR) tail"
  shows "dedentBlock (LF # body @ LF # tail) =
    dedent_loop (rawStringMargin (body @ [LF])) (body @ [LF])"
  using closingLine_drops_tail [OF assms, of body] by (simp add: dedentBlock_def Let_def)

lemma splitLines_append_newline: "splitLines (body @ [LF]) = splitLines body @ [[]]"
proof (induction body rule: splitLines.induct)
  case (1 body)
  show ?case
  proof (cases "length (lineOf body) < length body")
    case True
    have no: "LF \<notin> set (lineOf body)" by (auto simp: lineOf_def dest: set_takeWhileD)
    have "splitLines (body @ [LF]) = lineOf body # splitLines (drop (length (lineOf body) + 1) body @ [LF])"
      by (subst lineOf_newline [OF True]) (simp add: splitLines_Cons [OF no])
    with "1" [OF True] True show ?thesis by (simp add: splitLines.simps [of body])
  next
    case False
    then have "LF \<notin> set body" using lineOf_whole [OF False] by (metis lineOf_def set_takeWhileD)
    then show ?thesis by (simp add: splitLines_Cons splitLines_last)
  qed
qed

lemma reindent_append_newline: "reindent w (body @ [LF]) = reindent w body @ [LF]"
proof -
  have "joinLines (ls @ [[]]) = joinLines ls @ [LF]" if "ls \<noteq> []" for ls
    using that by (induction ls rule: joinLines.induct) (auto simp: joinLines_Cons)
  then show ?thesis
    by (simp add: reindent_def splitLines_append_newline reindentLine_def nonblank_def lineContent_def)
qed

lemma dedentBlock_opened:
  "dedentBlock (CR # LF # raw) = dedentBlock (LF # raw)"
  by (simp add: dedentBlock_def)

text \<open>
  C34: a block-shaped literal spells the same bytes wherever it sits in the source: moving every
  nonblank line right by the same spaces and tabs, ending the opening line with \<open>LF\<close> or \<open>CR LF\<close>, and
  putting the closing delimiter at any other column, changes nothing.
\<close>
theorem dedent_position_independent:
  assumes "list_all isBlankChar w"
    and "list_all (\<lambda>c. isBlankChar c \<or> c = CR) tail"
    and "list_all (\<lambda>c. isBlankChar c \<or> c = CR) tail'"
    and "opening \<in> {[LF], [CR, LF]}" "opening' \<in> {[LF], [CR, LF]}"
  shows "dedentBlock (opening @ reindent w body @ LF # tail) = dedentBlock (opening' @ body @ LF # tail')"
proof -
  have "dedentBlock (opening @ raw) = dedentBlock (LF # raw)" "dedentBlock (opening' @ raw) = dedentBlock (LF # raw)" for raw
    using assms(4,5) dedentBlock_opened [of raw] by auto
  then show ?thesis
    using assms(1-3) dedent_reindent [of w "body @ [LF]"] by (simp add: dedentBlock_body reindent_append_newline)
qed

theorem dedent_position_independent_witness:
  "dedentBlock ([CR, LF] @ reindent ''    '' ''  a'' @ LF # ''   '') = dedentBlock ([LF] @ ''  a'' @ LF # [])"
  by (rule dedent_position_independent) (simp_all add: isBlankChar_def)

text \<open>
  \<open>docs/strings.md\<close> says the margin is the whitespace before the closing delimiter, and the example
  below it drops the last newline.  The closing column plays no part: two blanks before it leave a
  line indented by four without any of them, and the newline before the closing line stays.
\<close>

lemma closing_column_is_no_margin: "dedentBlock (LF # ''    a'' @ LF # ''  '') = ''a'' @ [LF]"
  by code_simp

end
