(* ===== verification/Lexer.thy ===== *)
theory Lexer
  imports Utf8 UnicodeCategory Token RawString "HOL-Library.Char_ord"
begin

text \<open>
  The scanner of \<open>src/src/lexer/lexer.cxx\<close>.  The \<open>Lexer\<close> object is a record passed from
  operation to operation; every member function that moves the scanner returns the record
  after it.  A \<open>while\<close> loop of the source is a function whose measure is the number of bytes
  left.  \<open>scanToken\<close> calls \<open>nextToken\<close> where it skips a newline or a comment; its body
  \<open>scanStep\<close> returns either the token or the state that call starts from.  Offsets are natural
  numbers: the source keeps them in an \<open>int\<close>, so the model is the code on sources shorter
  than \<open>2 ^ 31\<close> bytes.  The radix conversion \<open>mpz_class(digits, base).get_str()\<close> is
  the parameter \<open>gmp\<close>, \<open>None\<close> where it throws \<open>std::invalid_argument\<close>.
\<close>

section \<open>The state\<close>

record Lexer =
  m_source :: string
  m_filename :: string
  m_pos :: nat
  m_line :: int
  m_column :: int
  m_tokenStartLine :: int
  m_tokenStartColumn :: int
  m_tokenStartOffset :: nat
  m_parenDepth :: nat
  m_prevType :: TokenType

definition make_lexer :: "string \<Rightarrow> string \<Rightarrow> Lexer" where
  "make_lexer source filename =
     \<lparr>m_source = source, m_filename = filename, m_pos = 0, m_line = 1, m_column = 1,
      m_tokenStartLine = 1, m_tokenStartColumn = 1, m_tokenStartOffset = 0,
      m_parenDepth = 0, m_prevType = T_Newline\<rparr>"

abbreviation NUL :: char where "NUL \<equiv> CHR 0x00"

definition at :: "string \<Rightarrow> nat \<Rightarrow> char" where
  \<comment> \<open>\<open>std::string::operator[]\<close>: the terminator at \<open>size()\<close>\<close>
  "at s i = (if i < length s then s ! i else NUL)"

definition atEnd :: "Lexer \<Rightarrow> bool" where
  "atEnd s \<longleftrightarrow> m_pos s \<ge> length (m_source s)"

definition peek :: "Lexer \<Rightarrow> char" where
  "peek s = (if atEnd s then NUL else at (m_source s) (m_pos s))"

definition peekAt :: "Lexer \<Rightarrow> nat \<Rightarrow> char" where
  "peekAt s i = (if m_pos s + i \<ge> length (m_source s) then NUL else at (m_source s) (m_pos s + i))"

definition peekNext :: "Lexer \<Rightarrow> char" where
  "peekNext s = (if m_pos s + 1 \<ge> length (m_source s) then NUL else at (m_source s) (m_pos s + 1))"

definition advance :: "Lexer \<Rightarrow> char \<times> Lexer" where
  "advance s =
     (let c = at (m_source s) (m_pos s);
          s = s\<lparr>m_pos := m_pos s + 1\<rparr>
      in if c = LF then (c, s\<lparr>m_line := m_line s + 1, m_column := 1\<rparr>)
         else (c, s\<lparr>m_column := m_column s + 1\<rparr>))"

definition match_char :: "Lexer \<Rightarrow> char \<Rightarrow> bool \<times> Lexer" where
  "match_char s expected =
     (if atEnd s \<or> at (m_source s) (m_pos s) \<noteq> expected then (False, s)
      else (True, snd (advance s)))"

definition bytes_left :: "Lexer \<Rightarrow> nat" where
  "bytes_left s = length (m_source s) - m_pos s"

lemma bytes_left_advance [simp]:
  "\<not> atEnd s \<Longrightarrow> bytes_left (snd (advance s)) < bytes_left s"
  by (auto simp: bytes_left_def advance_def atEnd_def Let_def)

lemma bytes_left_advance_eq: "advance s = (c, s') \<Longrightarrow> \<not> atEnd s \<Longrightarrow> bytes_left s' < bytes_left s"
  using bytes_left_advance [of s] by simp

section \<open>Character classes\<close>

text \<open>A \<open>char\<close> above \<open>0x7F\<close> is in none of the ranges, whether \<open>char\<close> is signed or not.\<close>

definition isLowerAlpha :: "char \<Rightarrow> bool" where
  "isLowerAlpha c \<longleftrightarrow> c \<ge> CHR ''a'' \<and> c \<le> CHR ''z''"

definition isUpperAlpha :: "char \<Rightarrow> bool" where
  "isUpperAlpha c \<longleftrightarrow> c \<ge> CHR ''A'' \<and> c \<le> CHR ''Z''"

definition isAlpha :: "char \<Rightarrow> bool" where
  "isAlpha c \<longleftrightarrow> isLowerAlpha c \<or> isUpperAlpha c"

definition isDigit :: "char \<Rightarrow> bool" where
  "isDigit c \<longleftrightarrow> c \<ge> CHR ''0'' \<and> c \<le> CHR ''9''"

definition isHexDigit :: "char \<Rightarrow> bool" where
  "isHexDigit c \<longleftrightarrow> isDigit c \<or> (c \<ge> CHR ''a'' \<and> c \<le> CHR ''f'') \<or> (c \<ge> CHR ''A'' \<and> c \<le> CHR ''F'')"

definition isIdentChar :: "char \<Rightarrow> bool" where
  "isIdentChar c \<longleftrightarrow> isAlpha c \<or> isDigit c \<or> c = CHR ''_''"

section \<open>Making tokens\<close>

definition currentLocation :: "Lexer \<Rightarrow> SourceLocation" where
  "currentLocation s =
     \<lparr>loc_file = m_filename s, loc_line = m_tokenStartLine s, loc_column = m_tokenStartColumn s,
      loc_startOffset = 0, loc_endOffset = 0\<rparr>"

definition makeToken :: "Lexer \<Rightarrow> TokenType \<Rightarrow> string \<Rightarrow> Token" where
  "makeToken s type v =
     \<lparr>tok_type = type, tok_value = v,
      tok_location = (currentLocation s)\<lparr>loc_startOffset := int (m_tokenStartOffset s),
                                          loc_endOffset := int (m_pos s)\<rparr>,
      tok_startOffset = int (m_tokenStartOffset s), tok_endOffset = int (m_pos s),
      tok_escapedDollars = []\<rparr>"

definition errorToken :: "Lexer \<Rightarrow> string \<Rightarrow> Token" where
  "errorToken s message =
     \<lparr>tok_type = T_Error, tok_value = message,
      tok_location = (currentLocation s)\<lparr>loc_startOffset := int (m_tokenStartOffset s),
                                          loc_endOffset := int (m_pos s)\<rparr>,
      tok_startOffset = int (m_tokenStartOffset s), tok_endOffset = int (m_pos s),
      tok_escapedDollars = []\<rparr>"

section \<open>Loops that consume\<close>

function skipWhitespace :: "Lexer \<Rightarrow> Lexer" where
  "skipWhitespace s =
     (if \<not> atEnd s \<and> (peek s = CHR '' '' \<or> peek s = TAB \<or> peek s = CR)
      then skipWhitespace (snd (advance s)) else s)"
  by pat_completeness auto
termination by (relation "measure bytes_left") auto

function skipComment :: "Lexer \<Rightarrow> Lexer" where
  "skipComment s =
     (if \<not> atEnd s \<and> peek s \<noteq> LF then skipComment (snd (advance s)) else s)"
  by pat_completeness auto
termination by (relation "measure bytes_left") auto

function consume_while :: "(char \<Rightarrow> bool) \<Rightarrow> string \<Rightarrow> Lexer \<Rightarrow> string \<times> Lexer" where
  \<comment> \<open>\<open>while (!atEnd() && p(peek())) out += advance();\<close>\<close>
  "consume_while p out s =
     (if \<not> atEnd s \<and> p (peek s)
      then let (c, s) = advance s in consume_while p (out @ [c]) s
      else (out, s))"
  by pat_completeness auto
termination
  by (relation "measure (\<lambda>(p, out, s). bytes_left s)") (auto dest: bytes_left_advance_eq [OF sym])

function consume_digits :: "(char \<Rightarrow> bool) \<Rightarrow> string \<Rightarrow> Lexer \<Rightarrow> string \<times> Lexer" where
  \<comment> \<open>the digit loops of \<open>lexNumber\<close>: underscores are skipped, digits collected\<close>
  "consume_digits p out s =
     (if \<not> atEnd s \<and> (p (peek s) \<or> peek s = CHR ''_'')
      then if peek s = CHR ''_'' then consume_digits p out (snd (advance s))
           else let (c, s) = advance s in consume_digits p (out @ [c]) s
      else (out, s))"
  by pat_completeness auto
termination
  by (relation "measure (\<lambda>(p, out, s). bytes_left s)") (auto dest: bytes_left_advance_eq [OF sym])

declare skipWhitespace.simps [simp del] skipComment.simps [simp del]
  consume_while.simps [simp del] consume_digits.simps [simp del]

section \<open>Identifiers\<close>

definition identCodepointAt :: "Lexer \<Rightarrow> nat \<Rightarrow> char32 \<times> nat" where
  \<comment> \<open>the codepoint and the \<open>width\<close> the source returns through its reference argument\<close>
  "identCodepointAt s index =
     (if index \<ge> length (m_source s) then (0xFFFD, 1)
      else let span = sequenceLength (m_source s) index;
               decoded = decode (take span (drop index (m_source s)))
           in (if decoded = [] then 0xFFFD else hd decoded, span))"

definition identContinues :: "Lexer \<Rightarrow> nat \<Rightarrow> bool \<times> nat" where
  "identContinues s index =
     (if index \<ge> length (m_source s) then (False, 1)
      else let byte = uchar (at (m_source s) index)
           in if byte < 0x80 then (isIdentChar (mk_char byte), 1)
              else let (codepoint, width) = identCodepointAt s index
                   in (inRanges letterRanges codepoint, width))"

primrec advance_times :: "nat \<Rightarrow> string \<Rightarrow> Lexer \<Rightarrow> string \<times> Lexer" where
  \<comment> \<open>\<open>for (int i = 0; i < n && !atEnd(); ++i) ident += advance();\<close>\<close>
  "advance_times 0 ident s = (ident, s)"
| "advance_times (Suc n) ident s =
     (if atEnd s then (ident, s)
      else let (c, s) = advance s in advance_times n (ident @ [c]) s)"

lemma bytes_left_advance_times:
  "bytes_left (snd (advance_times n ident s)) \<le> bytes_left s"
proof (induction n arbitrary: ident s)
  case (Suc n)
  show ?case
  proof (cases "atEnd s")
    case False
    obtain c s' where a: "advance s = (c, s')" by (cases "advance s")
    then show ?thesis
      using False Suc [of "ident @ [c]" s'] bytes_left_advance_eq [OF a] by simp
  qed simp
qed simp

lemma bytes_left_advance_some:
  assumes "\<not> atEnd s" "0 < n"
  shows "bytes_left (snd (advance_times n ident s)) < bytes_left s"
proof -
  obtain c s' where a: "advance s = (c, s')" by (cases "advance s")
  obtain m where "n = Suc m" using assms(2) by (cases n) auto
  then show ?thesis
    using assms(1) a bytes_left_advance_eq [OF a] bytes_left_advance_times [of m "ident @ [c]" s']
    by simp
qed

lemma identContinues_width_pos: "0 < snd (identContinues s i)"
  by (auto simp: identContinues_def identCodepointAt_def Let_def)

function consumeIdentRest :: "string \<Rightarrow> Lexer \<Rightarrow> string \<times> Lexer" where
  "consumeIdentRest ident s =
     (if \<not> atEnd s \<and> fst (identContinues s (m_pos s))
      then let (ident, s) = advance_times (snd (identContinues s (m_pos s))) ident s
           in consumeIdentRest ident s
      else (ident, s))"
  by pat_completeness auto
termination
proof (relation "measure (\<lambda>(ident, s). bytes_left s)")
  fix ident ident' :: string and s s' :: Lexer and x
  assume "\<not> atEnd s \<and> fst (identContinues s (m_pos s))"
    "x = advance_times (snd (identContinues s (m_pos s))) ident s" "(ident', s') = x"
  then show "((ident', s'), ident, s) \<in> measure (\<lambda>(ident, s). bytes_left s)"
    using bytes_left_advance_some [OF _ identContinues_width_pos, of s s "m_pos s" ident]
    by (metis case_prod_conv in_measure snd_conv)
qed simp

declare consumeIdentRest.simps [simp del]

definition lexIdentifier :: "Lexer \<Rightarrow> Token \<times> Lexer" where
  "lexIdentifier s =
     (let ident = [at (m_source s) (m_pos s - 1)];
          (ident, s) = consumeIdentRest ident s;
          (ident, s) = (if \<not> atEnd s \<and> peek s = CHR ''?''
                        then let (c, s) = advance s in (ident @ [c], s)
                        else (ident, s))
      in if ident = ''_'' then (makeToken s T_Underscore ident, s)
         else case map_of keywordTable ident of
                Some type \<Rightarrow> (makeToken s type ident, s)
              | None \<Rightarrow> (makeToken s T_LowerIdent ident, s))"

definition lexUpper :: "char \<Rightarrow> Lexer \<Rightarrow> Token \<times> Lexer" where
  \<comment> \<open>the \<open>isUpperAlpha\<close> branch of \<open>scanToken\<close>\<close>
  "lexUpper c s =
     (let (ident, s) = consumeIdentRest [c] s
      in if ident = ''None'' then (makeToken s T_None ident, s)
         else (makeToken s T_UpperIdent ident, s))"

definition lexNonAscii :: "char \<Rightarrow> Lexer \<Rightarrow> (Token \<times> Lexer) option" where
  \<comment> \<open>the branch of \<open>scanToken\<close> for a first byte above \<open>0x7F\<close>; \<open>None\<close> where it falls through\<close>
  "lexNonAscii c s =
     (let (codepoint, width) = identCodepointAt s (m_pos s - 1)
      in if inRanges letterRanges codepoint then
           let (ident, s) = advance_times (width - 1) [c] s;
               (ident, s) = consumeIdentRest ident s;
               upper = inRanges upperRanges codepoint
           in Some (makeToken s (if upper then T_UpperIdent else T_LowerIdent) ident, s)
         else None)"

section \<open>Numbers\<close>

definition isRadixMarker :: "char \<Rightarrow> bool" where
  "isRadixMarker c \<longleftrightarrow> c = CHR ''x'' \<or> c = CHR ''X'' \<or> c = CHR ''b'' \<or> c = CHR ''B'' \<or>
     c = CHR ''o'' \<or> c = CHR ''O''"

definition tolower :: "char \<Rightarrow> char" where
  \<comment> \<open>\<open>std::tolower\<close> in the C locale\<close>
  "tolower c = (if isUpperAlpha c then char_of (of_char c + 32 :: nat) else c)"

definition lexRadix :: "(string \<Rightarrow> nat \<Rightarrow> string option) \<Rightarrow> Lexer \<Rightarrow> Token \<times> Lexer" where
  \<comment> \<open>the radix branch of \<open>lexNumber\<close>, at the marker after the leading zero\<close>
  "lexRadix gmp s =
     (let marker = tolower (peek s);
          base = (if marker = CHR ''x'' then 16 else if marker = CHR ''o'' then 8 else 2);
          what = (if marker = CHR ''x'' then ''hexadecimal''
                  else if marker = CHR ''o'' then ''octal'' else ''binary'');
          s = snd (advance s);
          (digits, s) = consume_digits isHexDigit [] s
      in if digits = [] then
           (errorToken s (''Expected '' @ what @ '' digits after '' @ [CHR 0x27, CHR ''0''] @
              [marker] @ [CHR 0x27]), s)
         else case gmp digits base of
                Some v \<Rightarrow> (makeToken s T_Integer v, s)
              | None \<Rightarrow> (errorToken s ([CHR 0x27] @ digits @ [CHR 0x27] @ '' is not a valid '' @
                           what @ '' literal''), s))"

definition hasExponent :: "Lexer \<Rightarrow> bool" where
  "hasExponent s \<longleftrightarrow> (peek s = CHR ''e'' \<or> peek s = CHR ''E'') \<and>
     (isDigit (peekNext s) \<or>
      ((peekNext s = CHR ''+'' \<or> peekNext s = CHR ''-'') \<and> isDigit (peekAt s 2)))"

definition lexFraction :: "string \<Rightarrow> Lexer \<Rightarrow> bool \<times> string \<times> Lexer" where
  "lexFraction num s =
     (if \<not> atEnd s \<and> peek s = CHR ''.'' \<and> isDigit (peekNext s) then
        let (c, s) = advance s;
            (num, s) = consume_digits isDigit (num @ [c]) s
        in (True, num, s)
      else (False, num, s))"

definition lexExponent :: "bool \<Rightarrow> string \<Rightarrow> Lexer \<Rightarrow> bool \<times> string \<times> Lexer" where
  "lexExponent isFloat num s =
     (if hasExponent s then
        let num = (if CHR ''.'' \<notin> set num then num @ ''.0'' else num);
            num = num @ ''e'';
            s = snd (advance s);
            (num, s) = (if peek s = CHR ''+'' \<or> peek s = CHR ''-''
                        then let (c, s) = advance s in (num @ [c], s)
                        else (num, s));
            (num, s) = consume_digits isDigit num s
        in (True, num, s)
      else (isFloat, num, s))"

definition lexNumber :: "(string \<Rightarrow> nat \<Rightarrow> string option) \<Rightarrow> Lexer \<Rightarrow> Token \<times> Lexer" where
  "lexNumber gmp s =
     (let first = at (m_source s) (m_pos s - 1)
      in if first = CHR ''0'' \<and> isRadixMarker (peek s) then lexRadix gmp s
         else
           let (num, s) = consume_digits isDigit [first] s;
               (isFloat, num, s) = lexFraction num s;
               (isFloat, num, s) = lexExponent isFloat num s
           in (makeToken s (if isFloat then T_Float else T_Integer) num, s))"

section \<open>Escapes\<close>

definition hexDigitValue :: "char \<Rightarrow> nat" where
  "hexDigitValue c =
     (if isDigit c then of_char c - of_char (CHR ''0'')
      else if c \<ge> CHR ''a'' then of_char c - of_char (CHR ''a'') + 10
      else of_char c - of_char (CHR ''A'') + 10)"

definition hexValue :: "string \<Rightarrow> nat" where
  \<comment> \<open>\<open>std::stoi\<close> and \<open>std::stoul\<close> in base 16 on a nonempty string of hex digits in range\<close>
  "hexValue digits = foldl (\<lambda>n c. 16 * n + hexDigitValue c) 0 digits"

function consume_hex_upto :: "nat \<Rightarrow> string \<Rightarrow> Lexer \<Rightarrow> string \<times> Lexer" where
  "consume_hex_upto limit digits s =
     (if length digits < limit \<and> \<not> atEnd s \<and> isHexDigit (peek s)
      then let (c, s) = advance s in consume_hex_upto limit (digits @ [c]) s
      else (digits, s))"
  by pat_completeness auto
termination
  by (relation "measure (\<lambda>(limit, digits, s). bytes_left s)") (auto dest: bytes_left_advance_eq [OF sym])

declare consume_hex_upto.simps [simp del]

definition lexHexEscape :: "string \<Rightarrow> Lexer \<Rightarrow> string option \<times> string \<times> Lexer" where
  \<comment> \<open>the case \<open>'x'\<close> of \<open>lexEscape\<close>\<close>
  "lexHexEscape out s =
     (let (digits, s) = consume_hex_upto 2 [] s
      in if length digits \<noteq> 2 then
           (Some (''Expected two hex digits after '' @ [CHR 0x27, CHR 0x5C, CHR ''x'', CHR 0x27]), out, s)
         else
           let v = hexValue digits
           in if v > 0x7F then
                (Some ([CHR 0x27, CHR 0x5C, CHR ''x''] @ digits @ [CHR 0x27] @
                   '' is not ASCII; write the character as '' @
                   [CHR 0x27, CHR 0x5C] @ ''u{'' @ digits @ ''}'' @ [CHR 0x27]), out, s)
              else (None, out @ [mk_char (word_of_nat v)], s))"

definition lexUnicodeEscape :: "string \<Rightarrow> Lexer \<Rightarrow> string option \<times> string \<times> Lexer" where
  \<comment> \<open>the case \<open>'u'\<close> of \<open>lexEscape\<close>\<close>
  "lexUnicodeEscape out s =
     (if atEnd s \<or> peek s \<noteq> CHR ''{'' then
        (Some (''Expected '' @ [CHR 0x27] @ ''{'' @ [CHR 0x27] @ '' after '' @
           [CHR 0x27, CHR 0x5C, CHR ''u'', CHR 0x27]), out, s)
      else
        let s = snd (advance s);
            (digits, s) = consume_while isHexDigit [] s
        in if atEnd s \<or> peek s \<noteq> CHR ''}'' then
             (Some (''Expected '' @ [CHR 0x27] @ ''}'' @ [CHR 0x27] @ '' to close '' @
                [CHR 0x27, CHR 0x5C] @ ''u{'' @ [CHR 0x27]), out, s)
           else
             let s = snd (advance s)
             in if digits = [] \<or> length digits > 6 then
                  (Some (''Expected 1 to 6 hex digits in '' @ [CHR 0x27, CHR 0x5C] @ ''u{...}'' @
                     [CHR 0x27]), out, s)
                else
                  let cp = word_of_nat (hexValue digits) :: char32
                  in if cp > 0x10FFFF \<or> (cp \<ge> 0xD800 \<and> cp \<le> 0xDFFF) then
                       (Some ([CHR 0x27, CHR 0x5C] @ ''u{'' @ digits @ ''}'' @ [CHR 0x27] @
                          '' is not a Unicode scalar value''), out, s)
                     else (None, out @ encode cp, s))"

definition lexEscape :: "string \<Rightarrow> Lexer \<Rightarrow> string option \<times> string \<times> Lexer" where
  \<comment> \<open>the error to report or nothing, and \<open>out\<close> after it\<close>
  "lexEscape out s =
     (if atEnd s then (Some ''Unterminated escape'', out, s)
      else
        let (escaped, s) = advance s
        in if escaped = CHR ''n'' then (None, out @ [LF], s)
           else if escaped = CHR ''r'' then (None, out @ [CR], s)
           else if escaped = CHR ''t'' then (None, out @ [TAB], s)
           else if escaped = CHR ''e'' then (None, out @ [CHR 0x1B], s)
           else if escaped = CHR ''0'' then (None, out @ [NUL], s)
           else if escaped = CHR 0x5C \<or> escaped = CHR 0x22 \<or> escaped = CHR 0x27 \<or>
                   escaped = CHR ''$'' \<or> escaped = CHR 0x60 then (None, out @ [escaped], s)
           else if escaped = CHR ''x'' then lexHexEscape out s
           else if escaped = CHR ''u'' then lexUnicodeEscape out s
           else (Some (''Unknown escape '' @ [CHR 0x27, CHR 0x5C, escaped] @ [CHR 0x27] @ ''; write '' @
                   [CHR 0x27, CHR 0x5C, CHR 0x5C, CHR 0x27] @ '' for a backslash''), out, s))"

section \<open>How far an operation moves\<close>

text \<open>
  \<open>moves s s'\<close>: the scanner went from \<open>s\<close> to \<open>s'\<close> by advancing, zero or more bytes, inside the
  same source and the same token; only the depth of parentheses may have changed besides.
  \<open>positioned\<close> is the invariant of the line and column counters.  Every operation of the
  scanner moves, so termination of the remaining loops and the theorems about offsets need
  one lemma per operation.
\<close>

definition line_at :: "string \<Rightarrow> nat \<Rightarrow> int" where
  "line_at src i = int (length (filter (\<lambda>c. c = LF) (take i src))) + 1"

definition column_at :: "string \<Rightarrow> nat \<Rightarrow> int" where
  "column_at src i = int (length (takeWhile (\<lambda>c. c \<noteq> LF) (rev (take i src)))) + 1"

definition positioned :: "Lexer \<Rightarrow> bool" where
  "positioned s \<longleftrightarrow> m_line s = line_at (m_source s) (m_pos s) \<and>
     m_column s = column_at (m_source s) (m_pos s)"

definition moves :: "Lexer \<Rightarrow> Lexer \<Rightarrow> bool" where
  "moves s s' \<longleftrightarrow>
     m_source s' = m_source s \<and> m_filename s' = m_filename s \<and>
     m_tokenStartLine s' = m_tokenStartLine s \<and> m_tokenStartColumn s' = m_tokenStartColumn s \<and>
     m_tokenStartOffset s' = m_tokenStartOffset s \<and> m_prevType s' = m_prevType s \<and>
     m_pos s \<le> m_pos s' \<and> (m_pos s \<le> length (m_source s) \<longrightarrow> m_pos s' \<le> length (m_source s)) \<and>
     (positioned s \<longrightarrow> positioned s')"

lemma moves_refl [simp]: "moves s s"
  by (simp add: moves_def)

lemma moves_trans: "moves s t \<Longrightarrow> moves t u \<Longrightarrow> moves s u"
  by (auto simp: moves_def)

lemma moves_bytes_left: "moves s s' \<Longrightarrow> bytes_left s' \<le> bytes_left s"
  by (auto simp: moves_def bytes_left_def)

lemma take_Suc_at: "i < length s \<Longrightarrow> take (Suc i) s = take i s @ [at s i]"
  by (simp add: at_def take_Suc_conv_app_nth)

lemma moves_advance: "\<not> atEnd s \<Longrightarrow> moves s (snd (advance s))"
  by (auto simp: moves_def advance_def atEnd_def Let_def positioned_def line_at_def column_at_def
      take_Suc_at)

lemma moves_advance_eq: "advance s = (c, s') \<Longrightarrow> \<not> atEnd s \<Longrightarrow> moves s s'"
  using moves_advance [of s] by simp

lemma moves_match_char: "moves s (snd (match_char s c))"
  by (simp add: match_char_def moves_advance)

lemma peek_at_end: "peek s \<noteq> NUL \<Longrightarrow> \<not> atEnd s"
  by (auto simp: peek_def)

lemma moves_skipWhitespace: "moves s (skipWhitespace s)"
proof (induction s rule: skipWhitespace.induct)
  case (1 s)
  then show ?case
    by (subst skipWhitespace.simps) (auto intro: moves_trans moves_advance)
qed

lemma moves_skipComment: "moves s (skipComment s)"
proof (induction s rule: skipComment.induct)
  case (1 s)
  then show ?case
    by (subst skipComment.simps) (auto intro: moves_trans moves_advance)
qed

lemma moves_consume_while: "moves s (snd (consume_while p out s))"
proof (induction p out s rule: consume_while.induct)
  case (1 p out s)
  then show ?case
    by (subst consume_while.simps)
      (auto split: prod.split intro: moves_trans moves_advance_eq)
qed

lemma moves_consume_digits: "moves s (snd (consume_digits p out s))"
proof (induction p out s rule: consume_digits.induct)
  case (1 p out s)
  then show ?case
    by (subst consume_digits.simps)
      (auto split: prod.split intro: moves_trans moves_advance moves_advance_eq)
qed

lemma moves_consume_hex_upto: "moves s (snd (consume_hex_upto limit digits s))"
proof (induction limit digits s rule: consume_hex_upto.induct)
  case (1 limit digits s)
  then show ?case
    by (subst consume_hex_upto.simps)
      (auto split: prod.split intro: moves_trans moves_advance_eq)
qed

lemma moves_advance_times: "moves s (snd (advance_times n ident s))"
proof (induction n arbitrary: ident s)
  case (Suc n)
  obtain c s' where a: "advance s = (c, s')" by (cases "advance s")
  then show ?case
    using Suc [of s' "ident @ [c]"] by (auto intro: moves_trans moves_advance_eq)
qed simp

lemma moves_consumeIdentRest: "moves s (snd (consumeIdentRest ident s))"
proof (induction ident s rule: consumeIdentRest.induct)
  case (1 ident s)
  show ?case
  proof (cases "\<not> atEnd s \<and> fst (identContinues s (m_pos s))")
    case True
    obtain ident' s' where a: "advance_times (snd (identContinues s (m_pos s))) ident s = (ident', s')"
      by fastforce
    then show ?thesis
      using "1" [OF True a [symmetric] refl] True
        moves_advance_times [of s "snd (identContinues s (m_pos s))" ident]
      by (subst consumeIdentRest.simps) (auto intro: moves_trans)
  next
    case False
    then show ?thesis by (subst consumeIdentRest.simps) auto
  qed
qed

lemma moves_lexHexEscape: "moves s (snd (snd (lexHexEscape out s)))"
  using moves_consume_hex_upto [of s 2 "[]"] by (auto simp: lexHexEscape_def Let_def split: prod.split)

lemma moves_lexUnicodeEscape: "moves s (snd (snd (lexUnicodeEscape out s)))"
proof (cases "atEnd s \<or> peek s \<noteq> CHR ''{''")
  case False
  obtain digits t where c: "consume_while isHexDigit [] (snd (advance s)) = (digits, t)"
    by fastforce
  have t: "moves s t"
    using False moves_consume_while [of "snd (advance s)" isHexDigit "[]"]
    by (auto simp: c intro: moves_trans moves_advance)
  then show ?thesis
    using False by (auto simp: lexUnicodeEscape_def Let_def c intro: moves_trans moves_advance)
qed (auto simp: lexUnicodeEscape_def)

lemma moves_lexEscape: "moves s (snd (snd (lexEscape out s)))"
proof (cases "atEnd s")
  case False
  obtain c t where a: "advance s = (c, t)" by fastforce
  have t: "moves s t" using a False by (rule moves_advance_eq)
  have "moves s (snd (snd (lexHexEscape out t)))" "moves s (snd (snd (lexUnicodeEscape out t)))"
    using t moves_lexHexEscape moves_lexUnicodeEscape moves_trans by blast+
  then show ?thesis
    using False t by (simp add: lexEscape_def a)
qed (simp add: lexEscape_def)

section \<open>Strings\<close>

function hole_loop :: "int \<Rightarrow> string \<Rightarrow> Lexer \<Rightarrow> string \<times> Lexer" where
  \<comment> \<open>the inner loop of \<open>lexString\<close> over an interpolation hole\<close>
  "hole_loop depth str s =
     (if \<not> atEnd s \<and> depth > 0 then
        let depth = (if peek s = CHR ''{'' then depth + 1
                     else if peek s = CHR ''}'' then depth - 1 else depth);
            (c, s) = advance s
        in hole_loop depth (str @ [c]) s
      else (str, s))"
  by pat_completeness auto
termination
  by (relation "measure (\<lambda>(depth, str, s). bytes_left s)") (auto dest: bytes_left_advance_eq [OF sym])

declare hole_loop.simps [simp del]

lemma moves_hole_loop: "moves s (snd (hole_loop depth str s))"
proof (induction depth str s rule: hole_loop.induct)
  case (1 depth str s)
  then show ?case
    by (subst hole_loop.simps) (auto simp: Let_def split: prod.split intro: moves_trans moves_advance_eq)
qed

definition lexHole :: "string \<Rightarrow> Lexer \<Rightarrow> string \<times> Lexer" where
  \<comment> \<open>the branch of \<open>lexString\<close> at \<open>${\<close>\<close>
  "lexHole str s =
     (let (c, s) = advance s; str = str @ [c];
          (c, s) = advance s; str = str @ [c]
      in hole_loop 1 str s)"

lemma peekNext_atEnd: "peekNext s \<noteq> NUL \<Longrightarrow> \<not> atEnd (snd (advance s))"
  by (auto simp: peekNext_def atEnd_def advance_def Let_def split: if_splits)

lemma moves_lexHole:
  assumes "\<not> atEnd s" "peekNext s \<noteq> NUL"
  shows "moves s (snd (lexHole str s))" "bytes_left (snd (lexHole str s)) < bytes_left s"
proof -
  obtain c t where a: "advance s = (c, t)" by fastforce
  obtain d u where b: "advance t = (d, u)" by fastforce
  have t: "\<not> atEnd t" using peekNext_atEnd [OF assms(2)] a by simp
  have m: "moves s u" "moves t u"
    using moves_advance_eq [OF a assms(1)] moves_advance_eq [OF b t] by (blast intro: moves_trans)+
  show "moves s (snd (lexHole str s))"
    using m moves_hole_loop [of u 1 "(str @ [c]) @ [d]"] by (auto simp: lexHole_def a b intro: moves_trans)
  show "bytes_left (snd (lexHole str s)) < bytes_left s"
    using moves_bytes_left [OF moves_hole_loop [of u 1 "(str @ [c]) @ [d]"]]
      bytes_left_advance_eq [OF a assms(1)] bytes_left_advance_eq [OF b t]
    by (simp add: lexHole_def a b)
qed

function string_loop :: "string \<Rightarrow> nat list \<Rightarrow> Lexer \<Rightarrow> (string + string \<times> nat list) \<times> Lexer" where
  \<comment> \<open>the loop of \<open>lexString\<close>: \<open>Inl\<close> where an escape is in error, otherwise the text and the
      escaped dollars before the closing quote or the end of the source\<close>
  "string_loop str dollars s =
     (if \<not> atEnd s \<and> peek s \<noteq> CHR 0x22 then
        if peek s = CHR 0x5C then
          let s1 = snd (advance s);
              dollars = (if \<not> atEnd s1 \<and> peek s1 = CHR ''$'' then dollars @ [length str] else dollars)
          in case lexEscape str s1 of
               (Some error, str, s2) \<Rightarrow> (Inl error, s2)
             | (None, str, s2) \<Rightarrow> string_loop str dollars s2
        else if peek s = CHR ''$'' \<and> peekNext s = CHR ''{'' then
          let (str, s) = lexHole str s in string_loop str dollars s
        else let (c, s) = advance s in string_loop (str @ [c]) dollars s
      else (Inr (str, dollars), s))"
  by pat_completeness auto
termination
proof (relation "measure (\<lambda>(str, dollars, s). bytes_left s)", goal_cases)
  case (2 str dollars s s1 dollars1 err rest str2 s2)
  then have "snd (snd (lexEscape str s1)) = s2"
    by (metis snd_conv)
  then have "bytes_left s2 \<le> bytes_left s1"
    using moves_bytes_left [OF moves_lexEscape [of s1 str]] by simp
  also have "\<dots> < bytes_left s" using 2 by auto
  finally show ?case by simp
next
  case (3 str dollars s x str2 s2)
  then have "snd (lexHole str s) = s2"
    by (metis snd_conv)
  with 3 show ?case
    using moves_lexHole(2) [of s str] by auto
qed (auto dest: bytes_left_advance_eq [OF sym])

declare string_loop.simps [simp del]

definition lexString :: "Lexer \<Rightarrow> Token \<times> Lexer" where
  "lexString s =
     (case string_loop [] [] s of
        (Inl error, s) \<Rightarrow> (errorToken s error, s)
      | (Inr (str, dollars), s) \<Rightarrow>
          if atEnd s then (errorToken s ''Unterminated string'', s)
          else let s = snd (advance s)
               in ((makeToken s T_String str)\<lparr>tok_escapedDollars := dollars\<rparr>, s))"

section \<open>Raw strings\<close>

datatype HoleMode = HM_Normal | HM_DoubleString | HM_Char | HM_RawString | HM_Comment

definition take_byte :: "string \<Rightarrow> Lexer \<Rightarrow> string \<times> Lexer" where
  \<comment> \<open>\<open>raw += advance();\<close>\<close>
  "take_byte raw s = (let (c, s) = advance s in (raw @ [c], s))"

definition raw_hole_step :: "HoleMode \<Rightarrow> int \<Rightarrow> string \<Rightarrow> Lexer \<Rightarrow> HoleMode \<times> int \<times> string \<times> Lexer" where
  \<comment> \<open>one iteration of \<open>lexRawString\<close> inside an interpolation hole\<close>
  "raw_hole_step mode depth raw s =
     (let c = peek s;
          (raw, s) = take_byte raw s
      in case mode of
           HM_DoubleString \<Rightarrow>
             if c = CHR 0x5C \<and> \<not> atEnd s then
               let (raw, s) = take_byte raw s in (HM_DoubleString, depth, raw, s)
             else if c = CHR 0x22 then (HM_Normal, depth, raw, s)
             else (HM_DoubleString, depth, raw, s)
         | HM_Char \<Rightarrow>
             if c = CHR 0x5C \<and> \<not> atEnd s then
               let (raw, s) = take_byte raw s in (HM_Char, depth, raw, s)
             else if c = CHR 0x27 then (HM_Normal, depth, raw, s)
             else (HM_Char, depth, raw, s)
         | HM_RawString \<Rightarrow>
             if c = CHR 0x60 then
               if \<not> atEnd s \<and> peek s = CHR 0x60 then
                 let (raw, s) = take_byte raw s in (HM_RawString, depth, raw, s)
               else (HM_Normal, depth, raw, s)
             else (HM_RawString, depth, raw, s)
         | HM_Comment \<Rightarrow>
             if c = LF then (HM_Normal, depth, raw, s) else (HM_Comment, depth, raw, s)
         | HM_Normal \<Rightarrow>
             if c = CHR 0x22 then (HM_DoubleString, depth, raw, s)
             else if c = CHR 0x27 then (HM_Char, depth, raw, s)
             else if c = CHR 0x60 then (HM_RawString, depth, raw, s)
             else if c = CHR ''#'' then (HM_Comment, depth, raw, s)
             else if c = CHR ''{'' then (HM_Normal, depth + 1, raw, s)
             else if c = CHR ''}'' then (HM_Normal, depth - 1, raw, s)
             else (HM_Normal, depth, raw, s))"

lemma take_byte_eq: "take_byte raw s = (raw @ [fst (advance s)], snd (advance s))"
  by (simp add: take_byte_def split: prod.split)

lemma moves_take_byte:
  "\<not> atEnd s \<Longrightarrow> moves s (snd (take_byte raw s))"
  "\<not> atEnd s \<Longrightarrow> bytes_left (snd (take_byte raw s)) < bytes_left s"
  by (simp_all add: take_byte_eq moves_advance)

lemma moves_raw_hole_step:
  assumes "\<not> atEnd s"
  shows "moves s (snd (snd (snd (raw_hole_step mode depth raw s))))"
    "bytes_left (snd (snd (snd (raw_hole_step mode depth raw s)))) < bytes_left s"
proof -
  obtain c t where a: "advance s = (c, t)" by fastforce
  have t: "moves s t" "bytes_left t < bytes_left s"
    using moves_advance_eq [OF a assms] bytes_left_advance_eq [OF a assms] by simp_all
  obtain d u where b: "advance t = (d, u)" by fastforce
  have u: "moves s u" "bytes_left u < bytes_left s" if "\<not> atEnd t"
    using t moves_advance_eq [OF b that] bytes_left_advance_eq [OF b that]
    by (auto intro: moves_trans)
  have r: "snd (snd (snd (raw_hole_step mode depth raw s))) = t \<or>
      \<not> atEnd t \<and> snd (snd (snd (raw_hole_step mode depth raw s))) = u"
    by (cases mode) (simp_all add: raw_hole_step_def take_byte_eq a b Let_def)
  then show "moves s (snd (snd (snd (raw_hole_step mode depth raw s))))"
    "bytes_left (snd (snd (snd (raw_hole_step mode depth raw s)))) < bytes_left s"
    using t u by auto
qed

definition escaped_hole :: "Lexer \<Rightarrow> bool" where
  \<comment> \<open>\<open>$${\<close> stands ahead\<close>
  "escaped_hole s \<longleftrightarrow> peek s = CHR ''$'' \<and> m_pos s + 2 < length (m_source s) \<and>
     at (m_source s) (m_pos s + 1) = CHR ''$'' \<and> at (m_source s) (m_pos s + 2) = CHR ''{''"

definition advance2 :: "Lexer \<Rightarrow> Lexer" where
  "advance2 s = snd (advance (snd (advance s)))"

lemma atEnd_advance:
  "atEnd (snd (advance s)) \<longleftrightarrow> m_pos s + 1 \<ge> length (m_source s)"
  by (simp add: atEnd_def advance_def Let_def)

lemma source_advance [simp]:
  "m_source (snd (advance s)) = m_source s" "m_pos (snd (advance s)) = m_pos s + 1"
  by (simp_all add: advance_def Let_def)

lemma moves_advance2:
  assumes "peekNext s \<noteq> NUL"
  shows "moves s (advance2 s)" "bytes_left (advance2 s) < bytes_left s"
proof -
  have e: "\<not> atEnd (snd (advance s))" using peekNext_atEnd [OF assms] .
  then have "\<not> atEnd s" by (simp add: atEnd_advance atEnd_def)
  from moves_advance [OF this] moves_advance [OF e] show "moves s (advance2 s)"
    unfolding advance2_def by (rule moves_trans)
  from bytes_left_advance [OF e] bytes_left_advance [OF \<open>\<not> atEnd s\<close>]
  show "bytes_left (advance2 s) < bytes_left s"
    unfolding advance2_def by (rule less_trans)
qed

lemma moves_escaped_hole:
  assumes "escaped_hole s"
  shows "moves s (snd (advance (advance2 s)))" "bytes_left (snd (advance (advance2 s))) < bytes_left s"
proof -
  have n: "peekNext s \<noteq> NUL"
    using assms by (simp add: escaped_hole_def peekNext_def)
  have e: "\<not> atEnd (advance2 s)"
    using assms by (simp add: advance2_def atEnd_advance escaped_hole_def)
  from moves_advance2(1) [OF n] moves_advance [OF e] show "moves s (snd (advance (advance2 s)))"
    by (rule moves_trans)
  from bytes_left_advance [OF e] moves_advance2(2) [OF n]
  show "bytes_left (snd (advance (advance2 s))) < bytes_left s"
    by (rule less_trans)
qed

function raw_loop :: "bool \<Rightarrow> HoleMode \<Rightarrow> int \<Rightarrow> string \<Rightarrow> Lexer \<Rightarrow> string option \<times> Lexer" where
  \<comment> \<open>the loop of \<open>lexRawString\<close>: the text at the closing backtick, or nothing at the end\<close>
  "raw_loop interpolating mode depth raw s =
     (if \<not> atEnd s then
        if interpolating \<and> depth > 0 then
          let (mode, depth, raw, s) = raw_hole_step mode depth raw s
          in raw_loop interpolating mode depth raw s
        else if interpolating \<and> escaped_hole s then
          raw_loop interpolating mode depth (raw @ ''$${'') (snd (advance (advance2 s)))
        else if interpolating \<and> peek s = CHR ''$'' \<and> peekNext s = CHR ''{'' then
          raw_loop interpolating HM_Normal 1 (raw @ ''${'') (advance2 s)
        else if peek s = CHR 0x60 then
          if peekNext s = CHR 0x60
          then raw_loop interpolating mode depth (raw @ [CHR 0x60]) (advance2 s)
          else (Some raw, snd (advance s))
        else raw_loop interpolating mode depth (raw @ [fst (advance s)]) (snd (advance s))
      else (None, s))"
  by pat_completeness auto
termination
proof (relation "measure (\<lambda>(interpolating, mode, depth, raw, s). bytes_left s)", goal_cases)
  case (2 interpolating mode depth raw s x mode' y depth' z raw' s')
  then have "raw_hole_step mode depth raw s = (mode', depth', raw', s')"
    by simp
  then have "bytes_left s' < bytes_left s"
    using moves_raw_hole_step(2) [OF 2(1), of mode depth raw] by simp
  then show ?case by simp
qed (auto simp: moves_escaped_hole moves_advance2)

declare raw_loop.simps [simp del]

lemma moves_raw_loop: "moves s (snd (raw_loop interpolating mode depth raw s))"
proof (induction interpolating mode depth raw s rule: raw_loop.induct)
  case (1 interpolating mode depth raw s)
  show ?case
  proof (cases "\<not> atEnd s \<and> interpolating \<and> depth > 0")
    case True
    obtain mode' depth' raw' s' where h: "raw_hole_step mode depth raw s = (mode', depth', raw', s')"
      by (metis prod_cases4)
    have "moves s' (snd (raw_loop interpolating mode' depth' raw' s'))"
      using "1"(1) [OF _ _ h [symmetric]] True by simp
    moreover have "moves s s'"
      using moves_raw_hole_step(1) [of s mode depth raw] True h by simp
    ultimately show ?thesis
      using True by (subst raw_loop.simps) (auto simp: h intro: moves_trans)
  next
    case False
    have m2: "peekNext s = CHR 0x60 \<or> peekNext s = CHR ''{'' \<Longrightarrow> moves s (advance2 s)"
      by (rule moves_advance2(1)) auto
    show ?thesis
      using False "1"(2-) by (subst raw_loop.simps)
        (auto intro: moves_trans [OF moves_advance] moves_trans [OF moves_escaped_hole(1)]
           moves_trans [OF m2] simp: moves_advance)
  qed
qed

definition lexRawString :: "bool \<Rightarrow> Lexer \<Rightarrow> Token \<times> Lexer" where
  "lexRawString interpolating s =
     (case raw_loop interpolating HM_Normal 0 [] s of
        (Some raw, s) \<Rightarrow>
          (makeToken s (if interpolating then T_InterpolatedRawString else T_RawString)
             (dedentBlock raw), s)
      | (None, s) \<Rightarrow> (errorToken s ''Unterminated backtick literal'', s))"

section \<open>Characters, atoms and splices\<close>

definition isContinuation :: "char \<Rightarrow> bool" where
  "isContinuation c \<longleftrightarrow> uchar c AND 0xC0 = 0x80"

definition lexChar :: "Lexer \<Rightarrow> Token \<times> Lexer" where
  "lexChar s =
     (if atEnd s then (errorToken s ''Unterminated char literal'', s)
      else
        let (error, c, s) =
          (if peek s = CHR 0x5C then lexEscape [] (snd (advance s))
           else if peek s = CHR 0x27 then (Some ''Empty char literal'', [], s)
           else let (c, s) = advance s;
                    (c, s) = consume_while isContinuation [c] s
                in (None, c, s))
        in case error of
             Some message \<Rightarrow> (errorToken s message, s)
           | None \<Rightarrow>
               if atEnd s \<or> peek s \<noteq> CHR 0x27 then (errorToken s ''Unterminated char literal'', s)
               else let s = snd (advance s) in (makeToken s T_Char c, s))"

function lexAtom_loop :: "string \<Rightarrow> Lexer \<Rightarrow> string \<times> Lexer" where
  "lexAtom_loop atom s =
     (if \<not> atEnd s \<and> (isIdentChar (peek s) \<or> (peek s = CHR ''@'' \<and> isIdentChar (peekNext s)))
      then let (c, s) = advance s in lexAtom_loop (atom @ [c]) s
      else (atom, s))"
  by pat_completeness auto
termination
  by (relation "measure (\<lambda>(atom, s). bytes_left s)") (auto dest: bytes_left_advance_eq [OF sym])

declare lexAtom_loop.simps [simp del]

definition lexAtom :: "Lexer \<Rightarrow> Token \<times> Lexer" where
  "lexAtom s = (let (atom, s) = lexAtom_loop [] s in (makeToken s T_Atom atom, s))"

function quotedAtom_loop :: "char \<Rightarrow> string \<Rightarrow> Lexer \<Rightarrow> string \<times> Lexer" where
  "quotedAtom_loop quote atom s =
     (if \<not> atEnd s \<and> peek s \<noteq> quote \<and> peek s \<noteq> LF then
        let (c, s1) = advance s
        in if c = CHR 0x5C \<and> \<not> atEnd s1
           then quotedAtom_loop quote (atom @ [fst (advance s1)]) (snd (advance s1))
           else quotedAtom_loop quote (atom @ [c]) s1
      else (atom, s))"
  by pat_completeness auto
termination
proof (relation "measure (\<lambda>(quote, atom, s). bytes_left s)", goal_cases)
  case (2 quote atom s x c s1)
  then show ?case
    using bytes_left_advance_eq [of s c s1] less_trans [OF bytes_left_advance [of s1]] by simp
qed (auto dest: bytes_left_advance_eq [OF sym])

declare quotedAtom_loop.simps [simp del]

definition lexQuotedAtom :: "char \<Rightarrow> Lexer \<Rightarrow> Token \<times> Lexer" where
  "lexQuotedAtom quote s =
     (let (atom, s) = quotedAtom_loop quote [] s
      in if atEnd s \<or> peek s \<noteq> quote then (errorToken s ''Unterminated quoted atom'', s)
         else let s = snd (advance s)
              in if atom = [] then (errorToken s ''Empty quoted atom'', s)
                 else (makeToken s T_Atom atom, s))"

definition lexSpliceIdent :: "Lexer \<Rightarrow> Token \<times> Lexer" where
  "lexSpliceIdent s =
     (let (ident, s) = consume_while isIdentChar [] s in (makeToken s T_SpliceIdent ident, s))"

section \<open>The scanner\<close>

definition matchThen :: "Lexer \<Rightarrow> char \<Rightarrow> (Lexer \<Rightarrow> 'a) \<Rightarrow> (Lexer \<Rightarrow> 'a) \<Rightarrow> 'a" where
  \<comment> \<open>\<open>if (match(c)) return yes; no\<close>\<close>
  "matchThen s c yes no = (let (matched, s) = match_char s c in if matched then yes s else no s)"

definition emit :: "TokenType \<Rightarrow> Lexer \<Rightarrow> Token \<times> Lexer" where
  \<comment> \<open>\<open>return makeToken(type)\<close>\<close>
  "emit type s = (makeToken s type [], s)"

definition emitError :: "string \<Rightarrow> Lexer \<Rightarrow> Token \<times> Lexer" where
  "emitError message s = (errorToken s message, s)"

definition scanOperator :: "char \<Rightarrow> Lexer \<Rightarrow> (Token \<times> Lexer) option" where
  \<comment> \<open>the cases of the switch of \<open>scanToken\<close> that look at nothing but the next characters\<close>
  "scanOperator c s =
     (if c = CHR ''('' then Some (emit T_LParen (s\<lparr>m_parenDepth := m_parenDepth s + 1\<rparr>))
      else if c = CHR '')'' then
        Some (emit T_RParen (if m_parenDepth s > 0 then s\<lparr>m_parenDepth := m_parenDepth s - 1\<rparr> else s))
      else if c = CHR ''{'' then Some (emit T_LBrace s)
      else if c = CHR ''}'' then Some (emit T_RBrace s)
      else if c = CHR ''['' then Some (emit T_LBracket s)
      else if c = CHR '']'' then Some (emit T_RBracket s)
      else if c = CHR '','' then Some (emit T_Comma s)
      else if c = CHR ''@'' then Some (emit T_At s)
      else if c = CHR ''?'' then Some (emit T_Question s)
      else if c = CHR ''/'' then Some (matchThen s (CHR ''='') (emit T_SlashEq) (emit T_Slash))
      else if c = CHR ''*'' then Some (matchThen s (CHR ''='') (emit T_StarEq) (emit T_Star))
      else if c = CHR ''+'' then Some (matchThen s (CHR ''='') (emit T_PlusEq) (emit T_Plus))
      else if c = CHR ''-'' then
        Some (matchThen s (CHR ''>'') (emit T_Arrow)
          (\<lambda>s. matchThen s (CHR ''='') (emit T_MinusEq) (emit T_Minus)))
      else if c = CHR ''.'' then
        Some (matchThen s (CHR ''.'')
          (\<lambda>s. matchThen s (CHR ''.'') (emit T_DotDotDot) (emit T_DotDot)) (emit T_Dot))
      else if c = CHR ''='' then
        Some (matchThen s (CHR ''='') (emit T_EqEq)
          (\<lambda>s. matchThen s (CHR ''>'') (emit T_FatArrow) (emit T_Equals)))
      else if c = CHR ''!'' then Some (matchThen s (CHR ''='') (emit T_NotEq) (emit T_Bang))
      else if c = CHR ''<'' then Some (matchThen s (CHR ''='') (emit T_LessEq) (emit T_LessThan))
      else if c = CHR ''>'' then Some (matchThen s (CHR ''='') (emit T_GreaterEq) (emit T_GreaterThan))
      else if c = CHR ''|'' then
        Some (matchThen s (CHR ''|'')
          (\<lambda>s. matchThen s (CHR ''='') (emit T_PipePipeEq) (emit T_PipePipe)) (emit T_Pipe))
      else if c = CHR ''&'' then
        Some (matchThen s (CHR ''&'')
          (\<lambda>s. matchThen s (CHR ''='') (emit T_AmpAmpEq) (emit T_AmpAmp)) (emit T_Amp))
      else if c = CHR ''^'' then Some (emit T_Caret s)
      else if c = CHR '';'' then Some (emit T_Newline s)
      else if c = CHR ''~'' then Some (emit T_Tilde s)
      else None)"

definition scanColon :: "Lexer \<Rightarrow> Token \<times> Lexer" where
  \<comment> \<open>the case \<open>':'\<close>\<close>
  "scanColon s =
     matchThen s (CHR '':'')
       (\<lambda>s. matchThen s (CHR ''>'') (emit T_SlotAnnotation)
         (emitError (''Expected '' @ [CHR 0x27] @ ''>'' @ [CHR 0x27] @ '' after '' @
            [CHR 0x27] @ ''::'' @ [CHR 0x27])))
       (\<lambda>s. matchThen s (CHR ''>'') (emit T_TypeAnnotation)
         (\<lambda>s. if isLowerAlpha (peek s) then lexAtom s
              else if peek s = CHR 0x22 \<and> \<not> canEndExpression (m_prevType s)
              then let (quote, s) = advance s in lexQuotedAtom quote s
              else emit T_Colon s))"

definition scanPercent :: "Lexer \<Rightarrow> Token \<times> Lexer" where
  \<comment> \<open>the case \<open>'%'\<close>\<close>
  "scanPercent s =
     (if isLowerAlpha (peek s) \<and> \<not> canEndExpression (m_prevType s) then lexSpliceIdent s
      else matchThen s (CHR ''='') (emit T_PercentEq) (emit T_Percent))"

definition scanDollar :: "Lexer \<Rightarrow> Token \<times> Lexer" where
  \<comment> \<open>the case \<open>'$'\<close>\<close>
  "scanDollar s =
     (if peek s = CHR 0x60 then lexRawString True (snd (advance s))
      else emitError ''Unexpected character: $'' s)"

definition scanSymbol :: "char \<Rightarrow> Lexer \<Rightarrow> Token \<times> Lexer + Lexer" where
  \<comment> \<open>the switch of \<open>scanToken\<close>; \<open>Inr s\<close> is \<open>return nextToken()\<close> from \<open>s\<close>\<close>
  "scanSymbol c s =
     (case scanOperator c s of
        Some r \<Rightarrow> Inl r
      | None \<Rightarrow>
          if c = LF then (if m_parenDepth s > 0 then Inr s else Inl (emit T_Newline s))
          else if c = CHR 0x60 then Inl (lexRawString False s)
          else if c = CHR '':'' then Inl (scanColon s)
          else if c = CHR ''#'' then
            matchThen s (CHR ''['') (\<lambda>s. Inl (emit T_HashLBracket s)) (\<lambda>s. Inr (skipComment s))
          else if c = CHR ''%'' then Inl (scanPercent s)
          else if c = CHR 0x22 then Inl (lexString s)
          else if c = CHR 0x27 then Inl (lexChar s)
          else if c = CHR ''$'' then Inl (scanDollar s)
          else Inl (emitError (''Unexpected character: '' @ [c]) s))"

definition scanFrom :: "(string \<Rightarrow> nat \<Rightarrow> string option) \<Rightarrow> char \<Rightarrow> Lexer \<Rightarrow> Token \<times> Lexer + Lexer" where
  \<comment> \<open>\<open>scanToken\<close> after the first character of the token\<close>
  "scanFrom gmp c s =
     (if isLowerAlpha c \<or> c = CHR ''_'' then Inl (lexIdentifier s)
      else if isUpperAlpha c then Inl (lexUpper c s)
      else case (if uchar c \<ge> 0x80 then lexNonAscii c s else None) of
             Some r \<Rightarrow> Inl r
           | None \<Rightarrow> if isDigit c then Inl (lexNumber gmp s) else scanSymbol c s)"

definition mark_start :: "Lexer \<Rightarrow> Lexer" where
  "mark_start s =
     s\<lparr>m_tokenStartLine := m_line s, m_tokenStartColumn := m_column s, m_tokenStartOffset := m_pos s\<rparr>"

definition scanStep :: "(string \<Rightarrow> nat \<Rightarrow> string option) \<Rightarrow> Lexer \<Rightarrow> Token \<times> Lexer + Lexer" where
  "scanStep gmp s =
     (let s = skipWhitespace s
      in if atEnd s then Inl (emit T_Eof s)
         else let (c, s) = advance (mark_start s) in scanFrom gmp c s)"

definition recordPrev :: "Token \<times> Lexer \<Rightarrow> Token \<times> Lexer" where
  "recordPrev r = (let (token, s) = r in (token, s\<lparr>m_prevType := tok_type token\<rparr>))"

section \<open>Every scan step moves and spans what it returns\<close>

text \<open>
  \<open>spans s r\<close>: the scanner moved from \<open>s\<close> to the state of the result \<open>r\<close>, and the token it
  returns starts where \<open>s\<close> marked a token start, ends where the scanner is now and carries the
  location of the start.
\<close>

definition spans :: "Lexer \<Rightarrow> Token \<times> Lexer \<Rightarrow> bool" where
  "spans s r \<longleftrightarrow> moves s (snd r) \<and>
     tok_type (fst r) \<noteq> T_Eof \<and>
     tok_startOffset (fst r) = int (m_tokenStartOffset s) \<and>
     tok_endOffset (fst r) = int (m_pos (snd r)) \<and>
     tok_location (fst r) =
       \<lparr>loc_file = m_filename s, loc_line = m_tokenStartLine s, loc_column = m_tokenStartColumn s,
        loc_startOffset = int (m_tokenStartOffset s), loc_endOffset = int (m_pos (snd r))\<rparr>"

lemma spans_makeToken: "moves s t \<Longrightarrow> type \<noteq> T_Eof \<Longrightarrow> spans s (makeToken t type v, t)"
  by (simp add: spans_def makeToken_def currentLocation_def moves_def)

lemma spans_errorToken: "moves s t \<Longrightarrow> spans s (errorToken t message, t)"
  by (simp add: spans_def errorToken_def currentLocation_def moves_def)

lemma spans_dollars:
  "moves s t \<Longrightarrow> type \<noteq> T_Eof \<Longrightarrow> spans s ((makeToken t type v)\<lparr>tok_escapedDollars := d\<rparr>, t)"
  by (simp add: spans_def makeToken_def currentLocation_def moves_def)

lemma spans_emit: "moves s t \<Longrightarrow> type \<noteq> T_Eof \<Longrightarrow> spans s (emit type t)" "moves s t \<Longrightarrow> spans s (emitError m t)"
  by (simp_all add: emit_def emitError_def spans_makeToken spans_errorToken)

lemma spans_from: "moves s t \<Longrightarrow> spans t r \<Longrightarrow> spans s r"
  by (auto simp: spans_def intro: moves_trans) (auto simp: moves_def)

lemmas spanning = spans_makeToken spans_errorToken spans_dollars spans_emit

lemma moves_parenDepth [simp]: "moves s (s\<lparr>m_parenDepth := d\<rparr>)"
  by (simp add: moves_def positioned_def)

lemma matchThen_cases:
  "P (yes (snd (match_char s c))) \<Longrightarrow> P (no s) \<Longrightarrow> P (matchThen s c yes no)"
  by (auto simp: matchThen_def match_char_def)

lemma spans_matchThen:
  assumes "\<And>t. moves s t \<Longrightarrow> spans s (yes t)" "\<And>t. moves s t \<Longrightarrow> spans s (no t)" "moves s t"
  shows "spans s (matchThen t c yes no)"
  using assms moves_match_char [of t c]
  by (intro matchThen_cases [where P = "spans s"]) (auto intro: moves_trans)

lemma keyword_not_Eof: "list_all (\<lambda>(w, type). type \<noteq> T_Eof) keywordTable"
  by (simp add: keywordTable_def)

lemma spans_lexIdentifier: "spans s (lexIdentifier s)"
proof -
  obtain ident t where c: "consumeIdentRest [at (m_source s) (m_pos s - 1)] s = (ident, t)"
    by fastforce
  have t: "moves s t" using moves_consumeIdentRest [of s "[at (m_source s) (m_pos s - 1)]"] c by simp
  obtain d u where a: "advance t = (d, u)" by fastforce
  have u: "\<not> atEnd t \<Longrightarrow> moves s u" using t moves_advance_eq [OF a] by (blast intro: moves_trans)
  have k: "map_of keywordTable w = Some type \<Longrightarrow> type \<noteq> T_Eof" for w type
    using keyword_not_Eof map_of_SomeD [of keywordTable w type] by (auto simp: list_all_iff)
  show ?thesis
    using t u k by (auto simp: lexIdentifier_def c a spanning simp del: One_nat_def split: option.split)
qed

lemma spans_lexUpper: "spans s (lexUpper c s)"
  using moves_consumeIdentRest [of s "[c]"]
  by (auto simp: lexUpper_def spanning split: prod.split)

lemma spans_lexNonAscii: "lexNonAscii c s = Some r \<Longrightarrow> spans s r"
proof -
  assume r: "lexNonAscii c s = Some r"
  obtain cp width where i: "identCodepointAt s (m_pos s - 1) = (cp, width)" by fastforce
  obtain ident t where a: "advance_times (width - 1) [c] s = (ident, t)" by fastforce
  obtain ident' u where b: "consumeIdentRest ident t = (ident', u)" by fastforce
  have "moves s t" "moves t u"
    using moves_advance_times [of s "width - 1" "[c]"] moves_consumeIdentRest [of t ident] a b by simp_all
  then have "moves s u" by (rule moves_trans)
  then show ?thesis
    using r by (auto simp: lexNonAscii_def i a b spanning simp del: One_nat_def split: if_splits)
qed

lemma moves_lexFraction: "moves s (snd (snd (lexFraction num s)))"
proof (cases "\<not> atEnd s \<and> peek s = CHR ''.'' \<and> isDigit (peekNext s)")
  case True
  obtain c t where a: "advance s = (c, t)" by fastforce
  then show ?thesis
    using True moves_advance_eq [OF a] moves_consume_digits [of t isDigit "num @ [c]"]
    by (auto simp: lexFraction_def a split: prod.split intro: moves_trans)
qed (auto simp: lexFraction_def)

lemma isDigit_not_NUL: "isDigit c \<Longrightarrow> c \<noteq> NUL"
  by (auto simp: isDigit_def less_eq_char_def)

lemma moves_lexExponent: "moves s (snd (snd (lexExponent isFloat num s)))"
proof (cases "hasExponent s")
  case True
  let ?num = "(if CHR ''.'' \<notin> set num then num @ ''.0'' else num) @ ''e''"
  let ?t = "snd (advance s)"
  have s: "\<not> atEnd s" using True peek_at_end [of s] by (auto simp: hasExponent_def)
  have n: "peekNext s \<noteq> NUL" using True by (auto simp: hasExponent_def dest: isDigit_not_NUL)
  have t: "\<not> atEnd ?t" using peekNext_atEnd [OF n] .
  obtain c u where a: "advance ?t = (c, u)" by fastforce
  have u: "moves s u" "moves s ?t"
    using moves_advance [OF s] moves_advance_eq [OF a t] by (blast intro: moves_trans)+
  have d: "moves s (snd (consume_digits isDigit out v))" if "moves s v" for out v
    using that moves_consume_digits by (rule moves_trans)
  have e: "lexExponent isFloat num s =
     (True, (if peek ?t = CHR ''+'' \<or> peek ?t = CHR ''-'' then consume_digits isDigit (?num @ [c]) u
             else consume_digits isDigit ?num ?t))"
    using True by (simp add: lexExponent_def Let_def a split: prod.split)
  show ?thesis
    using d [OF u(1)] d [OF u(2)] unfolding e by simp
qed (simp add: lexExponent_def)

lemma spans_lexRadix: "isRadixMarker (peek s) \<Longrightarrow> spans s (lexRadix gmp s)"
proof -
  assume "isRadixMarker (peek s)"
  then have s: "\<not> atEnd s" using peek_at_end [of s] by (auto simp: isRadixMarker_def)
  obtain digits t where c: "consume_digits isHexDigit [] (snd (advance s)) = (digits, t)" by fastforce
  have "moves s t"
    using moves_advance [OF s] moves_consume_digits [of "snd (advance s)" isHexDigit "[]"] c
    by (auto intro: moves_trans)
  then show ?thesis
    by (auto simp: lexRadix_def Let_def c spanning split: option.split)
qed

lemma spans_lexNumber: "spans s (lexNumber gmp s)"
proof -
  let ?first = "at (m_source s) (m_pos s - 1)"
  obtain num t where d: "consume_digits isDigit [?first] s = (num, t)" by fastforce
  obtain f num' u where e: "lexFraction num t = (f, num', u)" by (metis prod_cases3)
  obtain f' num'' v where g: "lexExponent f num' u = (f', num'', v)" by (metis prod_cases3)
  have "moves s t" "moves t u" "moves u v"
    using moves_consume_digits [of s isDigit "[?first]"] moves_lexFraction [of t num]
      moves_lexExponent [of u f num'] d e g by simp_all
  then have "moves s v" by (blast intro: moves_trans)
  then show ?thesis
    using spans_lexRadix [of s gmp] by (auto simp: lexNumber_def Let_def d e g spanning simp del: One_nat_def)
qed

lemma moves_string_loop: "moves s (snd (string_loop str dollars s))"
proof (induction str dollars s rule: string_loop.induct)
  case (1 str dollars s)
  show ?case
  proof (cases "\<not> atEnd s \<and> peek s \<noteq> CHR 0x22")
    case True
    then have m: "moves s (snd (advance s))" by (simp add: moves_advance)
    show ?thesis
    proof (cases "peek s = CHR 0x5C")
      case esc: True
      obtain err str2 t where e: "lexEscape str (snd (advance s)) = (err, str2, t)" by (metis prod_cases3)
      have t: "moves s t"
        using m moves_lexEscape [of "snd (advance s)" str] e by (auto intro: moves_trans)
      show ?thesis
        using "1"(1) [OF True esc refl refl e [symmetric]] True esc t
        by (subst string_loop.simps) (auto simp: Let_def e split: option.split intro: moves_trans)
    next
      case plain: False
      show ?thesis
      proof (cases "peek s = CHR ''$'' \<and> peekNext s = CHR ''{''")
        case hole: True
        obtain str2 t where h: "lexHole str s = (str2, t)" by fastforce
        have "moves s t" using moves_lexHole(1) [of s str] hole True h by simp
        then show ?thesis
          using "1"(2) [OF True plain hole h [symmetric] refl] True plain hole
          by (subst string_loop.simps) (auto simp: h intro: moves_trans)
      next
        case False
        obtain c t where a: "advance s = (c, t)" by fastforce
        show ?thesis
          using "1"(3) [OF True plain False a [symmetric] refl] True plain False m a
          by (subst string_loop.simps) (auto intro: moves_trans)
      qed
    qed
  next
    case False
    then show ?thesis by (subst string_loop.simps) auto
  qed
qed

lemma spans_lexString: "spans s (lexString s)"
proof -
  obtain r t where l: "string_loop [] [] s = (r, t)" by fastforce
  have t: "moves s t" using moves_string_loop [of s "[]" "[]"] l by simp
  have u: "\<not> atEnd t \<Longrightarrow> moves s (snd (advance t))" using t moves_advance by (blast intro: moves_trans)
  show ?thesis
    using t u by (auto simp: lexString_def l Let_def spanning split: sum.split)
qed

lemma spans_lexRawString: "spans s (lexRawString interpolating s)"
  using moves_raw_loop [of s interpolating HM_Normal 0 "[]"]
  by (auto simp: lexRawString_def spanning split: prod.split option.split)

lemma spans_lexChar: "spans s (lexChar s)"
proof (cases "atEnd s")
  case False
  let ?r = "if peek s = CHR 0x5C then lexEscape [] (snd (advance s))
           else if peek s = CHR 0x27 then (Some ''Empty char literal'', [], s)
           else let (c, s) = advance s;
                    (c, s) = consume_while isContinuation [c] s
                in (None, c, s)"
  obtain error c t where r: "?r = (error, c, t)" by (metis prod_cases3)
  have m: "moves s (snd (advance s))" using False by (rule moves_advance)
  have "moves s (snd (snd ?r))"
    using moves_trans [OF m moves_lexEscape [of _ "[]"]]
      moves_trans [OF m moves_consume_while [of _ isContinuation "[fst (advance s)]"]]
    by (simp add: case_prod_beta)
  then have t: "moves s t" using r by simp
  have u: "\<not> atEnd t \<Longrightarrow> moves s (snd (advance t))" using t moves_advance by (blast intro: moves_trans)
  show ?thesis
    unfolding lexChar_def r using False t u by (auto simp: Let_def spanning split: option.split)
qed (simp add: lexChar_def spanning)

lemma moves_lexAtom_loop: "moves s (snd (lexAtom_loop atom s))"
proof (induction atom s rule: lexAtom_loop.induct)
  case (1 atom s)
  then show ?case
    by (subst lexAtom_loop.simps) (auto split: prod.split intro: moves_trans moves_advance_eq)
qed

lemma spans_lexAtom: "spans s (lexAtom s)"
  using moves_lexAtom_loop [of s "[]"] by (auto simp: lexAtom_def spanning split: prod.split)

lemma moves_quotedAtom_loop: "moves s (snd (quotedAtom_loop quote atom s))"
proof (induction quote atom s rule: quotedAtom_loop.induct)
  case (1 quote atom s)
  show ?case
  proof (cases "\<not> atEnd s \<and> peek s \<noteq> quote \<and> peek s \<noteq> LF")
    case True
    obtain c t where a: "advance s = (c, t)" by fastforce
    have t: "moves s t" using moves_advance_eq [OF a] True by simp
    have u: "\<not> atEnd t \<Longrightarrow> moves s (snd (advance t))" using t moves_advance by (blast intro: moves_trans)
    show ?thesis
      using "1" [OF True a [symmetric] refl] True t u
      by (subst quotedAtom_loop.simps) (auto simp: a intro: moves_trans)
  next
    case False
    then show ?thesis by (subst quotedAtom_loop.simps) auto
  qed
qed

lemma spans_lexQuotedAtom: "spans s (lexQuotedAtom quote s)"
proof -
  obtain atom t where l: "quotedAtom_loop quote [] s = (atom, t)" by fastforce
  have t: "moves s t" using moves_quotedAtom_loop [of s quote "[]"] l by simp
  have u: "\<not> atEnd t \<Longrightarrow> moves s (snd (advance t))" using t moves_advance by (blast intro: moves_trans)
  show ?thesis
    using t u by (auto simp: lexQuotedAtom_def l Let_def spanning)
qed

lemma spans_lexSpliceIdent: "spans s (lexSpliceIdent s)"
  using moves_consume_while [of s isIdentChar "[]"]
  by (auto simp: lexSpliceIdent_def spanning split: prod.split)

section \<open>One step of the scanner\<close>

lemma pred_option_if:
  "Q a \<Longrightarrow> pred_option Q y \<Longrightarrow> pred_option Q (if b then Some a else y)"
  by simp

lemma spans_scanOperator: "scanOperator c s = Some r \<Longrightarrow> spans s r"
proof -
  have "pred_option (spans s) (scanOperator c s)"
    unfolding scanOperator_def
    by (intro pred_option_if option.pred_inject(1) spans_matchThen spans_emit) simp_all
  then show "scanOperator c s = Some r \<Longrightarrow> spans s r" by simp
qed

lemma spans_scanColon: "spans s (scanColon s)"
proof -
  have "spans s (let (quote, t) = advance t in lexQuotedAtom quote t)"
    if m: "moves s t" and p: "peek t = CHR 0x22" for t
  proof -
    have "\<not> atEnd t" using peek_at_end [of t] p by simp
    then have "moves s (snd (advance t))" using m moves_advance moves_trans by blast
    then show ?thesis
      by (auto split: prod.split intro: spans_from spans_lexQuotedAtom)
  qed
  then show ?thesis
    unfolding scanColon_def
    by (intro spans_matchThen moves_refl) (auto intro!: spanning intro: spans_from spans_lexAtom)
qed

lemma spans_scanPercent: "spans s (scanPercent s)"
  unfolding scanPercent_def
  by (auto intro!: spans_lexSpliceIdent spans_matchThen spanning)

lemma spans_scanDollar: "spans s (scanDollar s)"
proof (cases "peek s = CHR 0x60")
  case True
  then have "\<not> atEnd s" using peek_at_end [of s] by simp
  then show ?thesis
    using True by (auto simp: scanDollar_def intro: spans_from spans_lexRawString moves_advance)
qed (auto simp: scanDollar_def intro!: spanning)

text \<open>What a step does: it returns a token it spans, or it moves on to a state to scan from.\<close>

definition step_ok :: "Lexer \<Rightarrow> Token \<times> Lexer + Lexer \<Rightarrow> bool" where
  "step_ok s r = (case r of Inl r \<Rightarrow> spans s r | Inr t \<Rightarrow> moves s t)"

lemma step_ok_simps [simp]: "step_ok s (Inl r) = spans s r" "step_ok s (Inr t) = moves s t"
  by (simp_all add: step_ok_def)

lemma step_ok_hash:
  "step_ok s (matchThen s (CHR ''['') (\<lambda>s. Inl (emit T_HashLBracket s)) (\<lambda>s. Inr (skipComment s)))"
  using moves_match_char [of s "CHR ''[''"] moves_skipComment [of s]
  by (intro matchThen_cases [where P = "step_ok s"]) (auto intro: spanning)

lemma step_ok_scanSymbol: "step_ok s (scanSymbol c s)"
proof (cases "scanOperator c s")
  case None
  then show ?thesis
    using step_ok_hash
    by (simp add: scanSymbol_def spanning spans_lexRawString spans_scanColon spans_scanPercent
        spans_lexString spans_lexChar spans_scanDollar)
next
  case (Some r)
  then show ?thesis by (simp add: scanSymbol_def spans_scanOperator)
qed

lemma step_ok_scanFrom: "step_ok s (scanFrom gmp c s)"
  using step_ok_scanSymbol [of s c] spans_lexNonAscii [of c s]
  by (auto simp: scanFrom_def spans_lexIdentifier spans_lexUpper spans_lexNumber split: option.split)

lemma step_ok_bytes_left: "step_ok s r \<Longrightarrow> r = Inr t \<Longrightarrow> bytes_left t \<le> bytes_left s"
  by (simp add: moves_bytes_left)

lemma scanStep_next:
  assumes "scanStep gmp s = Inr t"
  shows "bytes_left t < bytes_left s"
proof -
  let ?w = "mark_start (skipWhitespace s)"
  have e: "\<not> atEnd ?w" "\<not> atEnd (skipWhitespace s)"
    using assms by (auto simp: scanStep_def mark_start_def atEnd_def Let_def split: if_splits)
  obtain c u where a: "advance ?w = (c, u)" by fastforce
  have "scanFrom gmp c u = Inr t"
    using assms e by (simp add: scanStep_def a Let_def)
  then have "bytes_left t \<le> bytes_left u"
    using step_ok_bytes_left [OF step_ok_scanFrom] by blast
  also have "\<dots> < bytes_left ?w" by (rule bytes_left_advance_eq [OF a e(1)])
  also have "bytes_left ?w = bytes_left (skipWhitespace s)" by (simp add: bytes_left_def mark_start_def)
  also have "\<dots> \<le> bytes_left s" by (rule moves_bytes_left [OF moves_skipWhitespace])
  finally show ?thesis .
qed

function scanToken :: "(string \<Rightarrow> nat \<Rightarrow> string option) \<Rightarrow> Lexer \<Rightarrow> Token \<times> Lexer" where
  "scanToken gmp s =
     (case scanStep gmp s of
        Inl r \<Rightarrow> r
      | Inr t \<Rightarrow> recordPrev (scanToken gmp t))"
  by pat_completeness auto
termination
  by (relation "measure (\<lambda>(gmp, s). bytes_left s)") (auto dest: scanStep_next)

declare scanToken.simps [simp del]

definition nextToken :: "(string \<Rightarrow> nat \<Rightarrow> string option) \<Rightarrow> Lexer \<Rightarrow> Token \<times> Lexer" where
  "nextToken gmp s = recordPrev (scanToken gmp s)"

end
