(* ===== verification/Tokenize.thy ===== *)
theory Tokenize
  imports Lexer
begin

text \<open>
  \<open>Lexer::tokenizeAll\<close> and \<open>tokenTexts\<close> of \<open>src/src/lexer/lexer.cxx\<close>, and what they promise
  together: tokenizing ends, the tokens and the trivia between them divide the source exactly,
  everything skipped is whitespace or a comment, and every token is located where it starts.
\<close>

section \<open>What is skipped\<close>

fun triviaFrom :: "bool \<Rightarrow> string \<Rightarrow> bool" where
  \<comment> \<open>blanks, line ends and comments; the flag says whether a comment is open\<close>
  "triviaFrom inComment [] = True"
| "triviaFrom inComment (c # cs) =
     (if c = LF then triviaFrom False cs
      else if inComment then triviaFrom True cs
      else if c = CHR '' '' \<or> c = TAB \<or> c = CR then triviaFrom False cs
      else c = CHR ''#'' \<and> triviaFrom True cs)"

definition isTrivia :: "string \<Rightarrow> bool" where
  "isTrivia u = triviaFrom False u"

lemma triviaFrom_comment: "triviaFrom False u \<Longrightarrow> triviaFrom True u"
  by (induction u) (auto split: if_splits)

lemma triviaFrom_mono: "triviaFrom False u \<Longrightarrow> triviaFrom b u"
  by (cases b) (auto dest: triviaFrom_comment)

lemma triviaFrom_append: "triviaFrom b u \<Longrightarrow> triviaFrom False v \<Longrightarrow> triviaFrom b (u @ v)"
  by (induction b u rule: triviaFrom.induct) (auto split: if_splits intro: triviaFrom_mono)

lemma isTrivia_append: "isTrivia u \<Longrightarrow> isTrivia v \<Longrightarrow> isTrivia (u @ v)"
  by (simp add: isTrivia_def triviaFrom_append)

lemma isTrivia_Nil [simp]: "isTrivia []"
  by (simp add: isTrivia_def)

lemma triviaFrom_no_newline: "LF \<notin> set u \<Longrightarrow> triviaFrom True u"
  by (induction u) auto

definition text_between :: "string \<Rightarrow> nat \<Rightarrow> nat \<Rightarrow> string" where
  \<comment> \<open>\<open>source.substr(i, j - i)\<close>\<close>
  "text_between src i j = take (j - i) (drop i src)"

lemma text_between_self [simp]: "text_between src i i = []"
  by (simp add: text_between_def)

lemma text_between_append:
  assumes "i \<le> j" "j \<le> k"
  shows "text_between src i k = text_between src i j @ text_between src j k"
proof -
  have e: "k - i = (j - i) + (k - j)" using assms by simp
  show ?thesis unfolding text_between_def e take_add using assms by simp
qed

lemma text_between_one: "i < length src \<Longrightarrow> text_between src i (Suc i) = [at src i]"
  by (simp add: text_between_def at_def take_Suc_conv_app_nth hd_drop_conv_nth take_Suc)

lemma length_text_between: "j \<le> length src \<Longrightarrow> i \<le> j \<Longrightarrow> length (text_between src i j) = j - i"
  by (simp add: text_between_def)

definition skipped :: "Lexer \<Rightarrow> Lexer \<Rightarrow> string" where
  "skipped s t = text_between (m_source s) (m_pos s) (m_pos t)"

lemma skipped_append:
  "moves s t \<Longrightarrow> moves t u \<Longrightarrow> skipped s u = skipped s t @ skipped t u"
  by (simp add: skipped_def moves_def text_between_append)

lemma skipped_advance: "\<not> atEnd s \<Longrightarrow> skipped s (snd (advance s)) = [at (m_source s) (m_pos s)]"
  by (simp add: skipped_def text_between_one atEnd_def)

lemma fst_advance: "fst (advance s) = at (m_source s) (m_pos s)"
  by (simp add: advance_def Let_def)

lemma peek_at: "\<not> atEnd s \<Longrightarrow> peek s = at (m_source s) (m_pos s)"
  by (simp add: peek_def)

lemma skipped_whitespace: "isTrivia (skipped s (skipWhitespace s))"
proof (induction s rule: skipWhitespace.induct)
  case (1 s)
  show ?case
  proof (cases "\<not> atEnd s \<and> (peek s = CHR '' '' \<or> peek s = TAB \<or> peek s = CR)")
    case True
    then have "skipWhitespace s = skipWhitespace (snd (advance s))"
      by (subst skipWhitespace.simps) simp
    moreover have "skipped s (skipWhitespace (snd (advance s))) =
        [peek s] @ skipped (snd (advance s)) (skipWhitespace (snd (advance s)))"
      using True
      by (simp add: skipped_append [OF moves_advance moves_skipWhitespace] skipped_advance peek_at)
    moreover have "isTrivia [peek s]" using True by (auto simp: isTrivia_def)
    ultimately show ?thesis using "1" True by (auto intro!: isTrivia_append simp del: append_Cons)
  next
    case False
    then have "skipWhitespace s = s" by (subst skipWhitespace.simps) auto
    then show ?thesis by (simp add: skipped_def)
  qed
qed

lemma skipped_comment: "LF \<notin> set (skipped s (skipComment s))"
proof (induction s rule: skipComment.induct)
  case (1 s)
  show ?case
  proof (cases "\<not> atEnd s \<and> peek s \<noteq> LF")
    case True
    then have "skipComment s = skipComment (snd (advance s))"
      by (subst skipComment.simps) simp
    moreover have "skipped s (skipComment (snd (advance s))) =
        [peek s] @ skipped (snd (advance s)) (skipComment (snd (advance s)))"
      using True
      by (simp add: skipped_append [OF moves_advance moves_skipComment] skipped_advance peek_at)
    ultimately show ?thesis using "1" True by (auto simp: eq_commute [of LF])
  next
    case False
    then have "skipComment s = s" by (subst skipComment.simps) auto
    then show ?thesis by (simp add: skipped_def)
  qed
qed

lemma scanFrom_next:
  assumes "scanFrom gmp c s = Inr t"
  shows "c = LF \<and> t = s \<or> c = CHR ''#'' \<and> t = skipComment s"
proof -
  have h: "matchThen s (CHR ''['') (\<lambda>s. Inl (emit T_HashLBracket s)) (\<lambda>s. Inr (skipComment s)) =
      (Inr t :: Token \<times> Lexer + Lexer) \<Longrightarrow> t = skipComment s"
    by (auto simp: matchThen_def match_char_def split: if_splits)
  have "scanSymbol c s = Inr t"
    using assms by (auto simp: scanFrom_def split: if_splits option.splits)
  then show ?thesis
    using h by (auto simp: scanSymbol_def split: if_splits option.splits)
qed

section \<open>One token\<close>

text \<open>
  \<open>scanned s r\<close>: what \<open>scanToken\<close> promises from \<open>s\<close>.  At the end of the source it stands
  there and has skipped only trivia; otherwise it has skipped trivia up to the token's
  start, the token spans at least one byte, ends where the scanner is and is located where it
  starts.
\<close>

definition scanned :: "Lexer \<Rightarrow> Token \<times> Lexer \<Rightarrow> bool" where
  "scanned s r = (case r of (t, s') \<Rightarrow>
     m_source s' = m_source s \<and> m_filename s' = m_filename s \<and>
     positioned s' \<and> m_pos s \<le> m_pos s' \<and> m_pos s' \<le> length (m_source s) \<and>
     (if tok_type t = T_Eof
      then m_pos s' = length (m_source s) \<and> isTrivia (skipped s s')
      else \<exists>start. tok_startOffset t = int start \<and> tok_endOffset t = int (m_pos s') \<and>
        m_pos s \<le> start \<and> start < m_pos s' \<and>
        isTrivia (text_between (m_source s) (m_pos s) start) \<and>
        tok_location t =
          \<lparr>loc_file = m_filename s, loc_line = line_at (m_source s) start,
           loc_column = column_at (m_source s) start,
           loc_startOffset = int start, loc_endOffset = int (m_pos s')\<rparr>))"

definition ready :: "Lexer \<Rightarrow> bool" where
  "ready s \<longleftrightarrow> positioned s \<and> m_pos s \<le> length (m_source s)"

lemma moves_ready: "moves s t \<Longrightarrow> ready s \<Longrightarrow> ready t"
  by (auto simp: moves_def ready_def)

lemma ready_mark_start [simp]: "ready (mark_start s) = ready s"
  by (simp add: ready_def positioned_def mark_start_def)

lemma tokenFields [simp]:
  "tok_type (makeToken s type v) = type"
  "tok_type (fst (emit type s)) = type"
  "snd (emit type s) = s"
  by (simp_all add: makeToken_def emit_def)

lemma scanStep_token:
  assumes "scanStep gmp s = Inl r" "ready s"
  shows "scanned s r"
proof -
  let ?w = "skipWhitespace s"
  have w: "moves s ?w" "isTrivia (skipped s ?w)" by (rule moves_skipWhitespace skipped_whitespace)+
  then have rw: "ready ?w" using assms(2) moves_ready by blast
  show ?thesis
  proof (cases "atEnd ?w")
    case True
    then have "r = emit T_Eof ?w" using assms(1) by (simp add: scanStep_def)
    then show ?thesis
      using w rw True
      by (auto simp: scanned_def emit_def makeToken_def moves_def ready_def atEnd_def)
  next
    case False
    let ?m = "mark_start ?w"
    obtain c u where a: "advance ?m = (c, u)" by fastforce
    have e: "\<not> atEnd ?m" using False by (simp add: atEnd_def mark_start_def)
    have mu: "moves ?m u" by (rule moves_advance_eq [OF a e])
    have "scanFrom gmp c u = Inl r" using assms(1) False a by (simp add: scanStep_def)
    then have sp: "spans u r" using step_ok_scanFrom [of u gmp c] by simp
    have p: "m_pos u = m_pos ?w + 1"
      using source_advance(2) [of ?m] unfolding a by (simp add: mark_start_def)
    have ru: "ready (snd r)" "moves u (snd r)"
      using sp rw mu moves_ready [of ?m u] moves_ready [of u "snd r"] by (auto simp: spans_def)
    have f: "m_source u = m_source s" "m_filename u = m_filename s"
      "m_tokenStartOffset u = m_pos ?w" "m_tokenStartLine u = m_line ?w" "m_tokenStartColumn u = m_column ?w"
      using mu w(1) by (simp_all add: moves_def mark_start_def)
    have l: "m_line ?w = line_at (m_source s) (m_pos ?w)" "m_column ?w = column_at (m_source s) (m_pos ?w)"
      using rw w(1) by (simp_all add: ready_def positioned_def moves_def)
    show ?thesis
      using sp ru f l p w
      by (cases r) (auto simp: scanned_def spans_def moves_def ready_def skipped_def)
  qed
qed

lemma scanStep_skips:
  assumes "scanStep gmp s = Inr t"
  shows "isTrivia (skipped s t)" "m_source t = m_source s" "m_filename t = m_filename s"
    "m_pos s \<le> m_pos t" "ready s \<Longrightarrow> ready t"
proof -
  let ?w = "skipWhitespace s"
  let ?m = "mark_start ?w"
  have w: "moves s ?w" "isTrivia (skipped s ?w)" by (rule moves_skipWhitespace skipped_whitespace)+
  have e: "\<not> atEnd ?w" "\<not> atEnd ?m"
    using assms by (auto simp: scanStep_def atEnd_def mark_start_def Let_def split: if_splits)
  obtain c u where a: "advance ?m = (c, u)" by fastforce
  have mu: "moves ?m u" by (rule moves_advance_eq [OF a e(2)])
  have "scanFrom gmp c u = Inr t" using assms e(1) a by (simp add: scanStep_def)
  then have c: "c = LF \<and> t = u \<or> c = CHR ''#'' \<and> t = skipComment u" by (rule scanFrom_next)
  have mt: "moves u t" using c moves_skipComment by auto
  have one: "skipped ?m u = [c]"
    using skipped_advance [OF e(2)] fst_advance [of ?m] a by simp
  have "triviaFrom False (c # skipped u t)"
    using c skipped_comment [of u] by (auto simp: skipped_def triviaFrom_no_newline)
  then have "isTrivia (skipped ?m t)"
    using skipped_append [OF mu mt] one by (simp add: isTrivia_def)
  moreover have "skipped s t = skipped s ?w @ skipped ?m t"
    using w(1) moves_trans [OF mu mt]
    by (simp add: skipped_def moves_def mark_start_def text_between_append)
  ultimately show "isTrivia (skipped s t)" using w(2) isTrivia_append by simp
  show "m_source t = m_source s" "m_filename t = m_filename s" "m_pos s \<le> m_pos t"
    using w(1) moves_trans [OF mu mt] by (simp_all add: moves_def mark_start_def)
  show "ready s \<Longrightarrow> ready t"
    using w(1) moves_trans [OF mu mt] moves_ready by (metis ready_mark_start)
qed

lemma recordPrev_fields [simp]:
  "fst (recordPrev r) = fst r" "m_source (snd (recordPrev r)) = m_source (snd r)"
  "m_filename (snd (recordPrev r)) = m_filename (snd r)" "m_pos (snd (recordPrev r)) = m_pos (snd r)"
  "positioned (snd (recordPrev r)) = positioned (snd r)"
  by (simp_all add: recordPrev_def positioned_def split: prod.split)

lemma scanned_recordPrev [simp]: "scanned s (recordPrev r) = scanned s r"
  by (cases "recordPrev r", cases r)
    (use recordPrev_fields [of r] in \<open>auto simp: scanned_def skipped_def simp del: recordPrev_fields\<close>)

lemma scanned_after:
  assumes "scanned t r" "isTrivia (skipped s t)" "m_source t = m_source s"
    "m_filename t = m_filename s" "m_pos s \<le> m_pos t"
  shows "scanned s r"
proof -
  have app: "isTrivia (text_between (m_source s) (m_pos s) k)"
    if "m_pos t \<le> k" "isTrivia (text_between (m_source s) (m_pos t) k)" for k
    using assms(2) that isTrivia_append
    unfolding text_between_append [OF assms(5) that(1)] skipped_def by blast
  show ?thesis
    using assms(1,3,4,5) app by (cases r) (fastforce simp: scanned_def skipped_def)
qed

lemma scanToken_scanned: "ready s \<Longrightarrow> scanned s (scanToken gmp s)"
proof (induction gmp s rule: scanToken.induct)
  case (1 gmp s)
  show ?case
  proof (cases "scanStep gmp s")
    case (Inl r)
    then show ?thesis using scanStep_token [OF Inl] "1"(2) by (subst scanToken.simps) simp
  next
    case (Inr t)
    note t = scanStep_skips [OF Inr]
    have "scanned t (scanToken gmp t)" using "1"(1) [OF Inr] t(5) "1"(2) by blast
    then have "scanned s (scanToken gmp t)" using t by (blast intro: scanned_after)
    then show ?thesis using Inr by (subst scanToken.simps) simp
  qed
qed

lemma nextToken_scanned: "ready s \<Longrightarrow> scanned s (nextToken gmp s)"
  by (simp add: nextToken_def scanToken_scanned)

section \<open>The whole source\<close>

lemma nextToken_progress:
  assumes "nextToken gmp s = (t, s')" "tok_type t \<noteq> T_Eof"
  shows "bytes_left s' < bytes_left s"
proof -
  have spans: "bytes_left (snd r) < bytes_left s"
    if "scanStep gmp s = Inl r" "tok_type (fst r) \<noteq> T_Eof" for gmp r s
  proof -
    let ?m = "mark_start (skipWhitespace s)"
    have e: "\<not> atEnd (skipWhitespace s)" "\<not> atEnd ?m"
      using that by (auto simp: scanStep_def Let_def atEnd_def mark_start_def split: if_splits)
    obtain c u where a: "advance ?m = (c, u)" by fastforce
    have "scanFrom gmp c u = Inl r" using that e(1) a by (simp add: scanStep_def)
    then have "moves u (snd r)" using step_ok_scanFrom [of u gmp c] by (simp add: spans_def)
    then have "bytes_left (snd r) \<le> bytes_left u" by (rule moves_bytes_left)
    also have "\<dots> < bytes_left ?m" by (rule bytes_left_advance_eq [OF a e(2)])
    also have "\<dots> \<le> bytes_left s"
      using moves_bytes_left [OF moves_skipWhitespace [of s]] by (simp add: bytes_left_def mark_start_def)
    finally show ?thesis .
  qed
  have left: "bytes_left (snd (recordPrev r)) = bytes_left (snd r)" for r
    by (simp add: bytes_left_def)
  have "tok_type (fst (scanToken gmp s)) \<noteq> T_Eof \<Longrightarrow> bytes_left (snd (scanToken gmp s)) < bytes_left s"
  proof (induction gmp s rule: scanToken.induct)
    case (1 gmp s)
    show ?case
    proof (cases "scanStep gmp s")
      case (Inl r)
      then show ?thesis using spans [OF Inl] "1"(2) by (simp add: scanToken.simps [of gmp s])
    next
      case (Inr t)
      then show ?thesis
        using "1"(1) [OF Inr] "1"(2) less_trans [OF _ scanStep_next [OF Inr]]
        by (simp add: scanToken.simps [of gmp s] left)
    qed
  qed
  then show ?thesis
    using assms left [of "scanToken gmp s"] recordPrev_fields(1) [of "scanToken gmp s"]
    by (simp add: nextToken_def)
qed

function tokenize_loop :: "(string \<Rightarrow> nat \<Rightarrow> string option) \<Rightarrow> Lexer \<Rightarrow> Token list \<times> Lexer" where
  "tokenize_loop gmp s =
     (let (t, s) = nextToken gmp s
      in if tok_type t = T_Eof \<or> tok_type t = T_Error then ([t], s)
         else let (ts, s) = tokenize_loop gmp s in (t # ts, s))"
  by pat_completeness auto
termination
proof (relation "measure (\<lambda>(gmp, s). bytes_left s)", goal_cases)
  case (2 gmp s r t s')
  then show ?case using nextToken_progress [of gmp s t s'] by simp
qed simp

declare tokenize_loop.simps [simp del]

definition tokenizeAll :: "(string \<Rightarrow> nat \<Rightarrow> string option) \<Rightarrow> Lexer \<Rightarrow> Token list" where
  "tokenizeAll gmp s =
     (let (tokens, s) = tokenize_loop gmp s
      in if tok_type (last tokens) \<noteq> T_Eof then tokens @ [makeToken s T_Eof []] else tokens)"

record TokenText =
  tt_trivia :: string
  tt_raw :: string

primrec texts_loop :: "Token list \<Rightarrow> string \<Rightarrow> nat \<Rightarrow> (TokenText list \<times> nat) option" where
  \<comment> \<open>the loop of \<open>tokenTexts\<close> from \<open>previousEnd\<close>, with the end it leaves\<close>
  "texts_loop [] source previousEnd = Some ([], previousEnd)"
| "texts_loop (token # tokens) source previousEnd =
     (let eof = tok_type token = T_Eof;
          start = (if eof then int (length source) else tok_startOffset token);
          end = (if eof then start else tok_endOffset token)
      in if start < int previousEnd \<or> end < start \<or> end > int (length source) then None
         else
           let text = \<lparr>tt_trivia = text_between source previousEnd (nat start),
                       tt_raw = text_between source (nat start) (nat end)\<rparr>
           in case texts_loop tokens source (nat end) of
                None \<Rightarrow> None
              | Some (texts, final_end) \<Rightarrow> Some (text # texts, final_end))"

definition tokenTexts :: "Token list \<Rightarrow> string \<Rightarrow> TokenText list option" where
  "tokenTexts tokens source =
     (case texts_loop tokens source 0 of
        None \<Rightarrow> None
      | Some (texts, previousEnd) \<Rightarrow> if previousEnd \<noteq> length source then None else Some texts)"

section \<open>The texts of the tokens are the source\<close>

abbreviation text_bytes :: "TokenText \<Rightarrow> string" where
  "text_bytes x \<equiv> tt_trivia x @ tt_raw x"

abbreviation rest_of :: "Lexer \<Rightarrow> string" where
  "rest_of s \<equiv> drop (m_pos s) (m_source s)"

definition covers :: "Lexer \<Rightarrow> Token list \<Rightarrow> bool" where
  \<comment> \<open>the texts of the tokens divide what is left of the source\<close>
  "covers s tokens \<longleftrightarrow> (\<exists>texts. texts_loop tokens (m_source s) (m_pos s) = Some (texts, length (m_source s)) \<and>
     concat (map text_bytes texts) = rest_of s)"

lemma text_between_rest: "i \<le> j \<Longrightarrow> text_between src i j @ drop j src = drop i src"
  unfolding text_between_def by (metis add.commute append_take_drop_id drop_drop le_add_diff_inverse2)

lemma covers_Eof:
  assumes "tok_type t = T_Eof" "m_pos s \<le> length (m_source s)"
  shows "covers s [t]"
  using assms by (auto simp: covers_def text_between_def Let_def)

lemma covers_Cons:
  assumes "scanned s (t, s')" "tok_type t \<noteq> T_Eof" "covers s' ts"
  shows "covers s (t # ts)"
proof -
  obtain start where st: "tok_startOffset t = int start" "tok_endOffset t = int (m_pos s')"
    "m_pos s \<le> start" "start < m_pos s'" "m_pos s' \<le> length (m_source s)" "m_source s' = m_source s"
    using assms(1,2) by (auto simp: scanned_def)
  obtain texts where x: "texts_loop ts (m_source s) (m_pos s') = Some (texts, length (m_source s))"
    "concat (map text_bytes texts) = drop (m_pos s') (m_source s)"
    using assms(3) st(6) by (auto simp: covers_def)
  have "text_between (m_source s) (m_pos s) start @ text_between (m_source s) start (m_pos s') @
      drop (m_pos s') (m_source s) = rest_of s"
    using st by (simp add: text_between_rest)
  then show ?thesis
    using assms(2) st x by (simp add: covers_def Let_def)
qed

lemma tokenize_loop_stop:
  "nextToken gmp s = (t, s') \<Longrightarrow> tok_type t = T_Eof \<or> tok_type t = T_Error \<Longrightarrow>
     tokenize_loop gmp s = ([t], s')"
  by (subst tokenize_loop.simps) auto

lemma tokenize_loop_step:
  "nextToken gmp s = (t, s') \<Longrightarrow> \<not> (tok_type t = T_Eof \<or> tok_type t = T_Error) \<Longrightarrow>
     tokenize_loop gmp s = (t # fst (tokenize_loop gmp s'), snd (tokenize_loop gmp s'))"
  by (subst tokenize_loop.simps) (auto split: prod.split)

lemma scanned_ready: "scanned s (t, s') \<Longrightarrow> ready s'"
  by (simp add: scanned_def ready_def)

text \<open>Induction over the tokens of a source, from the last to the first.\<close>

lemma tokenize_induct:
  assumes "ready s"
    and stop: "\<And>s t s'. ready s \<Longrightarrow> scanned s (t, s') \<Longrightarrow> nextToken gmp s = (t, s') \<Longrightarrow>
      tok_type t = T_Eof \<or> tok_type t = T_Error \<Longrightarrow> P s ([t], s')"
    and step: "\<And>s t s'. ready s \<Longrightarrow> scanned s (t, s') \<Longrightarrow> nextToken gmp s = (t, s') \<Longrightarrow>
      tok_type t \<noteq> T_Eof \<Longrightarrow> tok_type t \<noteq> T_Error \<Longrightarrow> P s' (tokenize_loop gmp s') \<Longrightarrow>
      P s (t # fst (tokenize_loop gmp s'), snd (tokenize_loop gmp s'))"
  shows "P s (tokenize_loop gmp s)"
  using assms(1)
proof (induction gmp \<equiv> gmp s rule: tokenize_loop.induct)
  case (1 s)
  obtain t s' where n: "nextToken gmp s = (t, s')" by fastforce
  have sc: "scanned s (t, s')" using nextToken_scanned [OF 1(2), of gmp] n by simp
  show ?case
  proof (cases "tok_type t = T_Eof \<or> tok_type t = T_Error")
    case True
    then show ?thesis using stop [OF 1(2) sc n True] tokenize_loop_stop [OF n True] by simp
  next
    case False
    then have "P s' (tokenize_loop gmp s')"
      using 1(1) [OF n [symmetric] refl False] scanned_ready [OF sc] by blast
    then show ?thesis
      using step [OF 1(2) sc n] False tokenize_loop_step [OF n False] by simp
  qed
qed

lemma tokenize_loop_shape:
  assumes "ready s"
  shows "fst (tokenize_loop gmp s) \<noteq> [] \<and> ready (snd (tokenize_loop gmp s)) \<and>
    m_source (snd (tokenize_loop gmp s)) = m_source s \<and>
    tok_type (last (fst (tokenize_loop gmp s))) \<in> {T_Eof, T_Error} \<and>
    list_all (\<lambda>t. tok_type t \<noteq> T_Eof \<and> tok_type t \<noteq> T_Error) (butlast (fst (tokenize_loop gmp s)))"
  by (rule tokenize_induct [OF assms, where P = "\<lambda>s r. fst r \<noteq> [] \<and> ready (snd r) \<and>
      m_source (snd r) = m_source s \<and> tok_type (last (fst r)) \<in> {T_Eof, T_Error} \<and>
      list_all (\<lambda>t. tok_type t \<noteq> T_Eof \<and> tok_type t \<noteq> T_Error) (butlast (fst r))"])
    (auto simp: scanned_def ready_def)

lemma tokenize_loop_covers:
  assumes "ready s"
  shows "covers s (fst (tokenize_loop gmp s) @
    (if tok_type (last (fst (tokenize_loop gmp s))) \<noteq> T_Eof then [makeToken u T_Eof []] else []))"
proof (rule tokenize_induct [OF assms, where P = "\<lambda>s r. fst r \<noteq> [] \<and>
      covers s (fst r @ (if tok_type (last (fst r)) \<noteq> T_Eof then [makeToken u T_Eof []] else []))",
      THEN conjunct2], goal_cases)
  case (1 s t s')
  then show ?case
    using covers_Cons [OF 1(2), of "[makeToken u T_Eof []]"] covers_Eof [of "makeToken u T_Eof []" s']
      covers_Eof [of t s]
    by (auto simp: ready_def scanned_def)
next
  case (2 s t s')
  then show ?case using covers_Cons [OF 2(2)] by auto
qed

lemma ready_make_lexer [simp]: "ready (make_lexer source filename)"
  by (simp add: ready_def positioned_def make_lexer_def line_at_def column_at_def)

lemma make_lexer_fields [simp]:
  "m_source (make_lexer source filename) = source" "m_pos (make_lexer source filename) = 0"
  "m_filename (make_lexer source filename) = filename"
  by (simp_all add: make_lexer_def)

lemma tokenizeAll_covers: "ready s \<Longrightarrow> covers s (tokenizeAll gmp s)"
  using tokenize_loop_covers [of s gmp "snd (tokenize_loop gmp s)"]
  by (auto simp: tokenizeAll_def split: prod.split)

text \<open>
  C1: reprinting a file is lossless whatever bytes it holds, errors included: \<open>tokenTexts\<close>
  accepts the tokens of \<open>tokenizeAll\<close>, and the trivia and spellings it returns, put end to
  end, are the source byte for byte.
\<close>
theorem tokenTexts_reproduces_source:
  "\<exists>texts. tokenTexts (tokenizeAll gmp (make_lexer source filename)) source = Some texts \<and>
     concat (map (\<lambda>x. tt_trivia x @ tt_raw x) texts) = source"
  using tokenizeAll_covers [of "make_lexer source filename" gmp]
  by (auto simp: covers_def tokenTexts_def)

text \<open>
  The token list always ends with \<open>Eof\<close>, has no other \<open>Eof\<close>, and an error can only be
  the token right before it: scanning stops at the first error.
\<close>
theorem tokenizeAll_shape:
  "\<exists>tokens eof. tokenizeAll gmp (make_lexer source filename) = tokens @ [eof] \<and>
     tok_type eof = T_Eof \<and> list_all (\<lambda>t. tok_type t \<noteq> T_Eof) tokens \<and>
     list_all (\<lambda>t. tok_type t \<noteq> T_Error) (butlast tokens)"
proof -
  let ?s = "make_lexer source filename"
  obtain ts s' where l: "tokenize_loop gmp ?s = (ts, s')" by fastforce
  have sh: "ts \<noteq> []" "tok_type (last ts) \<in> {T_Eof, T_Error}"
    "list_all (\<lambda>t. tok_type t \<noteq> T_Eof \<and> tok_type t \<noteq> T_Error) (butlast ts)"
    using tokenize_loop_shape [of ?s gmp] l by auto
  show ?thesis
  proof (cases "tok_type (last ts) = T_Eof")
    case True
    have "ts = butlast ts @ [last ts]" using sh(1) by simp
    moreover have "list_all (\<lambda>t. tok_type t \<noteq> T_Error) (butlast (butlast ts))"
      using sh(3) by (auto simp: list_all_iff dest: in_set_butlastD)
    ultimately show ?thesis
      using True sh(3) l by (intro exI [of _ "butlast ts"] exI [of _ "last ts"])
        (auto simp: tokenizeAll_def list_all_iff)
  next
    case False
    have "list_all (\<lambda>t. tok_type t \<noteq> T_Eof) (butlast ts @ [last ts])"
      using sh(3) False by (auto simp: list_all_iff)
    then have "list_all (\<lambda>t. tok_type t \<noteq> T_Eof) ts" using sh(1) by simp
    then show ?thesis
      using False sh l by (intro exI [of _ ts] exI [of _ "makeToken s' T_Eof []"])
        (auto simp: tokenizeAll_def list_all_iff)
  qed
qed

section \<open>What stands between and at the tokens\<close>

definition located :: "string \<Rightarrow> string \<Rightarrow> Token \<Rightarrow> bool" where
  "located source filename t \<longleftrightarrow>
     0 \<le> tok_startOffset t \<and> tok_startOffset t < tok_endOffset t \<and>
     tok_endOffset t \<le> int (length source) \<and>
     tok_location t =
       \<lparr>loc_file = filename,
        loc_line = line_at source (nat (tok_startOffset t)),
        loc_column = column_at source (nat (tok_startOffset t)),
        loc_startOffset = tok_startOffset t, loc_endOffset = tok_endOffset t\<rparr>"

lemma scanned_located:
  "scanned s (t, s') \<Longrightarrow> tok_type t \<noteq> T_Eof \<Longrightarrow> located (m_source s) (m_filename s) t"
  by (auto simp: scanned_def located_def)

lemma tokenize_loop_located:
  assumes "ready s"
  shows "list_all (located (m_source s) (m_filename s))
    (filter (\<lambda>t. tok_type t \<noteq> T_Eof) (fst (tokenize_loop gmp s)))"
proof (rule tokenize_induct [OF assms, where P = "\<lambda>s r. list_all (located (m_source s) (m_filename s))
    (filter (\<lambda>t. tok_type t \<noteq> T_Eof) (fst r))"], goal_cases)
  case (1 s t s')
  then show ?case using scanned_located [OF 1(2)] by simp
next
  case (2 s t s')
  then show ?case using scanned_located [OF 2(2)] by (simp add: scanned_def)
qed

text \<open>
  C33: every token but \<open>Eof\<close> spans at least one byte of the source and carries the line and
  column of its first byte: one plus the newlines before it, and one plus the bytes since the
  last of them.
\<close>
theorem tokens_located:
  "list_all (located source filename)
     (filter (\<lambda>t. tok_type t \<noteq> T_Eof) (tokenizeAll gmp (make_lexer source filename)))"
  using tokenize_loop_located [of "make_lexer source filename" gmp]
  by (auto simp: tokenizeAll_def split: prod.split)

definition trivial_between :: "string \<Rightarrow> nat \<Rightarrow> Token list \<Rightarrow> bool" where
  "trivial_between source start tokens \<longleftrightarrow>
     (case texts_loop tokens source start of
        None \<Rightarrow> False
      | Some (texts, e) \<Rightarrow> list_all (\<lambda>x. isTrivia (tt_trivia x)) texts)"

lemma trivial_Eof:
  assumes "scanned s (t, s')" "tok_type t = T_Eof"
  shows "trivial_between (m_source s) (m_pos s) [t]"
  using assms by (auto simp: scanned_def trivial_between_def Let_def skipped_def)

lemma trivial_Error:
  assumes "scanned s (t, s')" "tok_type t = T_Error"
  shows "trivial_between (m_source s) (m_pos s) [t]"
  using assms by (auto simp: scanned_def trivial_between_def Let_def)

lemma trivial_Cons:
  assumes "scanned s (t, s')" "tok_type t \<noteq> T_Eof" "trivial_between (m_source s') (m_pos s') ts"
  shows "trivial_between (m_source s) (m_pos s) (t # ts)"
  using assms by (auto simp: scanned_def trivial_between_def Let_def split: option.splits)

lemma tokenize_loop_trivial:
  assumes "ready s"
  shows "trivial_between (m_source s) (m_pos s) (fst (tokenize_loop gmp s))"
proof (rule tokenize_induct [OF assms, where P = "\<lambda>s r. trivial_between (m_source s) (m_pos s) (fst r)"],
    goal_cases)
  case (1 s t s')
  then show ?case using trivial_Eof trivial_Error by auto
next
  case (2 s t s')
  then show ?case using trivial_Cons [OF 2(2)] by simp
qed

lemma texts_loop_append:
  "texts_loop (ts @ us) source e =
     (case texts_loop ts source e of
        None \<Rightarrow> None
      | Some (texts, e') \<Rightarrow>
          (case texts_loop us source e' of
             None \<Rightarrow> None
           | Some (texts', e'') \<Rightarrow> Some (texts @ texts', e'')))"
proof (induction ts arbitrary: e)
  case (Cons t ts)
  then show ?case by (auto simp: Let_def split: option.split)
qed (auto split: option.split)

lemma length_texts_loop: "texts_loop ts source e = Some (texts, e') \<Longrightarrow> length texts = length ts"
  by (induction ts arbitrary: e texts) (auto simp: Let_def split: if_splits option.splits)

text \<open>
  C32: the scanner drops nothing but whitespace and comments: the trivia before every token is
  made of spaces, tabs, carriage returns, newlines and comments.  After an error the rest of the
  source, which was never scanned, is the trivia of the final \<open>Eof\<close>.
\<close>
theorem trivia_is_blank_or_comment:
  "\<exists>texts. tokenTexts (tokenizeAll gmp (make_lexer source filename)) source = Some texts \<and>
     list_all (\<lambda>x. isTrivia (tt_trivia x))
       (if list_ex (\<lambda>t. tok_type t = T_Error) (tokenizeAll gmp (make_lexer source filename))
        then butlast texts else texts)"
proof -
  let ?s = "make_lexer source filename"
  obtain ts s' where l: "tokenize_loop gmp ?s = (ts, s')" by fastforce
  obtain texts where x: "tokenTexts (tokenizeAll gmp ?s) source = Some texts"
    using tokenizeAll_covers [of ?s gmp] by (auto simp: covers_def tokenTexts_def)
  have triv: "trivial_between source 0 ts"
    using tokenize_loop_trivial [of ?s gmp] l by simp
  have sh: "ts \<noteq> []" "tok_type (last ts) \<in> {T_Eof, T_Error}"
    "list_all (\<lambda>t. tok_type t \<noteq> T_Eof \<and> tok_type t \<noteq> T_Error) (butlast ts)"
    using tokenize_loop_shape [of ?s gmp] l by auto
  show ?thesis
  proof (cases "tok_type (last ts) = T_Eof")
    case True
    have "list_all (\<lambda>t. tok_type t \<noteq> T_Error) (butlast ts @ [last ts])"
      using sh(3) True by (auto simp: list_all_iff)
    then have "\<not> list_ex (\<lambda>t. tok_type t = T_Error) ts"
      using sh(1) by (simp add: list_all_iff list_ex_iff)
    then show ?thesis
      using True l x triv
      by (auto simp: tokenizeAll_def tokenTexts_def trivial_between_def split: option.splits if_splits)
  next
    case False
    then have "tok_type (last ts) = T_Error" using sh(2) by simp
    then have "list_ex (\<lambda>t. tok_type t = T_Error) ts"
      using sh(1) by (auto simp: list_ex_iff intro: bexI [of _ "last ts"])
    moreover have t: "tokenizeAll gmp ?s = ts @ [makeToken s' T_Eof []]"
      using False l by (simp add: tokenizeAll_def)
    moreover obtain xs e y where "texts_loop ts source 0 = Some (xs, e)" "texts = xs @ [y]"
      using x unfolding t
      by (auto simp: tokenTexts_def texts_loop_append Let_def split: option.splits if_splits)
    ultimately show ?thesis using x triv by (auto simp: trivial_between_def)
  qed
qed

end
