(* ===== verification/Lexemes.thy ===== *)
theory Lexemes
  imports Tokenize
begin

text \<open>
  What the scanner reads, literal by literal: the token \<open>nextToken\<close> returns when the source
  goes on with a given spelling.  \<open>adv n s\<close> is the state \<open>n\<close> bytes further, and \<open>rest_of s\<close>
  the bytes ahead; each loop of the scanner is described by the bytes it takes off the rest.
\<close>

section \<open>The bytes ahead\<close>

primrec adv :: "nat \<Rightarrow> Lexer \<Rightarrow> Lexer" where
  "adv 0 s = s"
| "adv (Suc n) s = adv n (snd (advance s))"

declare adv.simps(2) [simp del]

lemma adv_1: "adv 1 s = snd (advance s)" "adv (Suc 0) s = snd (advance s)"
  by (simp_all add: adv.simps(2))

lemma advance_frame [simp]:
  "m_filename (snd (advance s)) = m_filename s"
  "m_tokenStartLine (snd (advance s)) = m_tokenStartLine s"
  "m_tokenStartColumn (snd (advance s)) = m_tokenStartColumn s"
  "m_tokenStartOffset (snd (advance s)) = m_tokenStartOffset s"
  "m_parenDepth (snd (advance s)) = m_parenDepth s"
  "m_prevType (snd (advance s)) = m_prevType s"
  by (simp_all add: advance_def Let_def)

lemma adv_frame [simp]:
  "m_source (adv n s) = m_source s" "m_pos (adv n s) = m_pos s + n"
  "m_tokenStartOffset (adv n s) = m_tokenStartOffset s"
  "m_prevType (adv n s) = m_prevType s" "m_parenDepth (adv n s) = m_parenDepth s"
  by (induction n arbitrary: s) (simp_all add: adv.simps(2))

lemma adv_add [simp]: "adv m (adv n s) = adv (n + m) s"
  by (induction n arbitrary: s) (simp_all add: adv.simps(2))

lemma snd_advance_adv: "snd (advance (adv n s)) = adv (Suc n) s"
  by (metis adv_add adv_1(1) Suc_eq_plus1)

lemma rest_advance: "rest_of (snd (advance s)) = tl (rest_of s)"
  by (simp add: drop_Suc tl_drop)

lemma at_end_rest: "atEnd s \<longleftrightarrow> rest_of s = []"
  by (simp add: atEnd_def)

lemma peek_rest: "peek s = (if rest_of s = [] then NUL else hd (rest_of s))"
  by (auto simp: peek_def atEnd_def at_def hd_drop_conv_nth)

lemma peekNext_rest: "peekNext s = (if tl (rest_of s) = [] then NUL else hd (tl (rest_of s)))"
proof -
  have "tl (rest_of s) = drop (m_pos s + 1) (m_source s)" by (simp add: drop_Suc tl_drop)
  then show ?thesis by (auto simp: peekNext_def at_def hd_drop_conv_nth)
qed

lemma rest_Cons:
  assumes "rest_of s = c # cs"
  shows "\<not> atEnd s" "peek s = c" "advance s = (c, adv 1 s)" "rest_of (adv 1 s) = cs"
    "at (m_source s) (m_pos s) = c"
proof -
  show e: "\<not> atEnd s" "peek s = c" using assms by (simp_all add: at_end_rest peek_rest)
  then show "at (m_source s) (m_pos s) = c" by (simp add: peek_at)
  then show "advance s = (c, adv 1 s)" using fst_advance [of s] by (simp add: adv_1 prod_eq_iff)
  show "rest_of (adv 1 s) = cs" using assms rest_advance [of s] by (simp add: adv_1)
qed

lemma rest_adv: "rest_of s = u @ v \<Longrightarrow> rest_of (adv (length u) s) = v"
  by (metis add.commute adv_frame(1,2) append_eq_conv_conj drop_drop)

lemma consume_while_rest:
  assumes "rest_of s = u @ v" "list_all p u" "v = [] \<or> \<not> p (hd v)"
  shows "consume_while p out s = (out @ u, adv (length u) s)"
  using assms
proof (induction u arbitrary: s out)
  case Nil
  then show ?case by (subst consume_while.simps) (auto simp: at_end_rest peek_rest)
next
  case (Cons c u)
  then have r: "rest_of s = c # (u @ v)" by simp
  show ?case
    using Cons.IH [OF rest_Cons(4) [OF r], of "out @ [c]"] Cons.prems rest_Cons [OF r]
    by (subst consume_while.simps) simp
qed

lemma consume_digits_rest:
  assumes "rest_of s = u @ v" "list_all (\<lambda>c. p c \<or> c = CHR ''_'') u"
    "v = [] \<or> \<not> p (hd v) \<and> hd v \<noteq> CHR ''_''" "\<not> p (CHR ''_'')"
  shows "consume_digits p out s = (out @ filter (\<lambda>c. c \<noteq> CHR ''_'') u, adv (length u) s)"
  using assms
proof (induction u arbitrary: s out)
  case Nil
  then show ?case by (subst consume_digits.simps) (auto simp: at_end_rest peek_rest)
next
  case (Cons c u)
  then have r: "rest_of s = c # (u @ v)" by simp
  show ?case
    using Cons.IH [OF rest_Cons(4) [OF r], of "if c = CHR ''_'' then out else out @ [c]"] Cons.prems
      rest_Cons [OF r]
    by (subst consume_digits.simps) auto
qed

section \<open>The first token of a state\<close>

lemma skipWhitespace_none:
  "rest_of s = c # cs \<Longrightarrow> c \<noteq> CHR '' '' \<Longrightarrow> c \<noteq> TAB \<Longrightarrow> c \<noteq> CR \<Longrightarrow> skipWhitespace s = s"
  by (subst skipWhitespace.simps) (simp add: peek_rest)

lemma rest_mark_start [simp]: "m_pos (mark_start s) = m_pos s" "m_source (mark_start s) = m_source s"
  "m_prevType (mark_start s) = m_prevType s" "m_parenDepth (mark_start s) = m_parenDepth s"
  "m_tokenStartOffset (mark_start s) = m_pos s"
  by (simp_all add: mark_start_def)

lemma scanToken_first:
  assumes "rest_of s = c # cs" "c \<noteq> CHR '' ''" "c \<noteq> TAB" "c \<noteq> CR"
    and "scanFrom gmp c (adv 1 (mark_start s)) = Inl r"
  shows "scanToken gmp s = r"
proof -
  have w: "skipWhitespace s = s" using assms by (intro skipWhitespace_none)
  have m: "rest_of (mark_start s) = c # cs" using assms(1) by simp
  have "\<not> atEnd s" using assms(1) by (simp add: at_end_rest)
  then have "scanStep gmp s = Inl r"
    using assms(5) rest_Cons(3) [OF m] by (simp add: scanStep_def w)
  then show ?thesis by (subst scanToken.simps) simp
qed

lemma nextToken_first:
  assumes "rest_of s = c # cs" "c \<noteq> CHR '' ''" "c \<noteq> TAB" "c \<noteq> CR"
    and "scanFrom gmp c (adv 1 (mark_start s)) = Inl r"
  shows "fst (nextToken gmp s) = fst r"
  using scanToken_first [OF assms] by (simp add: nextToken_def)

section \<open>Names\<close>

lemma identContinues_ascii:
  assumes "rest_of s = c # cs" "of_char c < (128::nat)"
  shows "identContinues s (m_pos s) = (isIdentChar c, 1)"
proof -
  have "uchar c < 0x80" using assms(2) by (simp add: word_less_nat_alt unat_uchar)
  then show ?thesis
    using assms(1) rest_Cons(1,5) [OF assms(1)] by (simp add: identContinues_def atEnd_def Let_def)
qed

lemma isIdentChar_ascii: "isIdentChar c \<Longrightarrow> of_char c < (128::nat)"
  by (auto simp: isIdentChar_def isAlpha_def isLowerAlpha_def isUpperAlpha_def isDigit_def less_eq_char_def)

definition ends_name :: "string \<Rightarrow> bool" where
  \<comment> \<open>an ASCII byte that cannot continue a name, or the end of the source\<close>
  "ends_name v \<longleftrightarrow> v = [] \<or> (\<not> isIdentChar (hd v) \<and> of_char (hd v) < (128::nat))"

lemma consumeIdentRest_rest:
  assumes "rest_of s = u @ v" "list_all isIdentChar u" "ends_name v"
  shows "consumeIdentRest ident s = (ident @ u, adv (length u) s)"
  using assms
proof (induction u arbitrary: s ident)
  case Nil
  show ?case
  proof (cases v)
    case Nil
    then show ?thesis using \<open>rest_of s = [] @ v\<close> by (subst consumeIdentRest.simps) (simp add: at_end_rest)
  next
    case (Cons c cs)
    then have "rest_of s = c # cs" "of_char c < (128::nat)" "\<not> isIdentChar c"
      using Nil.prems by (simp_all add: ends_name_def)
    then show ?thesis by (subst consumeIdentRest.simps) (simp add: identContinues_ascii)
  qed
next
  case (Cons c u)
  then have r: "rest_of s = c # (u @ v)" and c: "isIdentChar c" by simp_all
  show ?case
    using Cons.IH [OF rest_Cons(4) [OF r], of "ident @ [c]"] Cons.prems rest_Cons [OF r] c
    by (subst consumeIdentRest.simps) (simp add: identContinues_ascii [OF r isIdentChar_ascii])
qed

lemma lower_start:
  assumes "isLowerAlpha c \<or> c = CHR ''_''"
  shows "c \<noteq> CHR '' ''" "c \<noteq> TAB" "c \<noteq> CR" "scanFrom gmp c s = Inl (lexIdentifier s)"
  using assms by (auto simp: isLowerAlpha_def less_eq_char_def scanFrom_def)

text \<open>
  A name is read whole and classified by the table: a word of ASCII letters, digits and
  underscores that starts with a lowercase letter or an underscore and ends where no such
  character follows is one token with that spelling; its type is \<open>Underscore\<close> for \<open>_\<close>, the
  keyword's where it is one, and \<open>LowerIdent\<close> otherwise.
\<close>
theorem name_is_one_token:
  assumes "rest_of s = (c # u) @ v" "isLowerAlpha c \<or> c = CHR ''_''" "list_all isIdentChar u"
    "ends_name v" "v = [] \<or> hd v \<noteq> CHR ''?''"
  shows "tok_value (fst (nextToken gmp s)) = c # u \<and>
    tok_endOffset (fst (nextToken gmp s)) = int (m_pos s + length (c # u)) \<and>
    tok_type (fst (nextToken gmp s)) =
      (if c # u = ''_'' then T_Underscore
       else case map_of keywordTable (c # u) of Some k \<Rightarrow> k | None \<Rightarrow> T_LowerIdent)"
proof -
  let ?t = "adv 1 (mark_start s)"
  have r: "rest_of s = c # (u @ v)" "rest_of ?t = u @ v"
    using assms(1) rest_adv [of "mark_start s" "[c]" "u @ v"] by simp_all
  have c: "at (m_source s) (m_pos s) = c" using rest_Cons(5) [OF r(1)] .
  let ?e = "adv (length u) ?t"
  have e: "rest_of ?e = v" using rest_adv [OF r(2)] .
  have i: "consumeIdentRest [at (m_source ?t) (m_pos ?t - 1)] ?t = (c # u, ?e)"
    using consumeIdentRest_rest [OF r(2) assms(3,4)] c by simp
  have q: "\<not> (\<not> atEnd ?e \<and> peek ?e = CHR ''?'')"
    unfolding at_end_rest peek_rest e using assms(5) by auto
  have "lexIdentifier ?t =
     (makeToken ?e (if c # u = ''_'' then T_Underscore
       else case map_of keywordTable (c # u) of Some k \<Rightarrow> k | None \<Rightarrow> T_LowerIdent) (c # u), ?e)"
    unfolding lexIdentifier_def Let_def i prod.case if_not_P [OF q]
    by (simp del: adv_add split: option.split)
  then have "fst (nextToken gmp s) = makeToken ?e (if c # u = ''_'' then T_Underscore
       else case map_of keywordTable (c # u) of Some k \<Rightarrow> k | None \<Rightarrow> T_LowerIdent) (c # u)"
    using nextToken_first [OF r(1) lower_start [OF assms(2)]] by simp
  then show ?thesis by (simp add: makeToken_def)
qed

theorem name_is_one_token_witness:
  "tok_type (fst (nextToken (\<lambda>_ _. None) (make_lexer ''let x'' ''f''))) = T_Let \<and>
   tok_type (fst (nextToken (\<lambda>_ _. None) (make_lexer ''lets'' ''f''))) = T_LowerIdent"
  using name_is_one_token [of "make_lexer ''let x'' ''f''" "CHR ''l''" "''et''" "'' x''" "\<lambda>_ _. None"]
    name_is_one_token [of "make_lexer ''lets'' ''f''" "CHR ''l''" "''ets''" "[]" "\<lambda>_ _. None"]
  by (simp add: make_lexer_def isLowerAlpha_def isIdentChar_def isAlpha_def isUpperAlpha_def isDigit_def
      less_eq_char_def ends_name_def keywordTable_def)

section \<open>Splices and the modulo operator\<close>

text \<open>
  \<open>%\<close> directly before a lowercase letter is modulo where the previous token can end an
  expression and starts a splice anywhere else; the splice takes the name that follows.
\<close>
theorem percent_is_splice_or_modulo:
  assumes "rest_of s = CHR ''%'' # u @ v" "u \<noteq> []" "isLowerAlpha (hd u)" "list_all isIdentChar u"
    "v = [] \<or> \<not> isIdentChar (hd v)"
  shows "tok_type (fst (nextToken gmp s)) =
      (if canEndExpression (m_prevType s) then T_Percent else T_SpliceIdent) \<and>
    tok_value (fst (nextToken gmp s)) = (if canEndExpression (m_prevType s) then [] else u) \<and>
    tok_endOffset (fst (nextToken gmp s)) =
      int (m_pos s) + 1 + (if canEndExpression (m_prevType s) then 0 else int (length u))"
proof -
  let ?t = "adv 1 (mark_start s)"
  have r: "rest_of ?t = u @ v"
    using assms(1) rest_adv [of "mark_start s" "[CHR ''%'']" "u @ v"] by simp
  obtain c w where u: "u = c # w" using assms(2) by (cases u) auto
  have p: "peek ?t = c" "at (m_source ?t) (m_pos ?t) = c" using rest_Cons [of ?t c "w @ v"] r u by simp_all
  have ne: "c \<noteq> CHR ''=''" using assms(3) u by (auto simp: isLowerAlpha_def less_eq_char_def)
  have m: "matchThen ?t (CHR ''='') (emit T_PercentEq) (emit T_Percent) = emit T_Percent ?t"
    using p(2) ne by (simp add: matchThen_def match_char_def)
  have "scanPercent ?t = (if canEndExpression (m_prevType s) then emit T_Percent ?t
      else (makeToken (adv (length u) ?t) T_SpliceIdent u, adv (length u) ?t))"
    using consume_while_rest [OF r assms(4,5)] p m assms(3) u
    by (simp add: scanPercent_def lexSpliceIdent_def)
  moreover have "scanFrom gmp (CHR ''%'') ?t = Inl (scanPercent ?t)"
    by (simp add: scanFrom_def isLowerAlpha_def isUpperAlpha_def isDigit_def less_eq_char_def
        uchar_def word_le_nat_alt scanSymbol_def scanOperator_def)
  ultimately have "fst (nextToken gmp s) = (if canEndExpression (m_prevType s) then fst (emit T_Percent ?t)
      else makeToken (adv (length u) ?t) T_SpliceIdent u)"
    using nextToken_first [OF assms(1), of gmp] by simp
  then show ?thesis by (simp add: makeToken_def emit_def)
qed

theorem percent_is_splice_or_modulo_witness:
  "tok_type (fst (nextToken (\<lambda>_ _. None) (make_lexer ''%y'' ''f''))) = T_SpliceIdent \<and>
   tok_type (fst (nextToken (\<lambda>_ _. None) ((make_lexer ''%y'' ''f'')\<lparr>m_prevType := T_LowerIdent\<rparr>))) = T_Percent"
  using percent_is_splice_or_modulo [of "make_lexer ''%y'' ''f''" "''y''" "[]" "\<lambda>_ _. None"]
    percent_is_splice_or_modulo [of "(make_lexer ''%y'' ''f'')\<lparr>m_prevType := T_LowerIdent\<rparr>" "''y''" "[]" "\<lambda>_ _. None"]
  by (simp add: make_lexer_def isLowerAlpha_def isIdentChar_def isAlpha_def isUpperAlpha_def isDigit_def
      less_eq_char_def canEndExpression_def)

section \<open>Strings\<close>

text \<open>The spelling of a string literal: a backslash before each byte that needs one.\<close>

definition quoteByte :: "char \<Rightarrow> string" where
  "quoteByte c = (if c = CHR 0x5C \<or> c = CHR 0x22 \<or> c = CHR ''$'' then [CHR 0x5C, c] else [c])"

definition quoteString :: "string \<Rightarrow> string" where
  "quoteString v = [CHR 0x22] @ concat (map quoteByte v) @ [CHR 0x22]"

primrec dollarsFrom :: "nat \<Rightarrow> string \<Rightarrow> nat list" where
  \<comment> \<open>the offsets of the dollars of a text that starts at an offset\<close>
  "dollarsFrom i [] = []"
| "dollarsFrom i (c # cs) = (if c = CHR ''$'' then i # dollarsFrom (i + 1) cs else dollarsFrom (i + 1) cs)"

lemma lexEscape_self:
  assumes "rest_of s = c # cs" "c = CHR 0x5C \<or> c = CHR 0x22 \<or> c = CHR ''$''"
  shows "lexEscape str s = (None, str @ [c], adv 1 s)"
  using assms(2) rest_Cons(1,3) [OF assms(1)] by (auto simp: lexEscape_def)

lemma string_loop_quoted:
  "rest_of s = concat (map quoteByte v) @ CHR 0x22 # w \<Longrightarrow>
     string_loop str dollars s =
       (Inr (str @ v, dollars @ dollarsFrom (length str) v), adv (length (concat (map quoteByte v))) s)"
proof (induction v arbitrary: s str dollars)
  case Nil
  then show ?case by (subst string_loop.simps) (simp add: peek_rest)
next
  case (Cons c v)
  show ?case
  proof (cases "c = CHR 0x5C \<or> c = CHR 0x22 \<or> c = CHR ''$''")
    case True
    let ?w = "concat (map quoteByte v) @ CHR 0x22 # w"
    have q: "quoteByte c = [CHR 0x5C, c]" using True by (simp add: quoteByte_def)
    have r: "rest_of s = CHR 0x5C # c # ?w" using Cons.prems q by simp
    have t: "rest_of (adv 1 s) = c # ?w" "snd (advance s) = adv 1 s"
      using rest_Cons(3,4) [OF r] by (simp_all add: adv_1)
    have u: "rest_of (adv 1 (adv 1 s)) = ?w" using rest_Cons(4) [OF t(1)] .
    have e: "lexEscape str (adv 1 s) = (None, str @ [c], adv 1 (adv 1 s))"
      by (rule lexEscape_self [OF t(1) True])
    have d: "\<not> atEnd (adv 1 s)" "peek (adv 1 s) = c" using rest_Cons(1,2) [OF t(1)] .
    have "string_loop str dollars s =
      string_loop (str @ [c]) (if c = CHR ''$'' then dollars @ [length str] else dollars) (adv 1 (adv 1 s))"
      unfolding string_loop.simps [of str dollars s]
      using rest_Cons(1,2) [OF r] d by (simp only: t(2) e Let_def if_True option.case prod.case) simp
    then show ?thesis
      using Cons.IH [OF u, of "str @ [c]"] q by simp
  next
    case False
    let ?w = "concat (map quoteByte v) @ CHR 0x22 # w"
    have q: "quoteByte c = [c]" using False by (simp add: quoteByte_def)
    have r: "rest_of s = c # ?w" using Cons.prems q by simp
    have "string_loop str dollars s = string_loop (str @ [c]) dollars (adv 1 s)"
      using rest_Cons(1-3) [OF r] False by (subst string_loop.simps) simp
    then show ?thesis
      using Cons.IH [OF rest_Cons(4) [OF r], of "str @ [c]"] q False by simp
  qed
qed

lemma scanFrom_quote: "scanFrom gmp (CHR 0x22) s = Inl (lexString s)"
  by (simp add: scanFrom_def isLowerAlpha_def isUpperAlpha_def isDigit_def less_eq_char_def
      uchar_def word_le_nat_alt scanSymbol_def scanOperator_def)

text \<open>
  C35: string literals can carry every byte string: putting a backslash before each backslash,
  double quote and dollar of \<open>v\<close> and quoting the result gives a literal the scanner reads as
  one \<open>String\<close> token with the value \<open>v\<close>, which records the offset of every dollar of \<open>v\<close> as
  escaped, so none of them starts an interpolation.
\<close>
theorem string_literal_roundtrip:
  "\<exists>t. fst (nextToken gmp (make_lexer (quoteString v @ w) filename)) = t \<and>
     tok_type t = T_String \<and> tok_value t = v \<and> tok_escapedDollars t = dollarsFrom 0 v \<and>
     tok_startOffset t = 0 \<and> tok_endOffset t = int (length (quoteString v))"
proof -
  let ?s = "make_lexer (quoteString v @ w) filename"
  let ?n = "length (concat (map quoteByte v))"
  let ?t = "adv 1 (mark_start ?s)"
  have r: "rest_of ?s = CHR 0x22 # concat (map quoteByte v) @ CHR 0x22 # w"
    by (simp add: quoteString_def)
  then have rt: "rest_of ?t = concat (map quoteByte v) @ CHR 0x22 # w"
    using rest_adv [of "mark_start ?s" "[CHR 0x22]"] by simp
  have e: "rest_of (adv ?n ?t) = CHR 0x22 # w" using rest_adv [OF rt] .
  have "lexString ?t = ((makeToken (adv 1 (adv ?n ?t)) T_String v)\<lparr>tok_escapedDollars := dollarsFrom 0 v\<rparr>,
      adv 1 (adv ?n ?t))"
    unfolding lexString_def string_loop_quoted [OF rt]
    using rest_Cons(1,3) [OF e] by (simp add: Let_def)
  then have "fst (nextToken gmp ?s) =
      (makeToken (adv 1 (adv ?n ?t)) T_String v)\<lparr>tok_escapedDollars := dollarsFrom 0 v\<rparr>"
    using nextToken_first [OF r _ _ _ scanFrom_quote] by simp
  then show ?thesis by (simp add: makeToken_def quoteString_def)
qed

section \<open>Escapes\<close>

definition scalar_value :: "char32 \<Rightarrow> bool" where
  "scalar_value cp \<longleftrightarrow> \<not> (cp > 0x10FFFF \<or> (cp \<ge> 0xD800 \<and> cp \<le> 0xDFFF))"

lemma encode_ascii: "cp < 0x80 \<Longrightarrow> encode cp = [mk_char cp]"
  by (auto simp: encode_def word_less_nat_alt word_le_nat_alt)

lemma char_is_encoded:
  "of_char c < (128::nat) \<Longrightarrow> \<exists>cp. scalar_value cp \<and> [c] = encode cp"
  by (rule exI [of _ "uchar c"])
    (auto simp: encode_ascii scalar_value_def word_less_nat_alt word_le_nat_alt unat_uchar)

lemma hexEscape_encodes:
  "lexHexEscape out s = (None, out', s') \<Longrightarrow> \<exists>cp. scalar_value cp \<and> out' = out @ encode cp"
proof -
  assume h: "lexHexEscape out s = (None, out', s')"
  then obtain n where n: "n \<le> 0x7F" "out' = out @ [mk_char (word_of_nat n)]"
    by (auto simp: lexHexEscape_def Let_def not_less split: prod.splits if_splits)
  have u: "unat (word_of_nat n :: char32) = n"
    using n(1) by (simp add: unsigned_of_nat take_bit_nat_eq_self)
  then show ?thesis
    using n by (intro exI [of _ "word_of_nat n"])
      (auto simp: encode_ascii scalar_value_def word_less_nat_alt word_le_nat_alt)
qed

lemma unicodeEscape_encodes:
  "lexUnicodeEscape out s = (None, out', s') \<Longrightarrow> \<exists>cp. scalar_value cp \<and> out' = out @ encode cp"
  unfolding scalar_value_def
  by (auto simp: lexUnicodeEscape_def Let_def split: prod.splits if_splits)

lemma failed_escape_keeps:
  "lexHexEscape out s = (Some e, out', s') \<Longrightarrow> out' = out"
  "lexUnicodeEscape out s = (Some e, out', s') \<Longrightarrow> out' = out"
  by (auto simp: lexHexEscape_def lexUnicodeEscape_def Let_def split: prod.splits if_splits)

text \<open>
  C36: an escape stands for exactly one Unicode scalar value: where \<open>lexEscape\<close> succeeds it has
  appended the UTF-8 bytes of one scalar value, so no escape can put half a sequence or a
  surrogate into a string; where it reports an error it has appended nothing.
\<close>
theorem escape_is_one_scalar_value:
  "case lexEscape out s of
     (None, out', s') \<Rightarrow> \<exists>cp. scalar_value cp \<and> out' = out @ encode cp
   | (Some e, out', s') \<Rightarrow> out' = out"
proof (cases "atEnd s")
  case False
  obtain c t where a: "advance s = (c, t)" by fastforce
  have ascii: "\<exists>cp. scalar_value cp \<and> out @ [d] = out @ encode cp" if "of_char d < (128::nat)" for d
    using char_is_encoded [OF that] by auto
  have hex: "case lexHexEscape out t of
     (None, out', s') \<Rightarrow> \<exists>cp. scalar_value cp \<and> out' = out @ encode cp | (Some e, out', s') \<Rightarrow> out' = out"
    using hexEscape_encodes failed_escape_keeps(1) by (auto split: prod.split option.split)
  have uni: "case lexUnicodeEscape out t of
     (None, out', s') \<Rightarrow> \<exists>cp. scalar_value cp \<and> out' = out @ encode cp | (Some e, out', s') \<Rightarrow> out' = out"
    using unicodeEscape_encodes failed_escape_keeps(2) by (auto split: prod.split option.split)
  show ?thesis
    using False ascii [of LF] ascii [of CR] ascii [of TAB] ascii [of "CHR 0x1B"] ascii [of NUL]
      ascii [of c] hex uni
    by (auto simp: lexEscape_def a)
qed (simp add: lexEscape_def)

section \<open>Raw literals\<close>

definition quoteRaw :: "string \<Rightarrow> string" where
  "quoteRaw v = [CHR 0x60] @ concat (map (\<lambda>c. if c = CHR 0x60 then [c, c] else [c]) v) @ [CHR 0x60]"

lemma raw_loop_quoted:
  assumes "rest_of s = concat (map (\<lambda>c. if c = CHR 0x60 then [c, c] else [c]) v) @ CHR 0x60 # w"
    "w = [] \<or> hd w \<noteq> CHR 0x60"
  shows "raw_loop False mode depth raw s =
    (Some (raw @ v), adv (length (concat (map (\<lambda>c. if c = CHR 0x60 then [c, c] else [c]) v)) + 1) s)"
  using assms(1)
proof (induction v arbitrary: s raw)
  case Nil
  then have r: "rest_of s = CHR 0x60 # w" by simp
  have "peekNext s \<noteq> CHR 0x60" using assms(2) r by (auto simp: peekNext_rest)
  then show ?case
    using rest_Cons(1-3) [OF r] by (subst raw_loop.simps) simp
next
  case (Cons c v)
  let ?q = "\<lambda>c. if c = CHR 0x60 then [c, c] else [c]"
  let ?w = "concat (map ?q v) @ CHR 0x60 # w"
  show ?case
  proof (cases "c = CHR 0x60")
    case True
    have r: "rest_of s = c # c # ?w" using Cons.prems True by simp
    have t: "rest_of (adv 1 s) = c # ?w" using rest_Cons(4) [OF r] .
    have a: "advance2 s = adv 2 s"
      using rest_Cons(3) [OF r] rest_Cons(3) [OF t] by (simp add: advance2_def numeral_2_eq_2)
    have u: "rest_of (adv 2 s) = ?w" using rest_Cons(4) [OF t] by (simp add: numeral_2_eq_2)
    have "raw_loop False mode depth raw s = raw_loop False mode depth (raw @ [c]) (adv 2 s)"
      using rest_Cons(1,2) [OF r] r True a by (subst raw_loop.simps) (simp add: peekNext_rest)
    then show ?thesis using Cons.IH [OF u, of "raw @ [c]"] True by simp
  next
    case False
    have r: "rest_of s = c # ?w" using Cons.prems False by simp
    have "raw_loop False mode depth raw s = raw_loop False mode depth (raw @ [c]) (adv 1 s)"
      using rest_Cons(1-3) [OF r] False by (subst raw_loop.simps) simp
    then show ?thesis using Cons.IH [OF rest_Cons(4) [OF r], of "raw @ [c]"] False by simp
  qed
qed

lemma scanFrom_backtick: "scanFrom gmp (CHR 0x60) s = Inl (lexRawString False s)"
  by (simp add: scanFrom_def isLowerAlpha_def isUpperAlpha_def isDigit_def less_eq_char_def
      uchar_def word_le_nat_alt scanSymbol_def scanOperator_def)

text \<open>
  C40: in a raw literal only the backtick is special: doubling the backticks of \<open>v\<close> and putting
  the result between backticks gives a literal whose value is \<open>v\<close> as \<open>dedentBlock\<close> leaves it,
  that is \<open>v\<close> itself unless it starts with a newline.  The literal ends at the last of these
  backticks, as long as no other backtick follows.
\<close>
theorem raw_literal_roundtrip:
  assumes "w = [] \<or> hd w \<noteq> CHR 0x60"
  shows "\<exists>t. fst (nextToken gmp (make_lexer (quoteRaw v @ w) filename)) = t \<and>
    tok_type t = T_RawString \<and> tok_value t = dedentBlock v \<and>
    tok_endOffset t = int (length (quoteRaw v))"
proof -
  let ?q = "concat (map (\<lambda>c. if c = CHR 0x60 then [c, c] else [c]) v)"
  let ?s = "make_lexer (quoteRaw v @ w) filename"
  let ?t = "adv 1 (mark_start ?s)"
  have r: "rest_of ?s = CHR 0x60 # ?q @ CHR 0x60 # w"
    by (simp add: quoteRaw_def)
  then have rt: "rest_of ?t = ?q @ CHR 0x60 # w"
    using rest_adv [of "mark_start ?s" "[CHR 0x60]"] by simp
  have "fst (nextToken gmp ?s) = makeToken (adv (length ?q + 1) ?t) T_RawString (dedentBlock v)"
    using nextToken_first [OF r _ _ _ scanFrom_backtick]
    unfolding lexRawString_def raw_loop_quoted [OF rt assms] by simp
  then show ?thesis by (simp add: makeToken_def quoteRaw_def)
qed

theorem raw_literal_roundtrip_witness:
  "tok_value (fst (nextToken (\<lambda>_ _. None) (make_lexer (quoteRaw [CHR ''a'', CHR 0x60] @ '';'') ''f''))) =
     [CHR ''a'', CHR 0x60]"
  using raw_literal_roundtrip [of "'';''" "\<lambda>_ _. None" "[CHR ''a'', CHR 0x60]" "''f''"]
  by (simp add: dedentBlock_def)

section \<open>Numbers\<close>

lemma digit_start:
  assumes "isDigit c"
  shows "c \<noteq> CHR '' ''" "c \<noteq> TAB" "c \<noteq> CR" "scanFrom gmp c s = Inl (lexNumber gmp s)"
proof -
  have o: "48 \<le> (of_char c :: nat)" "of_char c \<le> (57 :: nat)"
    using assms by (simp_all add: isDigit_def less_eq_char_def)
  then show "c \<noteq> CHR '' ''" "c \<noteq> TAB" "c \<noteq> CR" by auto
  have "\<not> isLowerAlpha c" "c \<noteq> CHR ''_''" "\<not> isUpperAlpha c" "\<not> uchar c \<ge> 0x80"
    using o by (auto simp: isLowerAlpha_def isUpperAlpha_def less_eq_char_def word_le_nat_alt unat_uchar)
  then show "scanFrom gmp c s = Inl (lexNumber gmp s)"
    using assms by (simp add: scanFrom_def)
qed

definition ends_number :: "string \<Rightarrow> bool" where
  "ends_number v \<longleftrightarrow> v = [] \<or>
     (\<not> isHexDigit (hd v) \<and> hd v \<noteq> CHR ''_'' \<and> hd v \<noteq> CHR ''.'' \<and> \<not> isRadixMarker (hd v))"

lemma ends_number_stops:
  assumes "rest_of s = v" "ends_number v"
  shows "lexFraction num s = (False, num, s)" "lexExponent f num s = (f, num, s)"
    "v = [] \<or> \<not> isDigit (hd v) \<and> hd v \<noteq> CHR ''_''" "v = [] \<or> \<not> isHexDigit (hd v) \<and> hd v \<noteq> CHR ''_''"
proof -
  have p: "peek s \<noteq> CHR ''.''" "peek s \<noteq> CHR ''e''" "peek s \<noteq> CHR ''E''"
    using assms by (auto simp: peek_rest ends_number_def isHexDigit_def less_eq_char_def)
  then show "lexFraction num s = (False, num, s)" "lexExponent f num s = (f, num, s)"
    by (simp_all add: lexFraction_def lexExponent_def hasExponent_def)
  show "v = [] \<or> \<not> isDigit (hd v) \<and> hd v \<noteq> CHR ''_''" "v = [] \<or> \<not> isHexDigit (hd v) \<and> hd v \<noteq> CHR ''_''"
    using assms(2) by (auto simp: ends_number_def isHexDigit_def)
qed

lemma not_underscore: "\<not> isDigit (CHR ''_'')" "\<not> isHexDigit (CHR ''_'')"
  by (simp_all add: isDigit_def isHexDigit_def less_eq_char_def)

lemma digits_no_marker: "isDigit c \<or> c = CHR ''_'' \<Longrightarrow> \<not> isRadixMarker c"
  by (auto simp: isDigit_def isRadixMarker_def less_eq_char_def)

text \<open>
  A decimal integer is read whole, with its underscores dropped: a digit followed by
  digits and underscores, ending where no hexadecimal digit, underscore, point or radix letter
  follows, is one \<open>Integer\<close> token whose value is the digits.
\<close>
theorem decimal_integer_token:
  assumes "rest_of s = (d # u) @ v" "isDigit d" "list_all (\<lambda>c. isDigit c \<or> c = CHR ''_'') u"
    "ends_number v"
  shows "tok_type (fst (nextToken gmp s)) = T_Integer \<and>
    tok_value (fst (nextToken gmp s)) = filter (\<lambda>c. c \<noteq> CHR ''_'') (d # u) \<and>
    tok_endOffset (fst (nextToken gmp s)) = int (m_pos s + length (d # u))"
proof -
  let ?t = "adv 1 (mark_start s)"
  let ?e = "adv (length u) ?t"
  have r: "rest_of s = d # (u @ v)" "rest_of ?t = u @ v"
    using assms(1) rest_adv [of "mark_start s" "[d]" "u @ v"] by simp_all
  have d: "at (m_source ?t) (m_pos ?t - 1) = d" using rest_Cons(5) [OF r(1)] by simp
  have e: "rest_of ?e = v" using rest_adv [OF r(2)] .
  note stop = ends_number_stops [OF e assms(4)]
  have "\<not> isRadixMarker (peek ?t)"
  proof (cases u)
    case Nil
    then show ?thesis
      using assms(4) unfolding peek_rest r(2) by (auto simp: ends_number_def isRadixMarker_def)
  next
    case (Cons c w)
    then show ?thesis
      using assms(3) digits_no_marker unfolding peek_rest r(2) by auto
  qed
  then have "lexNumber gmp ?t =
      (makeToken ?e T_Integer (d # filter (\<lambda>c. c \<noteq> CHR ''_'') u), ?e)"
    unfolding lexNumber_def Let_def d consume_digits_rest [OF r(2) assms(3) stop(3) not_underscore(1)]
    using stop(1,2) by simp
  moreover have "d \<noteq> CHR ''_''" using assms(2) not_underscore(1) by auto
  ultimately show ?thesis
    using nextToken_first [OF r(1) digit_start [OF assms(2)]] by (simp add: makeToken_def)
qed

theorem decimal_integer_token_witness:
  "tok_value (fst (nextToken (\<lambda>_ _. None) (make_lexer ''1_000 + x'' ''f''))) = ''1000''"
  using decimal_integer_token [of "make_lexer ''1_000 + x'' ''f''" "CHR ''1''" "''_000''" "'' + x''" "\<lambda>_ _. None"]
  by (simp add: make_lexer_def isDigit_def isHexDigit_def ends_number_def isRadixMarker_def less_eq_char_def)

definition radix_of :: "char \<Rightarrow> nat" where
  "radix_of m = (if m = CHR ''x'' \<or> m = CHR ''X'' then 16
                 else if m = CHR ''o'' \<or> m = CHR ''O'' then 8 else 2)"

lemma radix_markers:
  "list_all (\<lambda>m. (if tolower m = CHR ''x'' then 16 else if tolower m = CHR ''o'' then 8 else 2) = radix_of m)
     ''xXbBoO''"
  by code_simp

lemma tolower_marker:
  "isRadixMarker m \<Longrightarrow> (if tolower m = CHR ''x'' then 16 else if tolower m = CHR ''o'' then 8 else 2) = radix_of m"
  using radix_markers by (auto simp: isRadixMarker_def)

definition radix_value :: "(string \<Rightarrow> nat \<Rightarrow> string option) \<Rightarrow> char \<Rightarrow> string \<Rightarrow> string option" where
  "radix_value gmp m u =
     (let digits = filter (\<lambda>c. c \<noteq> CHR ''_'') u
      in if digits = [] then None else gmp digits (radix_of m))"

lemma lexRadix_result:
  assumes "isRadixMarker (peek t)" "consume_digits isHexDigit [] (snd (advance t)) = (digits, e)"
  shows "\<exists>message. fst (lexRadix gmp t) =
    (case (if digits = [] then None else gmp digits (radix_of (peek t))) of
       Some x \<Rightarrow> makeToken e T_Integer x
     | None \<Rightarrow> errorToken e message)"
  unfolding lexRadix_def Let_def tolower_marker [OF assms(1)] assms(2)
  by (auto split: option.split)

text \<open>
  A radix literal carries its decimal spelling: a zero, a radix letter in either case and the
  hexadecimal digits and underscores after it are one token, an \<open>Integer\<close> with the value GMP
  reads the digits as in the letter's base, and an error where there is no digit or GMP
  rejects one.
\<close>
theorem radix_integer_token:
  assumes "rest_of s = CHR ''0'' # m # u @ v" "isRadixMarker m"
    "list_all (\<lambda>c. isHexDigit c \<or> c = CHR ''_'') u" "ends_number v"
  shows "tok_type (fst (nextToken gmp s)) =
      (if radix_value gmp m u = None then T_Error else T_Integer) \<and>
    (case radix_value gmp m u of Some x \<Rightarrow> tok_value (fst (nextToken gmp s)) = x | None \<Rightarrow> True) \<and>
    tok_endOffset (fst (nextToken gmp s)) = int (m_pos s + 2 + length u)"
proof -
  let ?t = "adv 1 (mark_start s)"
  let ?e = "adv (length u) (adv 1 ?t)"
  have z: "isDigit (CHR ''0'')" by (simp add: isDigit_def)
  have r: "rest_of s = CHR ''0'' # (m # u @ v)" "rest_of ?t = m # (u @ v)"
    using assms(1) rest_adv [of "mark_start s" "[CHR ''0'']" "m # u @ v"] by simp_all
  have d: "at (m_source ?t) (m_pos ?t - 1) = CHR ''0''" using rest_Cons(5) [OF r(1)] by simp
  note t = rest_Cons [OF r(2)]
  have e: "rest_of ?e = v" using rest_adv [OF t(4)] .
  note stop = ends_number_stops [OF e assms(4)]
  have c: "consume_digits isHexDigit [] (snd (advance ?t)) = (filter (\<lambda>c. c \<noteq> CHR ''_'') u, ?e)"
    using consume_digits_rest [OF t(4) assms(3) stop(4) not_underscore(2), of "[]"] t(3)
    by simp
  have l: "lexNumber gmp ?t = lexRadix gmp ?t"
    using assms(2) t(2) d unfolding lexNumber_def Let_def by simp
  have f: "fst (nextToken gmp s) = fst (lexRadix gmp ?t)"
    using nextToken_first [OF r(1) digit_start [OF z]] l by simp
  have "\<exists>message. fst (nextToken gmp s) =
    (case radix_value gmp m u of Some x \<Rightarrow> makeToken ?e T_Integer x | None \<Rightarrow> errorToken ?e message)"
    using lexRadix_result [OF _ c, of gmp] assms(2)
    unfolding f t(2) radix_value_def Let_def by blast
  then show ?thesis
    by (cases "radix_value gmp m u") (auto simp: makeToken_def errorToken_def)
qed

theorem radix_integer_token_witness:
  "tok_value (fst (nextToken (\<lambda>ds b. if ds = ''ff'' \<and> b = 16 then Some ''255'' else None)
     (make_lexer ''0xf_f;'' ''f''))) = ''255''"
  using radix_integer_token [of "make_lexer ''0xf_f;'' ''f''" "CHR ''x''" "''f_f''" "'';''"
    "\<lambda>ds b. if ds = ''ff'' \<and> b = 16 then Some ''255'' else None"]
  by (simp add: make_lexer_def isDigit_def isHexDigit_def ends_number_def isRadixMarker_def
      radix_value_def radix_of_def less_eq_char_def)

section \<open>Bytes that are not UTF-8\<close>

lemma sequenceLength_lone: "sequenceLength [b] 0 = 1"
  by (simp add: sequenceLength_def leadWidth_def Let_def)

lemma lone_codepoint: "m_source s = [b] \<Longrightarrow> identCodepointAt s 0 = (uchar b, 1)"
  by (simp add: identCodepointAt_def sequenceLength_lone decode_singleton)

text \<open>
  A byte that is not UTF-8 is taken for the codepoint of the same number: a source of one
  byte above \<open>0x7F\<close> is a name whenever that codepoint is a letter, of the kind its case
  says, and an error only otherwise.
\<close>
theorem lone_byte_token:
  assumes "128 \<le> (of_char b :: nat)"
  shows "tok_type (fst (nextToken gmp (make_lexer [b] filename))) =
    (if inRanges letterRanges (uchar b)
     then if inRanges upperRanges (uchar b) then T_UpperIdent else T_LowerIdent
     else T_Error)"
proof -
  let ?s = "make_lexer [b] filename"
  let ?t = "adv 1 (mark_start ?s)"
  have r: "rest_of ?s = b # []" "rest_of ?t = []" by simp_all
  have n: "b \<noteq> CHR '' ''" "b \<noteq> TAB" "b \<noteq> CR" using assms by auto
  have f: "\<not> (isLowerAlpha b \<or> b = CHR ''_'')" "\<not> isUpperAlpha b" "\<not> isDigit b" "uchar b \<ge> 0x80"
    using assms by (auto simp: isLowerAlpha_def isUpperAlpha_def isDigit_def less_eq_char_def
        word_le_nat_alt unat_uchar)
  have c: "identCodepointAt ?t (m_pos ?t - 1) = (uchar b, 1)"
    using lone_codepoint [of ?t b] by simp
  have e: "consumeIdentRest [b] ?t = ([b], ?t)"
    using r(2) by (subst consumeIdentRest.simps) (simp add: at_end_rest)
  have ascii: "b \<noteq> d" if "of_char d < (128 :: nat)" for d using assms that by auto
  have sym: "scanSymbol b ?t = Inl (emitError (''Unexpected character: '' @ [b]) ?t)"
    by (simp add: scanSymbol_def scanOperator_def ascii)
  have "scanFrom gmp b ?t =
     Inl (if inRanges letterRanges (uchar b)
          then (makeToken ?t (if inRanges upperRanges (uchar b) then T_UpperIdent else T_LowerIdent) [b], ?t)
          else emitError (''Unexpected character: '' @ [b]) ?t)"
    using f sym unfolding scanFrom_def lexNonAscii_def c Let_def
    by (simp add: e del: One_nat_def)
  from nextToken_first [OF r(1) n this] show ?thesis
    by (simp add: emitError_def errorToken_def)
qed

theorem lone_byte_token_witness:
  "tok_type (fst (nextToken (\<lambda>_ _. None) (make_lexer [CHR 0xE9] ''f''))) = T_LowerIdent"
proof -
  have "inRanges letterRanges (uchar (CHR 0xE9))" "\<not> inRanges upperRanges (uchar (CHR 0xE9))"
    by code_simp+
  then show ?thesis using lone_byte_token [of "CHR 0xE9" "\<lambda>_ _. None" "''f''"] by simp
qed

end
