(* ===== verification/Bytes.thy ===== *)
theory Bytes
  imports KexPrelude
begin

text \<open>
  Big-endian integers in byte vectors, as \<open>src/src/beam/etf.cxx\<close> and
  \<open>src/src/beam/beam_file.cxx\<close> write and read them, and the interface both formats rest on: a
  \<open>codec\<close> is a writer and a reader where reading takes exactly what was written off the front
  of the input.  The state of \<open>struct Decoder\<close> is the list of bytes it has not read, so
  \<open>remaining()\<close> is its length.
\<close>

section \<open>Writing\<close>

definition put8 :: "u8 \<Rightarrow> u8 list" where
  "put8 v = [v]"

definition put16 :: "u16 \<Rightarrow> u8 list" where
  "put16 v = [ucast (drop_bit 8 v), ucast v]"

definition put32 :: "u32 \<Rightarrow> u8 list" where
  "put32 v = [ucast (drop_bit 24 v), ucast (drop_bit 16 v), ucast (drop_bit 8 v), ucast v]"

definition put64 :: "u64 \<Rightarrow> u8 list" where
  "put64 v = put32 (ucast (drop_bit 32 v)) @ put32 (ucast v)"

section \<open>Reading\<close>

datatype EtfError =
    UnexpectedEnd
  | UnsupportedTag u8
  | TooShort
  | UnsupportedVersion u8
  | OutOfFuel

type_synonym 'a read = "EtfError + 'a \<times> u8 list"

fun read8 :: "u8 list \<Rightarrow> u8 read" where
  "read8 [] = Inl UnexpectedEnd"
| "read8 (b # bs) = Inr (b, bs)"

definition read16 :: "u8 list \<Rightarrow> u16 read" where
  "read16 bs =
     (if length bs < 2 then Inl UnexpectedEnd
      else Inr (push_bit 8 (ucast (bs ! 0)) OR ucast (bs ! 1), drop 2 bs))"

definition be32 :: "u8 \<Rightarrow> u8 \<Rightarrow> u8 \<Rightarrow> u8 \<Rightarrow> u32" where
  "be32 a b c d =
     push_bit 24 (ucast a) OR push_bit 16 (ucast b) OR push_bit 8 (ucast c) OR ucast d"

definition read32 :: "u8 list \<Rightarrow> u32 read" where
  "read32 bs =
     (if length bs < 4 then Inl UnexpectedEnd
      else Inr (be32 (bs ! 0) (bs ! 1) (bs ! 2) (bs ! 3), drop 4 bs))"

definition read64 :: "u8 list \<Rightarrow> u64 read" where
  \<comment> \<open>the high half first: the source leaves the order of its two calls to the compiler\<close>
  "read64 bs =
     sum_bind (read32 bs) (\<lambda>(hi, bs).
       sum_bind (read32 bs) (\<lambda>(lo, bs). Inr (push_bit 32 (ucast hi) OR ucast lo, bs)))"

definition readBytes :: "nat \<Rightarrow> u8 list \<Rightarrow> u8 list read" where
  "readBytes n bs = (if length bs < n then Inl UnexpectedEnd else Inr (take n bs, drop n bs))"

definition readString :: "nat \<Rightarrow> u8 list \<Rightarrow> string read" where
  "readString n bs =
     (if length bs < n then Inl UnexpectedEnd else Inr (map char_of_byte (take n bs), drop n bs))"

primrec repeatM :: "nat \<Rightarrow> (u8 list \<Rightarrow> 'a read) \<Rightarrow> u8 list \<Rightarrow> 'a list read" where
  \<comment> \<open>\<open>for (i = 0; i < n; i++) elems.push_back(get());\<close>\<close>
  "repeatM 0 get bs = Inr ([], bs)"
| "repeatM (Suc n) get bs =
     sum_bind (get bs) (\<lambda>(x, bs).
       sum_bind (repeatM n get bs) (\<lambda>(xs, bs). Inr (x # xs, bs)))"

section \<open>Putting the bytes back together\<close>

lemma be32_put: "be32 (ucast (drop_bit 24 v)) (ucast (drop_bit 16 v)) (ucast (drop_bit 8 v)) (ucast v) = v"
proof (rule bit_eqI)
  fix n assume "possible_bit TYPE(u32) n"
  then have n: "n < 32" by simp
  have u: "bit (ucast w :: u32) i \<longleftrightarrow> i < 8 \<and> bit w i" for w :: u8 and i
    by (auto simp: bit_simps dest: bit_imp_possible_bit)
  have d: "bit (ucast w :: u8) i \<longleftrightarrow> i < 8 \<and> bit w i" for w :: u32 and i
    by (auto simp: bit_simps)
  consider "n < 8" | "8 \<le> n" "n < 16" | "16 \<le> n" "n < 24" | "24 \<le> n" "n < 32" using n by linarith
  then show "bit (be32 (ucast (drop_bit 24 v)) (ucast (drop_bit 16 v)) (ucast (drop_bit 8 v)) (ucast v)) n = bit v n"
    by cases (use n in \<open>auto simp: be32_def bit_or_iff bit_push_bit_iff u d bit_drop_bit_eq\<close>)
qed

lemma be16_put: "push_bit 8 (ucast (ucast (drop_bit 8 v) :: u8)) OR ucast (ucast v :: u8) = (v :: u16)"
proof (rule bit_eqI)
  fix n assume "possible_bit TYPE(u16) n"
  then have n: "n < 16" by simp
  have u: "bit (ucast w :: u16) i \<longleftrightarrow> i < 8 \<and> bit w i" for w :: u8 and i
    by (auto simp: bit_simps dest: bit_imp_possible_bit)
  have d: "bit (ucast w :: u8) i \<longleftrightarrow> i < 8 \<and> bit w i" for w :: u16 and i
    by (auto simp: bit_simps)
  show "bit (push_bit 8 (ucast (ucast (drop_bit 8 v) :: u8)) OR ucast (ucast v :: u8) :: u16) n = bit v n"
    using n by (auto simp: bit_or_iff bit_push_bit_iff u d bit_drop_bit_eq)
qed

lemma be64_put: "push_bit 32 (ucast (ucast (drop_bit 32 v) :: u32)) OR ucast (ucast v :: u32) = (v :: u64)"
proof (rule bit_eqI)
  fix n assume "possible_bit TYPE(u64) n"
  then have n: "n < 64" by simp
  have u: "bit (ucast w :: u64) i \<longleftrightarrow> i < 32 \<and> bit w i" for w :: u32 and i
    by (auto simp: bit_simps dest: bit_imp_possible_bit)
  have d: "bit (ucast w :: u32) i \<longleftrightarrow> i < 32 \<and> bit w i" for w :: u64 and i
    by (auto simp: bit_simps)
  show "bit (push_bit 32 (ucast (ucast (drop_bit 32 v) :: u32)) OR ucast (ucast v :: u32) :: u64) n = bit v n"
    using n by (auto simp: bit_or_iff bit_push_bit_iff u d bit_drop_bit_eq)
qed

section \<open>Codecs\<close>

text \<open>
  A writer \<open>put\<close> and a reader \<open>get\<close> of the values \<open>ok\<close>, with \<open>view x\<close> the value read back
  for \<open>x\<close>.
\<close>

locale codec =
  fixes put :: "'a \<Rightarrow> u8 list"
    and get :: "u8 list \<Rightarrow> 'b read"
    and view :: "'a \<Rightarrow> 'b"
    and ok :: "'a \<Rightarrow> bool"
  assumes get_put: "ok x \<Longrightarrow> get (put x @ rest) = Inr (view x, rest)"
begin

lemma get_put_alone: "ok x \<Longrightarrow> get (put x) = Inr (view x, [])"
  using get_put [of x "[]"] by simp

lemma repeat_get:
  "list_all ok xs \<Longrightarrow> repeatM (length xs) get (concat (map put xs) @ rest) = Inr (map view xs, rest)"
  by (induction xs) (simp_all add: get_put)

lemma put_injective: "ok x \<Longrightarrow> ok y \<Longrightarrow> put x @ r = put y @ r' \<Longrightarrow> view x = view y \<and> r = r'"
  using get_put [of x r] get_put [of y r'] by simp

end

interpretation c8: codec put8 read8 "\<lambda>v. v" "\<lambda>v. True"
  by unfold_locales (simp add: put8_def)

interpretation c16: codec put16 read16 "\<lambda>v. v" "\<lambda>v. True"
  by unfold_locales (simp add: put16_def read16_def be16_put)

interpretation c32: codec put32 read32 "\<lambda>v. v" "\<lambda>v. True"
  by unfold_locales (simp add: put32_def read32_def be32_put)

interpretation c64: codec put64 read64 "\<lambda>v. v" "\<lambda>v. True"
  by unfold_locales (simp add: put64_def read64_def c32.get_put be64_put)

section \<open>Reading only shortens the input\<close>

definition suffix_of :: "u8 list \<Rightarrow> 'a read \<Rightarrow> bool" where
  \<comment> \<open>a successful read leaves a suffix of its input\<close>
  "suffix_of bs r = (case r of Inl e \<Rightarrow> True | Inr (x, bs') \<Rightarrow> \<exists>pre. bs = pre @ bs')"

lemma suffix_of_simps [simp]: "suffix_of bs (Inl e)" "suffix_of bs (Inr (x, drop n bs))"
  "suffix_of bs (Inr (x, bs))"
  by (auto simp: suffix_of_def intro: exI [of _ "take n bs"])

lemma suffix_of_bind:
  assumes "suffix_of bs r" "\<And>x bs'. r = Inr (x, bs') \<Longrightarrow> suffix_of bs' (f (x, bs'))"
  shows "suffix_of bs (sum_bind r f)"
proof (cases r)
  case (Inr p)
  obtain x bs' where p: "p = (x, bs')" by fastforce
  obtain pre where n: "bs = pre @ bs'" using assms(1) Inr p by (auto simp: suffix_of_def)
  have "suffix_of bs' (f (x, bs'))" using assms(2) Inr p by blast
  then show ?thesis
    using Inr p n by (cases "f (x, bs')") (auto simp: suffix_of_def)
qed simp

lemma suffix_of_reads:
  "suffix_of bs (read8 bs)" "suffix_of bs (read16 bs)" "suffix_of bs (read32 bs)"
  "suffix_of bs (readBytes n bs)" "suffix_of bs (readString n bs)"
proof -
  show "suffix_of bs (read8 bs)" by (cases bs) (simp_all add: suffix_of_def)
qed (simp_all add: read16_def read32_def readBytes_def readString_def)

lemma suffix_of_read64: "suffix_of bs (read64 bs)"
  unfolding read64_def by (auto intro!: suffix_of_bind suffix_of_reads)

lemma suffix_of_repeatM:
  "(\<And>bs. suffix_of bs (get bs)) \<Longrightarrow> suffix_of bs (repeatM n get bs)"
proof (induction n arbitrary: bs)
  case 0
  then show ?case by simp
next
  case (Suc n)
  then show ?case by (auto intro!: suffix_of_bind)
qed

lemma suffix_of_length: "suffix_of bs r \<Longrightarrow> r = Inr (x, bs') \<Longrightarrow> length bs' \<le> length bs"
  by (auto simp: suffix_of_def)

end
