(* ===== verification/Etf.thy ===== *)
theory Etf
  imports Bytes "HOL-Library.Log_Nat"
begin

text \<open>
  The External Term Format of \<open>src/src/beam/etf.cxx\<close>: the term tree, its accessors, the encoder
  and the decoder.  A \<open>double\<close> is its 64 bits, which is all \<open>memcpy\<close> moves; an \<open>int64_t\<close> a
  64-bit word read with \<open>sint\<close>; an \<open>mpz_class\<close> an \<open>int\<close>, with \<open>mpz_sizeinbase(m, 2)\<close> the
  parameter \<open>sizeinbase2\<close>.  The decoder recurses on the terms inside a term; its fuel bounds
  the nesting, and as many units as there are bytes are always enough.  The theorems give the
  round trip, its termination on every input, and what becomes of an atom too long for its
  length field.
\<close>

section \<open>Terms\<close>

datatype Term =
    TAtom string
  | TInt u64
  | TBigInt int
  | TFloat u64
  | TBin "u8 list"
  | TTuple "Term list"
  | TList "Term list"
  | TMap "(Term \<times> Term) list"
  | TNil

text \<open>\<open>std::get\<close> throws \<open>std::bad_variant_access\<close> on another alternative, here \<open>None\<close>.\<close>

fun isAtom :: "Term \<Rightarrow> bool" where
  "isAtom (TAtom name) = True"
| "isAtom t = False"

fun isAtomNamed :: "Term \<Rightarrow> string \<Rightarrow> bool" where
  "isAtomNamed (TAtom a) name = (a = name)"
| "isAtomNamed t name = False"

fun asAtom :: "Term \<Rightarrow> string option" where
  "asAtom (TAtom a) = Some a"
| "asAtom t = None"

fun asInt :: "Term \<Rightarrow> u64 option" where
  "asInt (TInt v) = Some v"
| "asInt t = None"

fun asBigInt :: "Term \<Rightarrow> int option" where
  "asBigInt (TBigInt v) = Some v"
| "asBigInt t = None"

fun asFloat :: "Term \<Rightarrow> u64 option" where
  "asFloat (TFloat v) = Some v"
| "asFloat t = None"

fun asBinary :: "Term \<Rightarrow> u8 list option" where
  "asBinary (TBin d) = Some d"
| "asBinary t = None"

definition asBinaryStr :: "Term \<Rightarrow> string option" where
  "asBinaryStr t = map_option (map char_of_byte) (asBinary t)"

fun asTuple :: "Term \<Rightarrow> Term list option" where
  "asTuple (TTuple es) = Some es"
| "asTuple t = None"

fun asList :: "Term \<Rightarrow> Term list option" where
  "asList TNil = Some []"
| "asList (TList es) = Some es"
| "asList t = None"

fun asMap :: "Term \<Rightarrow> (Term \<times> Term) list option" where
  "asMap TNil = Some []"
| "asMap (TMap ps) = Some ps"
| "asMap t = None"

fun mapGet :: "Term \<Rightarrow> string \<Rightarrow> Term option" where
  \<comment> \<open>\<open>nullptr\<close> where there is no such key\<close>
  "mapGet (TMap ps) key = map_option snd (find (\<lambda>(k, v). isAtomNamed k key) ps)"
| "mapGet t key = None"

section \<open>Encoding\<close>

primrec bigBytes :: "nat \<Rightarrow> int \<Rightarrow> u8 list" where
  \<comment> \<open>\<open>mpz_get_ui(magnitude) & 0xff\<close> and \<open>magnitude >>= 8\<close>, \<open>count\<close> times\<close>
  "bigBytes 0 magnitude = []"
| "bigBytes (Suc n) magnitude = put8 (word_of_int magnitude) @ bigBytes n (drop_bit 8 magnitude)"

definition bigCount :: "(int \<Rightarrow> nat) \<Rightarrow> int \<Rightarrow> nat" where
  "bigCount sizeinbase2 v =
     (let magnitude = (if v < 0 then - v else v)
      in if magnitude = 0 then 1 else (sizeinbase2 magnitude + 7) div 8)"

definition encodeBigInt :: "(int \<Rightarrow> nat) \<Rightarrow> int \<Rightarrow> u8 list" where
  "encodeBigInt sizeinbase2 v =
     (let magnitude = (if v < 0 then - v else v);
          count = bigCount sizeinbase2 v
      in (if count \<le> 255 then put8 110 @ put8 (of_nat count)
          else put8 111 @ put32 (of_nat count)) @
         put8 (if v < 0 then 1 else 0) @ bigBytes count magnitude)"

fun encodeTerm :: "(int \<Rightarrow> nat) \<Rightarrow> Term \<Rightarrow> u8 list" where
  "encodeTerm sz (TAtom name) =
     (if length name \<le> 255 then put8 119 @ put8 (of_nat (length name))
      else put8 118 @ put16 (of_nat (length name))) @ map byte_of_char name"
| "encodeTerm sz (TInt v) =
     (if sint v \<ge> 0 \<and> sint v \<le> 255 then put8 97 @ put8 (ucast v)
      else if sint v \<ge> - (2 ^ 31) \<and> sint v \<le> 2 ^ 31 - 1 then put8 98 @ put32 (ucast v)
      else encodeBigInt sz (sint v))"
| "encodeTerm sz (TBigInt v) = encodeBigInt sz v"
| "encodeTerm sz (TFloat bits) = put8 70 @ put64 bits"
| "encodeTerm sz (TBin d) = put8 109 @ put32 (of_nat (length d)) @ d"
| "encodeTerm sz (TTuple es) =
     (if length es \<le> 255 then put8 104 @ put8 (of_nat (length es))
      else put8 105 @ put32 (of_nat (length es))) @ concat (map (encodeTerm sz) es)"
| "encodeTerm sz (TList es) =
     (if es = [] then put8 106
      else put8 108 @ put32 (of_nat (length es)) @ concat (map (encodeTerm sz) es) @ put8 106)"
| "encodeTerm sz (TMap ps) =
     put8 116 @ put32 (of_nat (length ps)) @
     concat (map (\<lambda>(k, v). encodeTerm sz k @ encodeTerm sz v) ps)"
| "encodeTerm sz TNil = put8 106"

definition encodeEtf :: "(int \<Rightarrow> nat) \<Rightarrow> Term \<Rightarrow> u8 list" where
  "encodeEtf sz t = [131] @ encodeTerm sz t"

section \<open>Decoding\<close>

primrec readBig_loop :: "nat \<Rightarrow> nat \<Rightarrow> int \<Rightarrow> u8 list \<Rightarrow> int read" where
  "readBig_loop 0 i v bs = Inr (v, bs)"
| "readBig_loop (Suc n) i v bs =
     sum_bind (read8 bs) (\<lambda>(b, bs). readBig_loop n (i + 1) (v + push_bit (8 * i) (uint b)) bs)"

definition readBig :: "nat \<Rightarrow> u8 list \<Rightarrow> Term read" where
  "readBig count bs =
     sum_bind (read8 bs) (\<lambda>(sign, bs).
       sum_bind (readBig_loop count 0 0 bs) (\<lambda>(v, bs).
         let v = (if sign \<noteq> 0 then - v else v)
         in Inr (if v \<ge> -9223372036854775808 \<and> v \<le> 9223372036854775807
                 then TInt (word_of_int v) else TBigInt v, bs)))"

definition readAtom :: "nat \<Rightarrow> u8 list \<Rightarrow> Term read" where
  "readAtom n bs = sum_bind (readString n bs) (\<lambda>(s, bs). Inr (TAtom s, bs))"

definition readPair :: "(u8 list \<Rightarrow> Term read) \<Rightarrow> u8 list \<Rightarrow> (Term \<times> Term) read" where
  "readPair get bs =
     sum_bind (get bs) (\<lambda>(k, bs). sum_bind (get bs) (\<lambda>(v, bs). Inr ((k, v), bs)))"

definition decodeBody :: "(u8 list \<Rightarrow> Term read) \<Rightarrow> u8 \<Rightarrow> u8 list \<Rightarrow> Term read" where
  \<comment> \<open>the switch of \<open>decodeTerm\<close>, \<open>get\<close> its recursive call\<close>
  "decodeBody get tag bs =
     (if tag = 97 then sum_bind (read8 bs) (\<lambda>(b, bs). Inr (TInt (ucast b), bs))
      else if tag = 98 then sum_bind (read32 bs) (\<lambda>(raw, bs). Inr (TInt (signed raw), bs))
      else if tag = 70 then sum_bind (read64 bs) (\<lambda>(bits, bs). Inr (TFloat bits, bs))
      else if tag = 110 then sum_bind (read8 bs) (\<lambda>(n, bs). readBig (unat n) bs)
      else if tag = 111 then sum_bind (read32 bs) (\<lambda>(n, bs). readBig (unat n) bs)
      else if tag = 100 then sum_bind (read16 bs) (\<lambda>(n, bs). readAtom (unat n) bs)
      else if tag = 115 then sum_bind (read8 bs) (\<lambda>(n, bs). readAtom (unat n) bs)
      else if tag = 118 then sum_bind (read16 bs) (\<lambda>(n, bs). readAtom (unat n) bs)
      else if tag = 119 then sum_bind (read8 bs) (\<lambda>(n, bs). readAtom (unat n) bs)
      else if tag = 104 then
        sum_bind (read8 bs) (\<lambda>(n, bs).
          sum_bind (repeatM (unat n) get bs) (\<lambda>(es, bs). Inr (TTuple es, bs)))
      else if tag = 105 then
        sum_bind (read32 bs) (\<lambda>(n, bs).
          sum_bind (repeatM (unat n) get bs) (\<lambda>(es, bs). Inr (TTuple es, bs)))
      else if tag = 106 then Inr (TNil, bs)
      else if tag = 108 then
        sum_bind (read32 bs) (\<lambda>(n, bs).
          sum_bind (repeatM (unat n) get bs) (\<lambda>(es, bs).
            sum_bind (get bs) (\<lambda>(tail, bs). Inr (TList es, bs))))
      else if tag = 109 then
        sum_bind (read32 bs) (\<lambda>(n, bs).
          sum_bind (readBytes (unat n) bs) (\<lambda>(d, bs). Inr (TBin d, bs)))
      else if tag = 116 then
        sum_bind (read32 bs) (\<lambda>(n, bs).
          sum_bind (repeatM (unat n) (readPair get) bs) (\<lambda>(ps, bs). Inr (TMap ps, bs)))
      else Inl (UnsupportedTag tag))"

primrec decodeTerm :: "nat \<Rightarrow> u8 list \<Rightarrow> Term read" where
  "decodeTerm 0 bs = Inl OutOfFuel"
| "decodeTerm (Suc fuel) bs = sum_bind (read8 bs) (\<lambda>(tag, bs). decodeBody (decodeTerm fuel) tag bs)"

definition decodeEtf :: "u8 list \<Rightarrow> EtfError + Term" where
  "decodeEtf data =
     (if length data < 2 then Inl TooShort
      else if data ! 0 \<noteq> 131 then Inl (UnsupportedVersion (data ! 0))
      else sum_bind (decodeTerm (length data) (drop 1 data)) (\<lambda>(t, bs). Inr t))"

section \<open>The decoder always answers\<close>

lemma suffix_of_readBig_loop: "suffix_of bs (readBig_loop n i v bs)"
  by (induction n arbitrary: i v bs) (auto intro!: suffix_of_bind suffix_of_reads)

lemma suffix_of_readBig: "suffix_of bs (readBig n bs)"
  unfolding readBig_def Let_def
  by (auto intro!: suffix_of_bind suffix_of_reads suffix_of_readBig_loop)

lemma suffix_of_readAtom: "suffix_of bs (readAtom n bs)"
  unfolding readAtom_def by (auto intro!: suffix_of_bind suffix_of_reads)

lemma suffix_of_readPair: "(\<And>bs. suffix_of bs (get bs)) \<Longrightarrow> suffix_of bs (readPair get bs)"
  unfolding readPair_def by (auto intro!: suffix_of_bind)

lemmas suffix_rules = suffix_of_bind suffix_of_reads suffix_of_read64 suffix_of_readBig
  suffix_of_readAtom suffix_of_readPair suffix_of_repeatM

lemma suffix_of_if: "suffix_of bs x \<Longrightarrow> suffix_of bs y \<Longrightarrow> suffix_of bs (if b then x else y)"
  by simp

lemma suffix_of_decodeBody: "(\<And>bs. suffix_of bs (get bs)) \<Longrightarrow> suffix_of bs (decodeBody get tag bs)"
  unfolding decodeBody_def
  by (intro suffix_of_if) (auto intro!: suffix_rules)

lemma suffix_of_decodeTerm: "suffix_of bs (decodeTerm fuel bs)"
  by (induction fuel arbitrary: bs) (auto intro!: suffix_of_decodeBody suffix_rules)

text \<open>\<open>answers bs r\<close>: the read of \<open>bs\<close> is decided, by a value or an error of the source.\<close>

definition answers :: "u8 list \<Rightarrow> 'a read \<Rightarrow> bool" where
  "answers bs r \<longleftrightarrow> suffix_of bs r \<and> r \<noteq> Inl OutOfFuel"

lemma answers_bind:
  assumes "answers bs r"
    and "\<And>x bs'. length bs' \<le> length bs \<Longrightarrow> answers bs' (f (x, bs'))"
  shows "answers bs (sum_bind r f)"
proof -
  have l: "length bs' \<le> length bs" if "r = Inr (x, bs')" for x bs'
    using suffix_of_length [of bs r x bs'] assms(1) that by (simp add: answers_def)
  have "suffix_of bs (sum_bind r f)"
    using assms l by (intro suffix_of_bind) (auto simp: answers_def)
  moreover have "sum_bind r f \<noteq> Inl OutOfFuel"
    using assms l by (cases r) (auto simp: answers_def)
  ultimately show ?thesis by (simp add: answers_def)
qed

lemma answers_Inr [simp]: "answers bs (Inr (x, bs))"
  by (simp add: answers_def)

lemma answers_reads:
  "answers bs (read8 bs)" "answers bs (read16 bs)" "answers bs (read32 bs)"
  "answers bs (readBytes n bs)" "answers bs (readString n bs)"
  using suffix_of_reads [of bs]
  by (cases bs; simp add: answers_def read16_def read32_def readBytes_def readString_def)+

lemma answers_read64: "answers bs (read64 bs)"
  unfolding read64_def by (auto intro!: answers_bind answers_reads)

lemma answers_readBig: "answers bs (readBig n bs)"
proof -
  have "answers bs (readBig_loop n i v bs)" for i v bs
    by (induction n arbitrary: i v bs) (auto intro!: answers_bind answers_reads)
  then show ?thesis
    unfolding readBig_def Let_def by (auto intro!: answers_bind answers_reads)
qed

lemma answers_readAtom: "answers bs (readAtom n bs)"
  unfolding readAtom_def by (auto intro!: answers_bind answers_reads)

lemma answers_readPair:
  "(\<And>bs'. length bs' \<le> length bs \<Longrightarrow> answers bs' (get bs')) \<Longrightarrow> answers bs (readPair get bs)"
  unfolding readPair_def by (auto intro!: answers_bind)

lemma answers_repeatM:
  "(\<And>bs'. length bs' \<le> length bs \<Longrightarrow> answers bs' (get bs')) \<Longrightarrow> answers bs (repeatM n get bs)"
proof (induction n arbitrary: bs)
  case (Suc n)
  then show ?case by (auto intro!: answers_bind)
qed simp

lemmas answers_rules = answers_bind answers_reads answers_read64 answers_readBig
  answers_readAtom answers_readPair answers_repeatM

lemma answers_if: "answers bs x \<Longrightarrow> answers bs y \<Longrightarrow> answers bs (if b then x else y)"
  by simp

lemma answers_decodeBody:
  "(\<And>bs'. length bs' \<le> length bs \<Longrightarrow> answers bs' (get bs')) \<Longrightarrow> answers bs (decodeBody get tag bs)"
  unfolding decodeBody_def
  by (intro answers_if) (auto intro!: answers_rules simp: answers_def [of _ "Inl _"])

lemma enough_fuel: "length bs < fuel \<Longrightarrow> answers bs (decodeTerm fuel bs)"
proof (induction fuel arbitrary: bs)
  case (Suc fuel)
  show ?case
  proof (cases bs)
    case (Cons tag rest)
    have "answers rest (decodeBody (decodeTerm fuel) tag rest)"
      using Suc Cons by (intro answers_decodeBody) simp
    then show ?thesis
      using Cons by (auto simp: answers_def suffix_of_def split: sum.splits)
  qed (simp add: answers_def)
qed simp

text \<open>
  C37: decoding ends on every input: the fuel \<open>decodeEtf\<close> starts with, one unit per byte, is
  never used up, so its result is a term or one of the four errors the source throws.
\<close>
theorem decodeEtf_terminates: "decodeEtf data \<noteq> Inl OutOfFuel"
proof (cases "length data < 2")
  case False
  then have "answers (drop 1 data) (decodeTerm (length data) (drop 1 data))"
    by (intro enough_fuel) simp
  then show ?thesis by (auto simp: decodeEtf_def answers_def sum_bind_eq_Inl)
qed (simp add: decodeEtf_def)

section \<open>What is decoded from what was encoded\<close>

definition exact_size :: "(int \<Rightarrow> nat) \<Rightarrow> bool" where
  \<comment> \<open>GMP: in a base that is a power of two \<open>mpz_sizeinbase\<close> is exact\<close>
  "exact_size sz \<longleftrightarrow> (\<forall>m > 0. 2 ^ (sz m - 1) \<le> m \<and> m < 2 ^ sz m)"

fun canon :: "Term \<Rightarrow> Term" where
  \<comment> \<open>the term read back: a big integer that fits 64 bits is an \<open>Int\<close>, an empty list is \<open>Nil\<close>\<close>
  "canon (TBigInt v) =
     (if v \<ge> - (2 ^ 63) \<and> v < 2 ^ 63 then TInt (word_of_int v) else TBigInt v)"
| "canon (TTuple es) = TTuple (map canon es)"
| "canon (TList es) = (if es = [] then TNil else TList (map canon es))"
| "canon (TMap ps) = TMap (map (\<lambda>(k, v). (canon k, canon v)) ps)"
| "canon t = t"

fun encodable :: "(int \<Rightarrow> nat) \<Rightarrow> Term \<Rightarrow> bool" where
  \<comment> \<open>every length fits the field the encoder writes it to\<close>
  "encodable sz (TAtom name) \<longleftrightarrow> length name < 2 ^ 16"
| "encodable sz (TBigInt v) \<longleftrightarrow> bigCount sz v < 2 ^ 32"
| "encodable sz (TBin d) \<longleftrightarrow> length d < 2 ^ 32"
| "encodable sz (TTuple es) \<longleftrightarrow> length es < 2 ^ 32 \<and> list_all (encodable sz) es"
| "encodable sz (TList es) \<longleftrightarrow> length es < 2 ^ 32 \<and> list_all (encodable sz) es"
| "encodable sz (TMap ps) \<longleftrightarrow>
     length ps < 2 ^ 32 \<and> list_all (\<lambda>(k, v). encodable sz k \<and> encodable sz v) ps"
| "encodable sz t \<longleftrightarrow> True"

lemma readBig_loop_bigBytes:
  "0 \<le> m \<Longrightarrow> m < 2 ^ (8 * n) \<Longrightarrow>
     readBig_loop n i v (bigBytes n m @ rest) = Inr (v + push_bit (8 * i) m, rest)"
proof (induction n arbitrary: i v m)
  case (Suc n)
  have "drop_bit 8 m < 2 ^ (8 * n)"
    using Suc.prems by (simp add: drop_bit_eq_div power_add div_less_iff_less_mult ac_simps)
  moreover have "push_bit (8 * i) m =
      push_bit (8 * i) (take_bit 8 m) + push_bit (8 + 8 * i) (drop_bit 8 m)"
    by (metis add.commute bits_ident push_bit_add push_bit_push_bit)
  ultimately show ?case
    using Suc.IH [of "drop_bit 8 m" "i + 1" "v + push_bit (8 * i) (take_bit 8 m)"] Suc.prems(1)
    by (simp add: put8_def unsigned_of_int add.assoc)
qed simp

lemma bigCount_fits:
  assumes "exact_size sz"
  shows "\<bar>v\<bar> < 2 ^ (8 * bigCount sz v)"
proof (cases "v = 0")
  case False
  then have "\<bar>v\<bar> < 2 ^ sz \<bar>v\<bar>" using assms by (simp add: exact_size_def)
  also have "\<dots> \<le> 2 ^ (8 * ((sz \<bar>v\<bar> + 7) div 8))" by (intro power_increasing) auto
  also have "(sz \<bar>v\<bar> + 7) div 8 = bigCount sz v"
    using False by (auto simp: bigCount_def abs_if)
  finally show ?thesis .
qed (simp add: bigCount_def)

lemma bigCount_int64:
  assumes "exact_size sz"
  shows "bigCount sz (sint (v :: u64)) < 2 ^ 32"
proof (cases "sint v = 0")
  case False
  let ?m = "\<bar>sint v\<bar>"
  have "?m \<le> 2 ^ 63" using sint_range_size [of v] by (simp add: word_size abs_le_iff)
  moreover have "2 ^ (sz ?m - 1) \<le> ?m" using assms False by (simp add: exact_size_def)
  ultimately have "(2 :: int) ^ (sz ?m - 1) \<le> 2 ^ 63" by linarith
  then have "sz ?m - 1 \<le> 63" by (rule power_le_imp_le_exp [rotated]) simp
  then have "(sz ?m + 7) div 8 \<le> 8" by linarith
  moreover have "bigCount sz (sint v) = (sz ?m + 7) div 8"
    using False by (auto simp: bigCount_def abs_if)
  ultimately show ?thesis by simp
qed (simp add: bigCount_def)

lemma readBig_encoded:
  assumes "exact_size sz" "m = \<bar>v\<bar>"
  shows "readBig (bigCount sz v) (put8 (if v < 0 then 1 else 0) @ bigBytes (bigCount sz v) m @ rest) =
    Inr (canon (TBigInt v), rest)"
proof -
  have "readBig_loop (bigCount sz v) 0 0 (bigBytes (bigCount sz v) m @ rest) = Inr (m, rest)"
    using readBig_loop_bigBytes [of m "bigCount sz v" 0 0] bigCount_fits [OF assms(1), of v] assms(2) by simp
  then show ?thesis
    using assms(2) by (auto simp: readBig_def put8_def Let_def)
qed

lemma decode_encodeBigInt:
  assumes "exact_size sz" "bigCount sz v < 2 ^ 32"
  shows "decodeTerm (Suc fuel) (encodeBigInt sz v @ rest) = Inr (canon (TBigInt v), rest)"
proof -
  have m: "(if v < 0 then - v else v) = \<bar>v\<bar>" by simp
  have n: "unat (of_nat (bigCount sz v) :: u32) = bigCount sz v"
    using assms(2) by (intro unat_of_nat_small) simp
  have n8: "unat (of_nat (bigCount sz v) :: u8) = bigCount sz v" if "bigCount sz v \<le> 255"
    using that by (intro unat_of_nat_small) simp
  note r = readBig_encoded [OF assms(1) refl, of v rest]
  show ?thesis
  proof (cases "bigCount sz v \<le> 255")
    case True
    then show ?thesis
      using r n8 unfolding encodeBigInt_def m Let_def
      by (simp add: put8_def decodeBody_def del: canon.simps)
  next
    case False
    have "decodeTerm (Suc fuel) (encodeBigInt sz v @ rest) =
       readBig (unat (of_nat (bigCount sz v) :: u32))
         (put8 (if v < 0 then 1 else 0) @ bigBytes (bigCount sz v) \<bar>v\<bar> @ rest)"
      using False unfolding encodeBigInt_def m Let_def
      by (simp add: put8_def [of 111] decodeBody_def c32.get_put)
    then show ?thesis using r n by simp
  qed
qed

lemma canon_int64: "canon (TBigInt (sint (v :: u64))) = TInt v"
  using sint_range_size [of v] by (simp add: word_size)

lemma int32_narrow:
  assumes "- (2 ^ 31) \<le> sint v" "sint v < 2 ^ 31"
  shows "signed (ucast (v :: u64) :: u32) = v"
proof -
  have c: "ucast v = (word_of_int (sint v) :: u32)"
    by (rule bit_word_eqI) (simp add: bit_simps)
  have "sint (ucast v :: u32) = signed_take_bit 31 (sint v)"
    unfolding c by (subst sint_sbintrunc') simp
  also have "\<dots> = sint v" using assms by (simp add: signed_take_bit_int_eq_self)
  finally show ?thesis unfolding scast_eq [of "ucast v :: u32"] by simp
qed

lemma byte_narrow:
  assumes "0 \<le> sint v" "sint v \<le> 255"
  shows "ucast (ucast (v :: u64) :: u8) = v"
proof -
  have "ucast (ucast (word_of_int k :: u64) :: u8) = (word_of_int k :: u64)" if "0 \<le> k" "k \<le> 255" for k
    using that by (simp add: unsigned_of_int take_bit_int_eq_self)
  from this [OF assms] show ?thesis by (simp add: scast_eq)
qed

lemma decode_TInt:
  assumes "exact_size sz"
  shows "decodeTerm (Suc fuel) (encodeTerm sz (TInt v) @ rest) = Inr (TInt v, rest)"
proof (cases "sint v \<ge> 0 \<and> sint v \<le> 255")
  case True
  then have "ucast (ucast v :: u8) = v" by (simp add: byte_narrow)
  then show ?thesis using True by (simp add: put8_def decodeBody_def)
next
  case small: False
  show ?thesis
  proof (cases "sint v \<ge> - (2 ^ 31) \<and> sint v \<le> 2 ^ 31 - 1")
    case True
    then have "signed (ucast v :: u32) = v" by (intro int32_narrow) auto
    then show ?thesis using True small by (auto simp: put8_def decodeBody_def c32.get_put byte_narrow)
  next
    case False
    then have e: "encodeTerm sz (TInt v) = encodeBigInt sz (sint v)"
      using small by auto
    show ?thesis
      unfolding e decode_encodeBigInt [OF assms bigCount_int64 [OF assms]] canon_int64 ..
  qed
qed

lemma encodeTerm_not_Nil: "encodeTerm sz t \<noteq> []"
  by (cases t) (auto simp: put8_def encodeBigInt_def Let_def)

lemma length_concat_element: "x \<in> set xs \<Longrightarrow> length (f x) \<le> length (concat (map f xs))"
  by (induction xs) auto

text \<open>One sequence of subterms: each is read back with the fuel left after the tag.\<close>

lemma repeatM_encoded:
  assumes "\<And>x rest. x \<in> set xs \<Longrightarrow> get (put x @ rest) = Inr (view x, rest)"
  shows "repeatM (length xs) get (concat (map put xs) @ rest) = Inr (map view xs, rest)"
proof -
  have "codec put get view (\<lambda>x. x \<in> set xs)" by unfold_locales (rule assms)
  then show ?thesis by (rule codec.repeat_get) (simp add: list_all_iff)
qed

lemma length_fields:
  "n < 2 ^ 8 \<Longrightarrow> unat (of_nat n :: u8) = n"
  "n < 2 ^ 16 \<Longrightarrow> unat (of_nat n :: u16) = n"
  "n < 2 ^ 32 \<Longrightarrow> unat (of_nat n :: u32) = n"
  by (intro unat_of_nat_small; simp)+

lemma readPair_encoded:
  assumes "\<And>rest. get (encodeTerm sz k @ rest) = Inr (k', rest)"
    "\<And>rest. get (encodeTerm sz v @ rest) = Inr (v', rest)"
  shows "readPair get ((encodeTerm sz k @ encodeTerm sz v) @ rest) = Inr ((k', v'), rest)"
  using assms by (simp add: readPair_def)

lemma decode_encode:
  assumes "exact_size sz"
  shows "encodable sz t \<Longrightarrow> length (encodeTerm sz t) \<le> fuel \<Longrightarrow>
    decodeTerm fuel (encodeTerm sz t @ rest) = Inr (canon t, rest)"
proof (induction t arbitrary: fuel rest)
  case (TAtom name)
  then obtain f where "fuel = Suc f" by (cases fuel) (auto simp: put8_def split: if_splits)
  then show ?case
    using TAtom by (auto simp: put8_def [of 119] put8_def [of 118] c8.get_put c16.get_put decodeBody_def
        readAtom_def readString_def length_fields)
next
  case (TInt v)
  then obtain f where "fuel = Suc f" using encodeTerm_not_Nil [of sz "TInt v"] by (cases fuel) auto
  then show ?case using decode_TInt [OF assms] by simp
next
  case (TBigInt v)
  then obtain f where "fuel = Suc f" using encodeTerm_not_Nil [of sz "TBigInt v"] by (cases fuel) auto
  then show ?case using decode_encodeBigInt [OF assms, of v] TBigInt by (simp del: canon.simps)
next
  case (TFloat bits)
  then obtain f where "fuel = Suc f" by (cases fuel) (auto simp: put8_def)
  then show ?case by (simp add: put8_def decodeBody_def c64.get_put)
next
  case (TBin d)
  then obtain f where "fuel = Suc f" by (cases fuel) (auto simp: put8_def)
  then show ?case using TBin by (simp add: put8_def decodeBody_def c32.get_put readBytes_def length_fields)
next
  case (TTuple es)
  obtain f where f: "fuel = Suc f" using TTuple.prems(2) by (cases fuel) (auto simp: put8_def split: if_splits)
  have "repeatM (length es) (decodeTerm f) (concat (map (encodeTerm sz) es) @ rest) = Inr (map canon es, rest)"
  proof (rule repeatM_encoded)
    fix x rest assume "x \<in> set es"
    then show "decodeTerm f (encodeTerm sz x @ rest) = Inr (canon x, rest)"
      using TTuple f length_concat_element [of x es "encodeTerm sz"]
      by (intro TTuple.IH) (auto simp: list_all_iff put8_def split: if_splits)
  qed
  then show ?case
    using f TTuple.prems by (auto simp: put8_def [of 104] put8_def [of 105] decodeBody_def c8.get_put
        c32.get_put length_fields)
next
  case (TList es)
  obtain f where f: "fuel = Suc f" using TList.prems(2) by (cases fuel) (auto simp: put8_def split: if_splits)
  show ?case
  proof (cases "es = []")
    case False
    then obtain g where g: "f = Suc g"
      using TList.prems(2) f by (cases f) (auto simp: put8_def)
    have "repeatM (length es) (decodeTerm f) (concat (map (encodeTerm sz) es) @ put8 106 @ rest) =
        Inr (map canon es, put8 106 @ rest)"
    proof (rule repeatM_encoded)
      fix x rest assume "x \<in> set es"
      then show "decodeTerm f (encodeTerm sz x @ rest) = Inr (canon x, rest)"
        using TList f False length_concat_element [of x es "encodeTerm sz"]
        by (intro TList.IH) (auto simp: list_all_iff put8_def)
    qed
    moreover have "decodeTerm f (put8 106 @ rest) = Inr (TNil, rest)"
      by (simp add: g put8_def decodeBody_def)
    ultimately show ?thesis
      using f TList.prems False
      by (simp add: put8_def [of 108] decodeBody_def c32.get_put length_fields del: decodeTerm.simps)
        (simp add: decodeBody_def c32.get_put length_fields)
  qed (simp add: f put8_def decodeBody_def)
next
  case (TMap ps)
  obtain f where f: "fuel = Suc f" using TMap.prems(2) by (cases fuel) (auto simp: put8_def)
  let ?put = "\<lambda>(k, v). encodeTerm sz k @ encodeTerm sz v"
  have "repeatM (length ps) (readPair (decodeTerm f)) (concat (map ?put ps) @ rest) =
      Inr (map (\<lambda>(k, v). (canon k, canon v)) ps, rest)"
  proof (rule repeatM_encoded)
    fix p rest assume p: "p \<in> set ps"
    obtain k v where kv: "p = (k, v)" by fastforce
    have l: "length (encodeTerm sz k) \<le> f" "length (encodeTerm sz v) \<le> f"
      using TMap.prems(2) f length_concat_element [OF p, of ?put] kv by (auto simp: put8_def)
    have e: "encodable sz k" "encodable sz v"
      using TMap.prems(1) p kv by (auto simp: list_all_iff)
    show "readPair (decodeTerm f) (?put p @ rest) = Inr ((\<lambda>(k, v). (canon k, canon v)) p, rest)"
      unfolding kv prod.case
      by (rule readPair_encoded) (use TMap.IH [OF p] kv e l in auto)
  qed
  then show ?case
    using f TMap.prems by (simp add: put8_def decodeBody_def c32.get_put length_fields)
next
  case TNil
  then obtain f where "fuel = Suc f" by (cases fuel) (auto simp: put8_def)
  then show ?case by (simp add: put8_def decodeBody_def)
qed

text \<open>The terms of a bounded encoding, as a codec.\<close>

definition fits :: "(int \<Rightarrow> nat) \<Rightarrow> nat \<Rightarrow> Term \<Rightarrow> bool" where
  "fits sz fuel t \<longleftrightarrow> exact_size sz \<and> encodable sz t \<and> length (encodeTerm sz t) \<le> fuel"

interpretation tc: codec "encodeTerm sz" "decodeTerm fuel" canon "fits sz fuel" for sz fuel
  by unfold_locales (simp add: fits_def decode_encode)

text \<open>
  C2: a term whose lengths fit their fields survives the round trip: decoding what
  \<open>encodeEtf\<close> wrote, whatever follows it, gives the term back, with big integers that fit 64
  bits read as \<open>Int\<close> and empty lists as \<open>Nil\<close>.
\<close>
theorem etf_roundtrip:
  assumes "exact_size sz" "encodable sz t"
  shows "decodeEtf (encodeEtf sz t @ trailing) = Inr (canon t)"
proof -
  have ne: "encodeTerm sz t \<noteq> []" by (rule encodeTerm_not_Nil)
  let ?n = "length (encodeEtf sz t @ trailing)"
  have "fits sz ?n t" using assms by (simp add: fits_def encodeEtf_def)
  then have "decodeTerm ?n (encodeTerm sz t @ trailing) = Inr (canon t, trailing)"
    by (rule tc.get_put)
  moreover have "\<not> ?n < 2" using ne by (cases "encodeTerm sz t") (auto simp: encodeEtf_def)
  ultimately show ?thesis
    unfolding decodeEtf_def by (simp add: encodeEtf_def del: decodeTerm.simps)
qed

lemma bitlen_exact: "exact_size (\<lambda>m. nat (bitlen m))"
  unfolding exact_size_def
proof (intro allI impI)
  fix m :: int assume m: "0 < m"
  have b: "2 ^ nat (bitlen m - 1) \<le> m \<and> m < 2 ^ nat (bitlen m)" by (rule bitlen_bounds [OF m])
  have "nat (bitlen m - 1) = nat (bitlen m) - 1" by simp
  with b show "2 ^ (nat (bitlen m) - 1) \<le> m \<and> m < 2 ^ nat (bitlen m)" by simp
qed

theorem etf_roundtrip_witness:
  "decodeEtf (encodeEtf (\<lambda>m. nat (bitlen m)) (TTuple [TAtom ''ok'', TMap [(TInt 7, TList [])]]) @ [1]) =
     Inr (TTuple [TAtom ''ok'', TMap [(TInt 7, TNil)]])"
  using etf_roundtrip [OF bitlen_exact, of "TTuple [TAtom ''ok'', TMap [(TInt 7, TList [])]]" "[1]"] by simp

text \<open>
  Two encodable terms with the same encoding are the same term up to the form integers
  and empty lists are read back in, so nothing a chunk stores is ambiguous.
\<close>
theorem encodeEtf_injective:
  assumes "exact_size sz" "encodable sz t" "encodable sz u" "encodeEtf sz t = encodeEtf sz u"
  shows "canon t = canon u"
proof -
  have e: "encodeTerm sz t = encodeTerm sz u" using assms(4) by (simp add: encodeEtf_def)
  have "fits sz (length (encodeTerm sz t)) t" "fits sz (length (encodeTerm sz t)) u"
    using assms(1-3) e by (simp_all add: fits_def)
  then show ?thesis using tc.put_injective [of sz _ t u "[]" "[]"] e by simp
qed

theorem encodeEtf_injective_witness:
  "canon (TList []) = canon TNil"
  using encodeEtf_injective [OF bitlen_exact, of "TList []" TNil] by (simp add: encodeEtf_def)

section \<open>Maps read back\<close>

lemma isAtomNamed_canon [simp]: "isAtomNamed (canon t) key = isAtomNamed t key"
  by (cases t) auto

lemma mapGet_canon: "mapGet (canon t) key = map_option canon (mapGet t key)"
proof (cases t)
  case (TMap ps)
  have "find (\<lambda>(k, v). isAtomNamed k key) (map (\<lambda>(k, v). (canon k, canon v)) ps) =
      map_option (\<lambda>(k, v). (canon k, canon v)) (find (\<lambda>(k, v). isAtomNamed k key) ps)"
    by (induction ps) auto
  then show ?thesis by (auto simp: TMap option.map_comp comp_def case_prod_beta)
qed auto

text \<open>
  Looking a key up in a decoded map finds what was stored under it: \<open>mapGet\<close> on the term
  read back answers the value \<open>mapGet\<close> gives on the term written, and nothing where it gives
  nothing.
\<close>
theorem mapGet_after_roundtrip:
  assumes "exact_size sz" "encodable sz t"
  shows "\<exists>t'. decodeEtf (encodeEtf sz t) = Inr t' \<and> mapGet t' key = map_option canon (mapGet t key)"
proof -
  have "fits sz (length (encodeEtf sz t)) t" using assms by (simp add: fits_def encodeEtf_def)
  then have d: "decodeTerm (length (encodeEtf sz t)) (encodeTerm sz t) = Inr (canon t, [])"
    by (rule tc.get_put_alone)
  have "\<not> length (encodeEtf sz t) < 2"
    using encodeTerm_not_Nil [of sz t] by (cases "encodeTerm sz t") (auto simp: encodeEtf_def)
  with d have "decodeEtf (encodeEtf sz t) = Inr (canon t)"
    unfolding decodeEtf_def by (simp add: encodeEtf_def del: decodeTerm.simps)
  then show ?thesis by (simp add: mapGet_canon)
qed

theorem mapGet_after_roundtrip_witness:
  "\<exists>t'. decodeEtf (encodeEtf (\<lambda>m. nat (bitlen m)) (TMap [(TAtom ''version'', TInt 3)])) = Inr t' \<and>
     mapGet t' ''version'' = Some (TInt 3)"
  using mapGet_after_roundtrip [OF bitlen_exact, of "TMap [(TAtom ''version'', TInt 3)]" "''version''"] by simp

section \<open>An atom too long for its length field\<close>

text \<open>
  An atom of more than 65535 bytes is written with the low sixteen bits of its length, so
  it is read back, with no error, as the prefix of that many bytes.
\<close>
theorem long_atom_read_as_prefix:
  assumes "length name > 65535"
  shows "decodeEtf (encodeEtf sz (TAtom name)) = Inr (TAtom (take (length name mod 65536) name))"
proof -
  let ?k = "length name mod 65536"
  have k: "unat (of_nat (length name) :: u16) = ?k"
    by (simp add: unsigned_of_nat take_bit_eq_mod)
  have le: "?k \<le> length name" by simp
  have r: "readAtom ?k (map byte_of_char name) = Inr (TAtom (take ?k name), drop ?k (map byte_of_char name))"
    using le by (simp add: readAtom_def readString_def take_map)
  obtain f where f: "length (encodeEtf sz (TAtom name)) = Suc f" by (simp add: encodeEtf_def)
  have "decodeTerm (Suc f) (encodeTerm sz (TAtom name)) =
      Inr (TAtom (take ?k name), drop ?k (map byte_of_char name))"
    using assms r k by (simp add: put8_def decodeBody_def c16.get_put)
  then show ?thesis
    using assms f unfolding decodeEtf_def
    by (simp add: encodeEtf_def put8_def del: decodeTerm.simps)
qed

theorem long_atom_read_as_prefix_witness:
  "decodeEtf (encodeEtf (\<lambda>m. nat (bitlen m)) (TAtom (replicate 65537 CHR ''a''))) = Inr (TAtom ''a'')"
  using long_atom_read_as_prefix [of "replicate 65537 CHR ''a''" "\<lambda>m. nat (bitlen m)"] by simp

end
