(* ===== verification/BeamFile.thy ===== *)
theory BeamFile
  imports Bytes
begin

text \<open>
  The BEAM container of \<open>src/src/beam/beam_file.cxx\<close>: the list of chunks with its lookup,
  update and removal, and the IFF reader and writer.  Positions are \<open>size_t\<close>, here natural
  numbers; the two sums the source makes in \<open>uint32_t\<close>, \<open>formSize + 8\<close> and \<open>8 + formSize\<close>, are
  made on 32-bit words, where they wrap.  Reading from a path and writing to one are left
  out: they hand the bytes to these functions.
\<close>

section \<open>Chunks\<close>

record Chunk =
  chunk_id :: string
  chunk_data :: "u8 list"

type_synonym BeamFile = "Chunk list"

definition findChunk :: "BeamFile \<Rightarrow> string \<Rightarrow> Chunk option" where
  "findChunk chunks i = find (\<lambda>c. chunk_id c = i) chunks"

fun update_first :: "string \<Rightarrow> u8 list \<Rightarrow> BeamFile \<Rightarrow> BeamFile" where
  \<comment> \<open>\<open>c->data = data\<close> through the pointer \<open>findChunk\<close> returns\<close>
  "update_first i d [] = []"
| "update_first i d (c # cs) =
     (if chunk_id c = i then c\<lparr>chunk_data := d\<rparr> # cs else c # update_first i d cs)"

definition setChunk :: "BeamFile \<Rightarrow> string \<Rightarrow> u8 list \<Rightarrow> BeamFile" where
  "setChunk chunks i d =
     (case findChunk chunks i of
        Some c \<Rightarrow> update_first i d chunks
      | None \<Rightarrow> chunks @ [\<lparr>chunk_id = i, chunk_data = d\<rparr>])"

definition removeChunk :: "BeamFile \<Rightarrow> string \<Rightarrow> BeamFile" where
  "removeChunk chunks i = filter (\<lambda>c. chunk_id c \<noteq> i) chunks"

section \<open>Alignment\<close>

definition alignUp :: "u64 \<Rightarrow> u64" where
  "alignUp n = (n + 3) AND NOT 3"

definition padded :: "nat \<Rightarrow> nat" where
  \<comment> \<open>\<open>alignUp\<close> at a \<open>size_t\<close>\<close>
  "padded n = unat (alignUp (of_nat n))"

lemma padded_eq:
  assumes "n + 3 < 2 ^ 64"
  shows "padded n = (n + 3) div 4 * 4"
proof -
  have u: "unat (of_nat n + 3 :: u64) = n + 3"
    using assms unat_of_nat_small [of "n + 3", where 'a = 64] by simp
  have "unat ((of_nat n + 3 :: u64) AND NOT (mask 2)) = (n + 3) div 2 ^ 2 * 2 ^ 2"
    unfolding unat_clear_low u ..
  then show ?thesis by (simp add: padded_def alignUp_def mask_eq_exp_minus_1)
qed

lemma padded_bounds: "n + 3 < 2 ^ 64 \<Longrightarrow> n \<le> padded n \<and> padded n < n + 4"
  by (simp add: padded_eq) presburger

section \<open>Reading\<close>

datatype BeamError =
    FileTooSmall
  | MissingFor1
  | FormSizeExceedsFile
  | MissingBeam
  | ChunkPastEnd string

definition readU32 :: "u8 list \<Rightarrow> nat \<Rightarrow> u32" where
  "readU32 bytes p =
     push_bit 24 (ucast (bytes ! p)) OR push_bit 16 (ucast (bytes ! (p + 1))) OR
     push_bit 8 (ucast (bytes ! (p + 2))) OR ucast (bytes ! (p + 3))"

definition bytes_at :: "u8 list \<Rightarrow> nat \<Rightarrow> nat \<Rightarrow> u8 list" where
  "bytes_at bytes p n = take n (drop p bytes)"

definition ascii :: "string \<Rightarrow> u8 list" where
  "ascii s = map byte_of_char s"

function read_chunks :: "u8 list \<Rightarrow> nat \<Rightarrow> nat \<Rightarrow> BeamFile \<Rightarrow> BeamError + BeamFile" where
  \<comment> \<open>the loop of \<open>readBeamFile\<close> from \<open>pos\<close>\<close>
  "read_chunks bytes e pos chunks =
     (if pos + 8 \<le> e then
        let i = map char_of_byte (bytes_at bytes pos 4);
            chunkSize = readU32 bytes (pos + 4);
            pos' = pos + 8
        in if pos' + unat chunkSize > e then Inl (ChunkPastEnd i)
           else let d = bytes_at bytes pos' (unat chunkSize)
                in read_chunks bytes e (pos' + padded (unat chunkSize))
                     (chunks @ [\<lparr>chunk_id = i, chunk_data = d\<rparr>])
      else Inr chunks)"
  by pat_completeness auto
termination
  by (relation "measure (\<lambda>(bytes, e, pos, chunks). e - pos)") auto

declare read_chunks.simps [simp del]

lemma read_chunks_step:
  "pos + 8 \<le> e \<Longrightarrow> unat (readU32 bytes (pos + 4)) = n \<Longrightarrow> pos + 8 + n \<le> e \<Longrightarrow>
   map char_of_byte (bytes_at bytes pos 4) = i \<Longrightarrow> bytes_at bytes (pos + 8) n = d \<Longrightarrow>
     read_chunks bytes e pos chunks =
     read_chunks bytes e (pos + 8 + padded n) (chunks @ [\<lparr>chunk_id = i, chunk_data = d\<rparr>])"
  by (subst read_chunks.simps) (simp add: Let_def)

definition readBeamFile :: "u8 list \<Rightarrow> BeamError + BeamFile" where
  "readBeamFile bytes =
     (if length bytes < 12 then Inl FileTooSmall
      else if bytes_at bytes 0 4 \<noteq> ascii ''FOR1'' then Inl MissingFor1
      else let formSize = readU32 bytes 4
           in if unat (formSize + 8) > length bytes then Inl FormSizeExceedsFile
              else if bytes_at bytes 8 4 \<noteq> ascii ''BEAM'' then Inl MissingBeam
              else read_chunks bytes (unat (8 + formSize)) 12 [])"

section \<open>Writing\<close>

definition writeU32 :: "u32 \<Rightarrow> u8 list" where
  "writeU32 v = [ucast (drop_bit 24 v), ucast (drop_bit 16 v), ucast (drop_bit 8 v), ucast v]"

definition bodySize :: "BeamFile \<Rightarrow> nat" where
  "bodySize chunks = foldl (\<lambda>n c. n + (8 + padded (length (chunk_data c)))) 4 chunks"

definition writeChunk :: "Chunk \<Rightarrow> u8 list" where
  "writeChunk c =
     ascii (chunk_id c) @ writeU32 (of_nat (length (chunk_data c))) @ chunk_data c @
     replicate (padded (length (chunk_data c)) - length (chunk_data c)) 0"

definition writeBeamFile :: "BeamFile \<Rightarrow> u8 list" where
  "writeBeamFile chunks =
     ascii ''FOR1'' @ writeU32 (of_nat (bodySize chunks)) @ ascii ''BEAM'' @
     concat (map writeChunk chunks)"

section \<open>A file written is read back\<close>

lemma readU32_writeU32: "readU32 (pre @ writeU32 v @ rest) (length pre) = v"
  using be32_put [of v] by (simp add: readU32_def writeU32_def be32_def nth_append)

definition well_formed :: "BeamFile \<Rightarrow> bool" where
  \<comment> \<open>four-byte ids, and a form that fits its 32-bit size field\<close>
  "well_formed chunks \<longleftrightarrow>
     list_all (\<lambda>c. length (chunk_id c) = 4 \<and> length (chunk_data c) < 2 ^ 32) chunks \<and>
     bodySize chunks + 8 < 2 ^ 32"

lemma bodySize_sum: "bodySize chunks = 4 + (\<Sum>c\<leftarrow>chunks. 8 + padded (length (chunk_data c)))"
proof -
  have "foldl (\<lambda>n c. n + (8 + padded (length (chunk_data c)))) m chunks =
      m + (\<Sum>c\<leftarrow>chunks. 8 + padded (length (chunk_data c)))" for m
    by (induction chunks arbitrary: m) auto
  then show ?thesis by (simp add: bodySize_def)
qed

lemma length_writeChunk:
  assumes "length (chunk_id c) = 4" "length (chunk_data c) < 2 ^ 32"
  shows "length (writeChunk c) = 8 + padded (length (chunk_data c))"
  using assms padded_bounds [of "length (chunk_data c)"]
  by (simp add: writeChunk_def writeU32_def ascii_def)

lemma chunk_eta: "\<lparr>chunk_id = chunk_id c, chunk_data = chunk_data c\<rparr> = (c :: Chunk)"
  by (cases c) simp

lemma read_chunks_written:
  assumes "list_all (\<lambda>c. length (chunk_id c) = 4 \<and> length (chunk_data c) < 2 ^ 32) cs"
    "e = length pre + (\<Sum>c\<leftarrow>cs. 8 + padded (length (chunk_data c)))"
  shows "read_chunks (pre @ concat (map writeChunk cs) @ trailing) e (length pre) acc = Inr (acc @ cs)"
  using assms
proof (induction cs arbitrary: pre acc)
  case Nil
  then show ?case by (subst read_chunks.simps) simp
next
  case (Cons c cs)
  let ?d = "chunk_data c"
  let ?bytes = "pre @ concat (map writeChunk (c # cs)) @ trailing"
  have l: "length (chunk_id c) = 4" "length ?d < 2 ^ 32" using Cons.prems(1) by simp_all
  have pb: "length ?d \<le> padded (length ?d)" using padded_bounds [of "length ?d"] l(2) by simp
  have i: "map char_of_byte (bytes_at ?bytes (length pre) 4) = chunk_id c"
    using l(1) by (simp add: bytes_at_def writeChunk_def ascii_def)
  have "?bytes = (pre @ ascii (chunk_id c)) @ writeU32 (of_nat (length ?d)) @
      (?d @ replicate (padded (length ?d) - length ?d) 0 @ concat (map writeChunk cs) @ trailing)"
    by (simp add: writeChunk_def)
  then have "readU32 ?bytes (length (pre @ ascii (chunk_id c))) = of_nat (length ?d)"
    by (simp only: readU32_writeU32)
  then have n: "unat (readU32 ?bytes (length pre + 4)) = length ?d"
    using l by (simp add: ascii_def unat_of_nat_small)
  have d: "bytes_at ?bytes (length pre + 8) (length ?d) = ?d"
    using l(1) by (simp add: bytes_at_def writeChunk_def ascii_def writeU32_def)
  have "read_chunks ?bytes e (length pre) acc =
      read_chunks ?bytes e (length pre + 8 + padded (length ?d)) (acc @ [c])"
    using read_chunks_step [OF _ n _ i d, of e acc] Cons.prems(2) pb chunk_eta [of c] by simp
  also have "?bytes = (pre @ writeChunk c) @ concat (map writeChunk cs) @ trailing" by simp
  also have "length pre + 8 + padded (length ?d) = length (pre @ writeChunk c)"
    using length_writeChunk [OF l] by simp
  also have "read_chunks ((pre @ writeChunk c) @ concat (map writeChunk cs) @ trailing) e
      (length (pre @ writeChunk c)) (acc @ [c]) = Inr ((acc @ [c]) @ cs)"
    using Cons.prems length_writeChunk [OF l] by (intro Cons.IH) auto
  finally show ?case by simp
qed

lemma written_is_read:
  assumes "well_formed chunks"
  shows "readBeamFile (writeBeamFile chunks @ trailing) = Inr chunks"
proof -
  let ?bytes = "writeBeamFile chunks @ trailing"
  let ?pre = "ascii ''FOR1'' @ writeU32 (of_nat (bodySize chunks)) @ ascii ''BEAM''"
  have wf: "list_all (\<lambda>c. length (chunk_id c) = 4 \<and> length (chunk_data c) < 2 ^ 32) chunks"
    "bodySize chunks + 8 < 2 ^ 32"
    using assms by (simp_all add: well_formed_def)
  have b: "?bytes = ?pre @ concat (map writeChunk chunks) @ trailing"
    by (simp add: writeBeamFile_def)
  have pre: "length ?pre = 12" by (simp add: ascii_def writeU32_def)
  have len: "length (concat (map writeChunk chunks)) = (\<Sum>c\<leftarrow>chunks. 8 + padded (length (chunk_data c)))"
    using wf(1) by (induction chunks) (simp_all add: length_writeChunk)
  have four: "length (ascii ''FOR1'') = 4" by (simp add: ascii_def)
  have size: "readU32 ?bytes 4 = of_nat (bodySize chunks)"
    using readU32_writeU32 [of "ascii ''FOR1''" "of_nat (bodySize chunks)"
        "ascii ''BEAM'' @ concat (map writeChunk chunks) @ trailing"]
    unfolding four by (simp add: writeBeamFile_def)
  have e1: "unat (of_nat (bodySize chunks) + 8 :: u32) = bodySize chunks + 8"
    using wf(2) unat_of_nat_small [of "bodySize chunks + 8", where 'a = 32] by simp
  then have e2: "unat (8 + of_nat (bodySize chunks) :: u32) = bodySize chunks + 8"
    by (subst add.commute)
  have f: "bytes_at ?bytes 0 4 = ascii ''FOR1''" "bytes_at ?bytes 8 4 = ascii ''BEAM''"
    by (simp_all add: bytes_at_def writeBeamFile_def ascii_def writeU32_def)
  have end_of: "bodySize chunks + 8 = length ?pre + (\<Sum>c\<leftarrow>chunks. 8 + padded (length (chunk_data c)))"
    unfolding pre by (simp add: bodySize_sum)
  have l: "bodySize chunks + 8 \<le> length ?bytes" "12 \<le> length ?bytes"
    unfolding b length_append len end_of using pre by simp_all
  have "read_chunks ?bytes (bodySize chunks + 8) (length ?pre) [] = Inr chunks"
    unfolding b using read_chunks_written [OF wf(1) end_of, of trailing "[]"] by simp
  then show ?thesis
    using l unfolding readBeamFile_def size Let_def e1 e2 f using pre by simp
qed

text \<open>
  C6: a container whose chunk ids have four bytes and whose size fits its field is read back
  exactly as it was written, ids, payloads and order, whatever follows it in the file.
\<close>
theorem beam_file_roundtrip:
  assumes "well_formed chunks"
  shows "readBeamFile (writeBeamFile chunks @ trailing) = Inr chunks"
  using assms by (rule written_is_read)

theorem beam_file_roundtrip_witness:
  "readBeamFile (writeBeamFile [\<lparr>chunk_id = ''KexI'', chunk_data = [1, 2, 3]\<rparr>] @ []) =
     Inr [\<lparr>chunk_id = ''KexI'', chunk_data = [1, 2, 3]\<rparr>]"
  by (rule beam_file_roundtrip) (simp add: well_formed_def bodySize_def padded_eq)

section \<open>Chunks as a store\<close>

text \<open>What a user of the chunks relies on: a store from ids to payloads.\<close>

locale chunk_store =
  fixes look :: "'f \<Rightarrow> 'i \<Rightarrow> 'd option"
    and put :: "'f \<Rightarrow> 'i \<Rightarrow> 'd \<Rightarrow> 'f"
    and del :: "'f \<Rightarrow> 'i \<Rightarrow> 'f"
  assumes look_put: "look (put f i d) j = (if j = i then Some d else look f j)"
    and look_del: "look (del f i) j = (if j = i then None else look f j)"
begin

lemma look_put_put: "look (put (put f i d) i d') j = look (put f i d') j"
  by (simp add: look_put)

lemma look_put_commute: "i \<noteq> k \<Longrightarrow> look (put (put f i d) k d') j = look (put (put f k d') i d) j"
  by (simp add: look_put)

lemma look_puts:
  "distinct (map fst kvs) \<Longrightarrow>
     look (foldl (\<lambda>f (i, d). put f i d) f kvs) j = (case map_of kvs j of Some d \<Rightarrow> Some d | None \<Rightarrow> look f j)"
proof (induction kvs arbitrary: f)
  case (Cons kv kvs)
  obtain i d where kv: "kv = (i, d)" by fastforce
  have "map_of kvs i = None" using Cons.prems kv by (simp add: map_of_eq_None_iff)
  then show ?case using Cons kv by (auto simp: look_put split: option.split)
qed simp

end

definition payload :: "BeamFile \<Rightarrow> string \<Rightarrow> u8 list option" where
  "payload chunks i = map_option chunk_data (findChunk chunks i)"

lemma payload_Cons: "payload (c # cs) i = (if chunk_id c = i then Some (chunk_data c) else payload cs i)"
  by (simp add: payload_def findChunk_def)

lemma payload_Nil [simp]: "payload [] i = None"
  by (simp add: payload_def findChunk_def)

lemma payload_update_first:
  "findChunk cs i \<noteq> None \<Longrightarrow> payload (update_first i d cs) j = (if j = i then Some d else payload cs j)"
  by (induction i d cs rule: update_first.induct) (auto simp: payload_Cons findChunk_def)

lemma payload_append:
  "payload (cs @ [\<lparr>chunk_id = i, chunk_data = d\<rparr>]) j =
     (if findChunk cs j = None then (if j = i then Some d else None) else payload cs j)"
  by (induction cs) (auto simp: payload_Cons findChunk_def)

lemma payload_removeChunk: "payload (removeChunk cs i) j = (if j = i then None else payload cs j)"
  by (induction cs) (auto simp: removeChunk_def payload_Cons)

interpretation beam: chunk_store payload setChunk removeChunk
proof unfold_locales
  fix f i d j
  show "payload (setChunk f i d) j = (if j = i then Some d else payload f j)"
  proof (cases "findChunk f i")
    case None
    then show ?thesis by (auto simp: setChunk_def payload_append) (simp add: payload_def)
  next
    case (Some c)
    then show ?thesis using payload_update_first [of f i d j] by (simp add: setChunk_def)
  qed
qed (rule payload_removeChunk)

text \<open>
  The chunks stay well formed when the new ids have four bytes and there is room for the payloads.
\<close>

definition small_chunk :: "string \<Rightarrow> u8 list \<Rightarrow> bool" where
  "small_chunk i d \<longleftrightarrow> length i = 4 \<and> length d < 2 ^ 32"

lemma setChunk_bounds:
  assumes "list_all (\<lambda>c. small_chunk (chunk_id c) (chunk_data c)) f" "small_chunk i d"
  shows "list_all (\<lambda>c. small_chunk (chunk_id c) (chunk_data c)) (setChunk f i d) \<and>
    bodySize (setChunk f i d) \<le> bodySize f + 8 + padded (length d)"
proof -
  have "list_all (\<lambda>c. small_chunk (chunk_id c) (chunk_data c)) (update_first i d f)"
    "bodySize (update_first i d f) \<le> bodySize f + 8 + padded (length d)"
    using assms by (induction i d f rule: update_first.induct) (auto simp: bodySize_sum)
  then show ?thesis using assms by (auto simp: setChunk_def bodySize_sum split: option.split)
qed

lemma set_chunks_well_formed:
  assumes "list_all (\<lambda>c. small_chunk (chunk_id c) (chunk_data c)) chunks" "list_all (\<lambda>(i, d). small_chunk i d) kvs"
    and "bodySize chunks + (\<Sum>(i, d)\<leftarrow>kvs. 8 + padded (length d)) + 8 < 2 ^ 32"
  shows "well_formed (foldl (\<lambda>f (i, d). setChunk f i d) chunks kvs)"
  using assms
proof (induction kvs arbitrary: chunks)
  case Nil
  then show ?case by (simp add: well_formed_def small_chunk_def)
next
  case (Cons e kvs)
  obtain i d where e: "e = (i, d)" by fastforce
  show ?case using Cons.IH [of "setChunk chunks i d"] Cons.prems setChunk_bounds [of chunks i d] by (simp add: e)
qed

text \<open>
  C38: what is stored under distinct chunk ids and written to a file is found in it again: after
  \<open>setChunk\<close> with distinct ids, when every id in the file has four bytes and the size of the form fits
  its 32-bit field (\<open>well_formed\<close>; \<open>set_chunks_well_formed\<close> has a condition on what is stored), the file written from
  the chunks, read back, has under each of these ids the payload it was set to and under any other
  id what it had.
\<close>
theorem stored_chunks_are_read_back:
  assumes "distinct (map fst kvs)" "well_formed (foldl (\<lambda>f (i, d). setChunk f i d) chunks kvs)"
  shows "\<exists>chunks'. readBeamFile (writeBeamFile (foldl (\<lambda>f (i, d). setChunk f i d) chunks kvs)) = Inr chunks' \<and>
    map_option chunk_data (findChunk chunks' j) =
      (case map_of kvs j of Some d \<Rightarrow> Some d | None \<Rightarrow> map_option chunk_data (findChunk chunks j))"
proof -
  let ?f = "foldl (\<lambda>f (i, d). setChunk f i d) chunks kvs"
  have "readBeamFile (writeBeamFile ?f) = Inr ?f"
    using written_is_read [OF assms(2), of "[]"] by simp
  moreover have "payload ?f j = (case map_of kvs j of Some d \<Rightarrow> Some d | None \<Rightarrow> payload chunks j)"
    by (rule beam.look_puts [OF assms(1)])
  ultimately show ?thesis by (auto simp: payload_def split: option.split)
qed

theorem stored_chunks_are_read_back_witness:
  "\<exists>chunks'. readBeamFile (writeBeamFile (setChunk [] ''KexI'' [7])) = Inr chunks' \<and>
    map_option chunk_data (findChunk chunks' ''KexI'') = Some [7]"
  using stored_chunks_are_read_back [of "[(''KexI'', [7])]" "[]" "''KexI''"]
  by (simp add: setChunk_def findChunk_def well_formed_def bodySize_def padded_eq)

text \<open>
  Setting a chunk leaves every other chunk of the file alone, byte for byte and in its
  place in the order: what remains without that id is what remained before.
\<close>
theorem setChunk_keeps_other_chunks:
  "filter (\<lambda>c. chunk_id c \<noteq> i) (setChunk chunks i d) = filter (\<lambda>c. chunk_id c \<noteq> i) chunks \<and>
   removeChunk (setChunk chunks i d) i = removeChunk chunks i"
proof -
  have "filter (\<lambda>c. chunk_id c \<noteq> i) (update_first i d chunks) = filter (\<lambda>c. chunk_id c \<noteq> i) chunks"
    by (induction i d chunks rule: update_first.induct) auto
  then show ?thesis by (simp add: setChunk_def removeChunk_def split: option.split)
qed

section \<open>Reading any bytes\<close>

definition stands_at :: "u8 list \<Rightarrow> Chunk \<Rightarrow> nat \<Rightarrow> bool" where
  "stands_at bytes c p \<longleftrightarrow> p + 8 + length (chunk_data c) \<le> length bytes \<and>
     chunk_id c = map char_of_byte (bytes_at bytes p 4) \<and>
     chunk_data c = bytes_at bytes (p + 8) (unat (readU32 bytes (p + 4)))"

lemma read_chunks_inside:
  "read_chunks bytes e pos acc = Inr cs \<Longrightarrow> e \<le> length bytes \<Longrightarrow>
     list_all (\<lambda>c. \<exists>p \<ge> 12. stands_at bytes c p) acc \<Longrightarrow> 12 \<le> pos \<Longrightarrow>
     list_all (\<lambda>c. \<exists>p \<ge> 12. stands_at bytes c p) cs"
proof (induction bytes e pos acc rule: read_chunks.induct)
  case (1 bytes e pos acc)
  let ?n = "unat (readU32 bytes (pos + 4))"
  show ?case
  proof (cases "pos + 8 \<le> e")
    case True
    have le: "pos + 8 + ?n \<le> e"
      using "1.prems"(1) True by (subst (asm) read_chunks.simps) (auto simp: Let_def split: if_splits)
    let ?c = "\<lparr>chunk_id = map char_of_byte (bytes_at bytes pos 4), chunk_data = bytes_at bytes (pos + 8) ?n\<rparr>"
    have "read_chunks bytes e (pos + 8 + padded ?n) (acc @ [?c]) = Inr cs"
      using "1.prems"(1) read_chunks_step [OF True refl le refl refl, of acc] by simp
    moreover have "stands_at bytes ?c pos"
      using le "1.prems"(2) by (simp add: stands_at_def bytes_at_def)
    ultimately show ?thesis
      using "1.IH" [OF True refl refl refl _ refl] le "1.prems" by (auto simp: not_less)
  next
    case False
    then have "cs = acc" using "1.prems"(1) by (simp add: read_chunks.simps [of bytes e pos acc])
    then show ?thesis using "1.prems" by simp
  qed
qed

lemma form_end_inside: "unat (formSize + 8 :: u32) \<le> n \<Longrightarrow> unat (8 + formSize) \<le> n"
  by (simp add: add.commute)

text \<open>
  The reader never takes a payload from outside the file: whatever the bytes are, each chunk
  it returns is, header and payload, a stretch of the file after the twelve header bytes, with
  the id and the length its own header states.
\<close>
theorem chunks_stand_in_the_file:
  "case readBeamFile bytes of
     Inl e \<Rightarrow> True
   | Inr chunks \<Rightarrow> list_all (\<lambda>c. \<exists>p \<ge> 12. stands_at bytes c p) chunks"
  using read_chunks_inside [of bytes "unat (8 + readU32 bytes 4)" 12 "[]"]
    form_end_inside [of "readU32 bytes 4" "length bytes"]
  by (auto simp: readBeamFile_def Let_def not_less split: sum.split)

text \<open>
  A form size of \<open>0xFFFFFFF8\<close> or more is not rejected: \<open>formSize + 8\<close> wraps to at most seven,
  so the check against the file's size passes, the loop ends before its first chunk, and the
  file is read as one without chunks instead of being reported as truncated.
\<close>
theorem huge_form_size_reads_as_empty:
  assumes "12 \<le> length bytes" "bytes_at bytes 0 4 = ascii ''FOR1''" "bytes_at bytes 8 4 = ascii ''BEAM''"
    and "readU32 bytes 4 \<ge> 0xFFFFFFF8"
  shows "readBeamFile bytes = Inr []"
proof -
  let ?f = "readU32 bytes 4"
  have k: "4294967288 \<le> unat ?f" "unat ?f < 4294967296"
    using assms(4) unsigned_less [of ?f] by (simp_all add: word_le_nat_alt)
  have sum: "unat (?f + 8) = (unat ?f + 8) mod 4294967296"
    by (simp add: unat_word_ariths)
  have wrap: "(k + 8) mod 4294967296 < 8" if r: "4294967288 \<le> k" "k < 4294967296" for k :: nat
  proof -
    obtain j where j: "k = 4294967288 + j" using le_Suc_ex [OF r(1)] by blast
    then have "k + 8 = j + 4294967296" "j < 8" using r(2) by simp_all
    then show ?thesis by simp
  qed
  have "unat (?f + 8) < 8" unfolding sum by (rule wrap [OF k])
  then have "unat (?f + 8) \<le> length bytes" "\<not> 20 \<le> unat (8 + ?f)"
    using assms(1) by (simp_all add: add.commute)
  then show ?thesis
    using assms(1-3) by (simp add: readBeamFile_def read_chunks.simps)
qed

theorem huge_form_size_reads_as_empty_witness:
  "readBeamFile (ascii ''FOR1'' @ [255, 255, 255, 252] @ ascii ''BEAM'') = Inr []"
  by (rule huge_form_size_reads_as_empty) (simp_all add: ascii_def bytes_at_def readU32_def)

end
