(* ===== verification/Values.thy ===== *)
theory Values
  imports KexPrelude Utf8 "HOL-Library.List_Lexorder" "HOL-Library.Char_ord"
begin

text \<open>
  The interpreter's runtime values (\<open>src/interpreter/value.hxx\<close>, \<open>value.cxx\<close>): the tagged
  union \<open>Value\<close>, the renderings \<open>toString\<close>, \<open>toRepr\<close> and \<open>inspect\<close>, the type names used for
  display, dispatch and patterns, structural equality, and the two representations of an
  integer.  An operation that needs the value behind a compile-time placeholder throws
  \<open>PlaceholderMisuse\<close>, so each of them returns a fault or its result.
\<close>

section \<open>Doubles\<close>

text \<open>
  A \<open>double\<close> is its 64 bits.  Classification and comparison are read off the bits: apart
  from NaN, the order of doubles is the order of sign-magnitude integers.
\<close>

type_synonym i64 = "64 word"
type_synonym double = "64 word"

definition signbit :: "double \<Rightarrow> bool" where
  "signbit v \<longleftrightarrow> bit v 63"

definition magnitude :: "double \<Rightarrow> nat" where
  "magnitude v = unat (take_bit 63 v)"

definition isNan :: "double \<Rightarrow> bool" where
  "isNan v \<longleftrightarrow> 0x7FF0000000000000 < magnitude v"

definition isInf :: "double \<Rightarrow> bool" where
  "isInf v \<longleftrightarrow> magnitude v = 0x7FF0000000000000"

definition order_key :: "double \<Rightarrow> int" where
  "order_key v = (if signbit v then - int (magnitude v) else int (magnitude v))"

definition fEq :: "double \<Rightarrow> double \<Rightarrow> bool" where
  "fEq a b \<longleftrightarrow> \<not> isNan a \<and> \<not> isNan b \<and> order_key a = order_key b"

definition fLess :: "double \<Rightarrow> double \<Rightarrow> bool" where
  "fLess a b \<longleftrightarrow> \<not> isNan a \<and> \<not> isNan b \<and> order_key a < order_key b"

definition nonFiniteFloatError :: "double \<Rightarrow> string \<Rightarrow> string option" where
  "nonFiniteFloatError v what =
     (if isNan v then Some (what @ '': undefined result (NaN)'')
      else if isInf v then Some (what @ '': result overflowed ('' @
             (if signbit v then ''-Infinity'' else ''Infinity'') @ '')'')
      else None)"

text \<open>
  What the values rely on outside the repository: the shortest scientific rendering of a
  double (\<open>std::to_chars\<close>), GMP's conversion of an integer to a double, and whether the feed
  state at an address has been spent.
\<close>

record host =
  to_chars :: "double \<Rightarrow> string"
  get_d :: "int \<Rightarrow> double"
  spent :: "nat \<Rightarrow> bool"

section \<open>Values\<close>

definition noHost :: host where
  \<comment> \<open>a host for evaluating operations that do not ask it anything\<close>
  "noHost = \<lparr>to_chars = (\<lambda>_. []), get_d = (\<lambda>_. 0), spent = (\<lambda>_. False)\<rparr>"

text \<open>
  A \<open>shared_ptr\<close> to a closure or to a stream or feed state is its address, \<open>None\<close> the null
  pointer.  The fields of a record are listed in the iteration order of their
  \<open>unordered_map\<close>.
\<close>

datatype val =
    UnitValue
  | IntValue i64
  | BigIntValue int
  | FloatValue double
  | StringValue string
  | BinaryValue "u8 list"
  | CharValue char32
  | BoolValue bool
  | AtomValue string
  | VariantValue string string "val list" "string list" "int list"
  | ModuleValue string
  | ProcessValue u64
  | TaskValue u64
  | ServerValue u64 i64
  | ListValue "val list"
  | TupleValue "val list"
  | MapValue "(val \<times> val) list"
  | RangeValue i64 i64 bool "val option" "val option"
  | StreamValue "nat option"
  | FeedValue "nat option"
  | FileHandleValue "nat option" string
  | RecordValue string "(string \<times> val) list"
  | FunctionValue string "nat option" int "nat option"
  | LambdaValue "string list" nat nat
  | PlaceholderValue nat string "string list"

datatype fault =
    PlaceholderMisuse string string
  | NullPointer

definition none :: val where
  "none = VariantValue ''None'' ''Optional'' [] [''X''] []"

definition just :: "val \<Rightarrow> val" where
  "just v = VariantValue ''Just'' ''Optional'' [v] [''T''] [0]"

definition ok :: "val \<Rightarrow> val" where
  "ok v = VariantValue ''Ok'' ''Result'' [v] [''T'', ''E''] [0]"

definition error_of :: "val \<Rightarrow> val" where
  "error_of v = VariantValue ''Error'' ''Result'' [v] [''T'', ''E''] [1]"

fun isNone :: "val \<Rightarrow> bool" where
  "isNone (VariantValue tag _ args _ _) = (tag = ''None'' \<and> args = [])"
| "isNone _ = False"

fun isTrue :: "val \<Rightarrow> fault + bool" where
  "isTrue (BoolValue b) = Inr b"
| "isTrue UnitValue = Inr False"
| "isTrue (PlaceholderValue _ name _) = Inl (PlaceholderMisuse name ''a condition'')"
| "isTrue v = Inr (\<not> isNone v)"

section \<open>Integers\<close>

fun asInteger :: "val \<Rightarrow> int option" where
  "asInteger (IntValue i) = Some (sint i)"
| "asInteger (BigIntValue n) = Some n"
| "asInteger _ = None"

definition integerResult :: "int \<Rightarrow> val" where
  "integerResult n =
     (if - (2 ^ 63) \<le> n \<and> n \<le> 2 ^ 63 - 1 then IntValue (word_of_int n) else BigIntValue n)"

definition digitValue :: "char \<Rightarrow> int option" where
  "digitValue c =
     (let u = of_char c :: int in
      if 0x30 \<le> u \<and> u \<le> 0x39 then Some (u - 0x30)
      else if 0x61 \<le> u \<and> u \<le> 0x7A then Some (u - 0x61 + 10)
      else if 0x41 \<le> u \<and> u \<le> 0x5A then Some (u - 0x41 + 10)
      else None)"

definition parseIntegerInBase :: "(string \<Rightarrow> int \<Rightarrow> int option) \<Rightarrow> string \<Rightarrow> int \<Rightarrow> int option" where
  \<comment> \<open>\<open>mpz_set_str\<close> is GMP's reader: \<open>None\<close> is its non-zero status\<close>
  "parseIntegerInBase mpz_set_str s base =
     (if base < 2 \<or> base > 36 then None
      else if s = [] then None
      else let i = (if hd s = CHR ''+'' \<or> hd s = CHR ''-'' then 1 else 0) in
        if i = length s then None
        else if \<exists>c \<in> set (drop i s). (case digitValue c of None \<Rightarrow> True | Some d \<Rightarrow> d \<ge> base) then None
        else mpz_set_str s base)"

section \<open>Decimal text\<close>

fun decNat :: "nat \<Rightarrow> string" where
  "decNat n = (if n < 10 then [char_of (0x30 + n)] else decNat (n div 10) @ [char_of (0x30 + n mod 10)])"

declare decNat.simps [simp del]

definition to_string :: "int \<Rightarrow> string" where
  \<comment> \<open>\<open>std::to_string\<close> of an integer, and \<open>mpz_class::get_str\<close>\<close>
  "to_string n = (if n < 0 then CHR ''-'' # decNat (nat (- n)) else decNat (nat n))"

definition stoi :: "string \<Rightarrow> int" where
  \<comment> \<open>\<open>std::stoi\<close> on an optional sign and decimal digits\<close>
  "stoi s =
     (let neg = (s \<noteq> [] \<and> hd s = CHR ''-'');
          ds = (if s \<noteq> [] \<and> (hd s = CHR ''-'' \<or> hd s = CHR ''+'') then tl s else s);
          n = foldl (\<lambda>n c. 10 * n + (of_char c - 0x30)) 0 (takeWhile (\<lambda>c. c \<in> set ''0123456789'') ds)
      in if neg then - n else n)"

function stripZeros :: "string \<Rightarrow> int \<Rightarrow> string \<times> int" where
  "stripZeros mantissa pw =
     (if length mantissa > 1 \<and> last mantissa = CHR ''0''
      then stripZeros (butlast mantissa) (pw + 1)
      else (mantissa, pw))"
  by pat_completeness auto
termination by (relation "measure (length \<circ> fst)") auto

declare stripZeros.simps [simp del]

definition splitScientific :: "string \<Rightarrow> string \<times> int" where
  \<comment> \<open>\<open>d.ddde+xx\<close> as a mantissa without its dot and the power of ten of its last digit\<close>
  "splitScientific s =
     (let mantissa = takeWhile (\<lambda>c. c \<noteq> CHR ''e'') s;
          pw = stoi (if CHR ''e'' \<in> set s then drop (length mantissa + 1) s else s)
      in if CHR ''.'' \<in> set mantissa
         then let whole = takeWhile (\<lambda>c. c \<noteq> CHR ''.'') mantissa;
                  frac = drop (length whole + 1) mantissa
              in (whole @ frac, pw - int (length frac))
         else (mantissa, pw))"

definition layoutFloat :: "bool \<Rightarrow> string \<Rightarrow> string \<Rightarrow> int \<Rightarrow> string" where
  \<comment> \<open>exponent form outside the range read as a plain number, plain notation inside it\<close>
  "layoutFloat outside sign mantissa pw =
     (if outside
      then sign @ take 1 mantissa @ ''.'' @ (if length mantissa > 1 then drop 1 mantissa else ''0'')
           @ ''e'' @ to_string (pw + int (length mantissa) - 1)
      else if pw \<ge> 0 then sign @ mantissa @ replicate (nat pw) (CHR ''0'') @ ''.0''
      else let shift = nat (- pw) in
        if length mantissa > shift
        then sign @ take (length mantissa - shift) mantissa @ ''.'' @ drop (length mantissa - shift) mantissa
        else sign @ ''0.'' @ replicate (shift - length mantissa) (CHR ''0'') @ mantissa)"

definition formatFloat :: "'a host_scheme \<Rightarrow> double \<Rightarrow> string" where
  "formatFloat h v =
     (if isNan v then ''NaN''
      else if isInf v then (if signbit v then ''-Infinity'' else ''Infinity'')
      else if fEq v 0 then (if signbit v then ''-0.0'' else ''0.0'')
      else let s = to_chars h v;
               neg = (s \<noteq> [] \<and> hd s = CHR ''-'');
               (mantissa, pw) = splitScientific (if neg then tl s else s);
               (mantissa, pw) = stripZeros mantissa pw;
               mag = take_bit 63 v
           in layoutFloat (fLess mag 0x3F1A36E2EB1C432D \<or> \<not> fLess mag 0x4341C37937E08000)
                (if neg then ''-'' else []) mantissa pw)"

section \<open>Rendering\<close>

definition isalnum :: "char \<Rightarrow> bool" where
  "isalnum c \<longleftrightarrow> c \<in> set ''0123456789ABCDEFGHIJKLMNOPQRSTUVWXYZabcdefghijklmnopqrstuvwxyz''"

fun containsDoubleAt :: "string \<Rightarrow> bool" where
  "containsDoubleAt (c # d # s) = (c = CHR ''@'' \<and> d = CHR ''@'' \<or> containsDoubleAt (d # s))"
| "containsDoubleAt _ = False"

definition bareAtom :: "string \<Rightarrow> bool" where
  "bareAtom name \<longleftrightarrow> name \<noteq> [] \<and> CHR ''a'' \<le> hd name \<and> hd name \<le> CHR ''z'' \<and>
     last name \<noteq> CHR ''@'' \<and> \<not> containsDoubleAt name \<and>
     list_all (\<lambda>c. isalnum c \<or> c = CHR ''_'' \<or> c = CHR ''@'') name"

definition quoteAtom :: "string \<Rightarrow> string" where
  "quoteAtom name = concat (map (\<lambda>c. if c = CHR 0x22 \<or> c = CHR 0x5C then [CHR 0x5C, c] else [c]) name)"

definition atomToString :: "string \<Rightarrow> string" where
  "atomToString name =
     (if bareAtom name then CHR '':'' # name else CHR '':'' # CHR 0x22 # quoteAtom name @ [CHR 0x22])"

definition narrow :: "i64 \<Rightarrow> char" where
  \<comment> \<open>\<open>static_cast<char>\<close> of an \<open>int64_t\<close>\<close>
  "narrow i = char_of (unat i)"

definition positional :: "(string \<times> val) list \<Rightarrow> bool" where
  "positional flds \<longleftrightarrow> flds \<noteq> [] \<and>
     list_all (\<lambda>i. map_of flds (decNat i) \<noteq> None) [0..<length flds]"

definition positionalFields :: "(string \<times> val) list \<Rightarrow> val list" where
  "positionalFields flds = List.map_filter (\<lambda>i. map_of flds (decNat i)) [0..<length flds]"

definition sortedFields :: "(string \<times> val) list \<Rightarrow> (string \<times> val) list" where
  "sortedFields flds = sort_key fst flds"

fun atomKeyName :: "val \<Rightarrow> string option" where
  "atomKeyName (AtomValue name) = Some name"
| "atomKeyName _ = None"

definition renderKey :: "val \<Rightarrow> string \<Rightarrow> string" where
  "renderKey key rendered = (case atomKeyName key of Some name \<Rightarrow> name | None \<Rightarrow> rendered)"

lemma entry_size:
  "(k, v) \<in> set flds \<Longrightarrow> size v < Suc (size_list (\<lambda>p. Suc (size (snd p))) flds)"
  using size_list_estimation' [of "(k, v)" flds "Suc (size v)" "\<lambda>p. Suc (size (snd p))"] by simp

lemma entry_size2:
  "(k, v) \<in> set entries \<Longrightarrow> size v < Suc (size_list (\<lambda>p. Suc (size (fst p) + size (snd p))) entries)"
  using size_list_estimation' [of "(k, v)" entries "size v" "\<lambda>p. Suc (size (fst p) + size (snd p))"] by simp

lemma zip_size [termination_simp]:
  "(v, i) \<in> set (zip vs index) \<Longrightarrow> size v < Suc (size_list size vs)"
  using size_list_estimation' [of v vs "size v" size] by (auto dest!: set_zip_leftD)

lemma set_sortedFields [simp]: "set (sortedFields flds) = set flds"
  by (simp add: sortedFields_def)

lemma positionalFields_entry: "v \<in> set (positionalFields flds) \<Longrightarrow> \<exists>k. (k, v) \<in> set flds"
  by (force simp: positionalFields_def List.map_filter_def dest: map_of_SomeD)

lemma positionalFields_size [termination_simp]:
  "v \<in> set (positionalFields flds) \<Longrightarrow> size v < Suc (size_list (\<lambda>p. Suc (size (snd p))) flds)"
  by (auto dest!: positionalFields_entry simp: entry_size)

text \<open>
  \<open>toString\<close> orders the entries of a map by the text of their keys.  When a map holds
  several placeholder keys the sort decides which one the exception names; here it is the
  first.
\<close>

function toString :: "'a host_scheme \<Rightarrow> val \<Rightarrow> fault + string" where
  "toString h (PlaceholderValue _ name _) = Inl (PlaceholderMisuse name ''converting it to text'')"
| "toString h UnitValue = Inr ''()''"
| "toString h (IntValue i) = Inr (to_string (sint i))"
| "toString h (BigIntValue n) = Inr (to_string n)"
| "toString h (FloatValue v) = Inr (formatFloat h v)"
| "toString h (StringValue s) = Inr s"
| "toString h (BinaryValue bytes) = Inr (''#Binary<'' @ to_string (int (length bytes)) @ '' bytes>'')"
| "toString h (CharValue c) = Inr (encode c)"
| "toString h (BoolValue b) = Inr (if b then ''true'' else ''false'')"
| "toString h (AtomValue name) = Inr (atomToString name)"
| "toString h (VariantValue tag _ args _ _) =
     (if args = [] then Inr tag
      else sum_bind (mapE (toString h) args) (\<lambda>ts. Inr (tag @ ''('' @ joinWith '', '' ts @ '')'')))"
| "toString h (ModuleValue name) = Inr name"
| "toString h (ProcessValue pid) = Inr (''#Process<'' @ to_string (uint pid) @ ''>'')"
| "toString h (TaskValue pid) = Inr (''#Task<'' @ to_string (uint pid) @ ''>'')"
| "toString h (ServerValue pid _) = Inr (''#Server<'' @ to_string (uint pid) @ ''>'')"
| "toString h (ListValue vs) =
     sum_bind (mapE (toString h) vs) (\<lambda>ts. Inr (''['' @ joinWith '', '' ts @ '']''))"
| "toString h (TupleValue vs) =
     sum_bind (mapE (toString h) vs) (\<lambda>ts. Inr (''('' @ joinWith '', '' ts @ '')''))"
| "toString h (MapValue entries) =
     sum_bind (mapE (\<lambda>e. toString h (fst e)) entries) (\<lambda>keys.
     sum_bind (mapE (\<lambda>e. toString h (snd e)) (map snd (sort_key fst (zip keys entries)))) (\<lambda>vals.
       Inr (''{ '' @ joinWith '', '' (map2 (\<lambda>(key, e) t. renderKey (fst e) key @ '': '' @ t)
                (sort_key fst (zip keys entries)) vals) @ '' }'')))"
| "toString h (RangeValue start end isChar lower upper) =
     (case lower of
        Some lo \<Rightarrow> (case upper of
            Some hi \<Rightarrow> sum_bind (toString h lo) (\<lambda>l. sum_bind (toString h hi) (\<lambda>u. Inr (l @ ''..'' @ u)))
          | None \<Rightarrow> Inl NullPointer)
      | None \<Rightarrow>
          Inr (if isChar
               then [CHR 0x27, narrow start, CHR 0x27] @ ''..'' @ [CHR 0x27, narrow end, CHR 0x27]
               else to_string (sint start) @ ''..'' @ to_string (sint end)))"
| "toString h (StreamValue cell) = Inr ''<Stream>''"
| "toString h (FeedValue state) =
     Inr (case state of Some p \<Rightarrow> if spent h p then ''<Feed: spent>'' else ''<Feed>'' | None \<Rightarrow> ''<Feed>'')"
| "toString h (FileHandleValue _ path) = Inr (''<FileHandle: '' @ [CHR 0x22] @ path @ [CHR 0x22] @ ''>'')"
| "toString h (RecordValue type flds) =
     (if positional flds
      then sum_bind (mapE (toString h) (positionalFields flds)) (\<lambda>ts.
             Inr (type @ ''('' @ joinWith '', '' ts @ '')''))
      else sum_bind (mapE (\<lambda>f. sum_bind (toString h (snd f)) (\<lambda>t. Inr (fst f @ '': '' @ t)))
                       (sortedFields flds)) (\<lambda>ts.
             Inr (type @ '' { '' @ joinWith '', '' ts @ '' }'')))"
| "toString h (FunctionValue name _ _ _) = Inr (''<function:'' @ name @ ''>'')"
| "toString h (LambdaValue _ _ _) = Inr ''<lambda>''"
  by pat_completeness auto
termination
  by (relation "measure (size \<circ> snd)") (auto simp: termination_simp entry_size entry_size2 dest!: set_zip_rightD)

fun toRepr :: "'a host_scheme \<Rightarrow> val \<Rightarrow> fault + string" where
  "toRepr h (PlaceholderValue _ name _) = Inl (PlaceholderMisuse name ''converting it to text'')"
| "toRepr h (StringValue s) = Inr ([CHR 0x22] @ s @ [CHR 0x22])"
| "toRepr h (CharValue c) = Inr ([CHR 0x27] @ encode c @ [CHR 0x27])"
| "toRepr h (ListValue vs) =
     sum_bind (mapE (toRepr h) vs) (\<lambda>ts. Inr (''['' @ joinWith '', '' ts @ '']''))"
| "toRepr h (TupleValue vs) =
     sum_bind (mapE (toRepr h) vs) (\<lambda>ts. Inr (''('' @ joinWith '', '' ts @ '')''))"
| "toRepr h (MapValue entries) =
     sum_bind (mapE (\<lambda>e. case atomKeyName (fst e) of
         Some name \<Rightarrow> sum_bind (toRepr h (snd e)) (\<lambda>t. Inr (name @ '': '' @ t))
       | None \<Rightarrow> sum_bind (toRepr h (fst e)) (\<lambda>k.
                 sum_bind (toRepr h (snd e)) (\<lambda>t. Inr (k @ '': '' @ t)))) entries)
     (\<lambda>ts. Inr (''{ '' @ joinWith '', '' ts @ '' }''))"
| "toRepr h (VariantValue tag parent args params index) =
     (if args = [] then Inr tag
      else sum_bind (mapE (toRepr h) args) (\<lambda>ts. Inr (tag @ ''('' @ joinWith '', '' ts @ '')'')))"
| "toRepr h (RecordValue type flds) =
     (if positional flds
      then sum_bind (mapE (toRepr h) (positionalFields flds)) (\<lambda>ts.
             Inr (type @ ''('' @ joinWith '', '' ts @ '')''))
      else sum_bind (mapE (\<lambda>f. sum_bind (toRepr h (snd f)) (\<lambda>t. Inr (fst f @ '': '' @ t))) flds) (\<lambda>ts.
             Inr (type @ '' { '' @ joinWith '', '' ts @ '' }'')))"
| "toRepr h v = toString h v"

text \<open>
  \<open>inspect\<close> paints each leaf with an ANSI colour of \<open>common/color.hxx\<close> when colours are
  enabled.
\<close>

definition ansi :: "string \<Rightarrow> string" where
  "ansi code = CHR 0x1B # CHR ''['' # code @ ''m''"

definition color_reset :: string where "color_reset = ansi ''0''"
definition green :: string where "green = ansi ''32''"
definition yellow :: string where "yellow = ansi ''33''"
definition magenta :: string where "magenta = ansi ''35''"
definition cyan :: string where "cyan = ansi ''36''"
definition gray :: string where "gray = ansi ''90''"
definition purple :: string where "purple = ansi ''95''"

definition apply_color :: "bool \<Rightarrow> string \<Rightarrow> string" where
  "apply_color enabled code = (if enabled then code else [])"

definition paint :: "bool \<Rightarrow> string \<Rightarrow> string \<Rightarrow> string" where
  \<comment> \<open>\<open>std::string(c(code)) + t + c(reset)\<close>\<close>
  "paint on code t = apply_color on code @ t @ apply_color on color_reset"

fun inspect :: "'a host_scheme \<Rightarrow> bool \<Rightarrow> val \<Rightarrow> fault + string" where
  "inspect h on (PlaceholderValue _ name _) = Inl (PlaceholderMisuse name ''converting it to text'')"
| "inspect h on UnitValue = Inr (paint on gray ''()'')"
| "inspect h on (IntValue i) = Inr (paint on yellow (to_string (sint i)))"
| "inspect h on (BigIntValue n) = Inr (paint on yellow (to_string n))"
| "inspect h on (FloatValue v) = Inr (paint on yellow (formatFloat h v))"
| "inspect h on (StringValue s) = Inr (paint on green ([CHR 0x22] @ s @ [CHR 0x22]))"
| "inspect h on (BinaryValue bytes) =
     Inr (paint on gray (''#Binary<'' @ to_string (int (length bytes)) @ '' bytes>''))"
| "inspect h on (CharValue c) = Inr (paint on green ([CHR 0x27] @ encode c @ [CHR 0x27]))"
| "inspect h on (BoolValue b) = Inr (paint on magenta (if b then ''true'' else ''false''))"
| "inspect h on (AtomValue name) = Inr (paint on purple (CHR '':'' # name))"
| "inspect h on (VariantValue tag _ args _ _) =
     (if args = [] then Inr (paint on cyan tag)
      else sum_bind (mapE (inspect h on) args) (\<lambda>ts.
             Inr (paint on cyan tag @ ''('' @ joinWith '', '' ts @ '')'')))"
| "inspect h on (ModuleValue name) = Inr (paint on cyan name)"
| "inspect h on (ProcessValue pid) = Inr (paint on gray (''#Process<'' @ to_string (uint pid) @ ''>''))"
| "inspect h on (TaskValue pid) = Inr (paint on gray (''#Task<'' @ to_string (uint pid) @ ''>''))"
| "inspect h on (ServerValue pid _) = Inr (paint on gray (''#Server<'' @ to_string (uint pid) @ ''>''))"
| "inspect h on (ListValue vs) =
     sum_bind (mapE (inspect h on) vs) (\<lambda>ts. Inr (''['' @ joinWith '', '' ts @ '']''))"
| "inspect h on (TupleValue vs) =
     sum_bind (mapE (inspect h on) vs) (\<lambda>ts. Inr (''('' @ joinWith '', '' ts @ '')''))"
| "inspect h on (MapValue entries) =
     sum_bind (mapE (\<lambda>e. case atomKeyName (fst e) of
         Some name \<Rightarrow> sum_bind (inspect h on (snd e)) (\<lambda>t. Inr (paint on purple name @ '': '' @ t))
       | None \<Rightarrow> sum_bind (inspect h on (fst e)) (\<lambda>k.
                 sum_bind (inspect h on (snd e)) (\<lambda>t. Inr (k @ '': '' @ t)))) entries)
     (\<lambda>ts. Inr (''{ '' @ joinWith '', '' ts @ '' }''))"
| "inspect h on (RangeValue start end isChar lower upper) =
     (case lower of
        Some lo \<Rightarrow> (case upper of
            Some hi \<Rightarrow> sum_bind (inspect h on lo) (\<lambda>l. sum_bind (inspect h on hi) (\<lambda>u. Inr (l @ ''..'' @ u)))
          | None \<Rightarrow> Inl NullPointer)
      | None \<Rightarrow>
          Inr (if isChar
               then paint on green [CHR 0x27, narrow start, CHR 0x27] @ ''..''
                    @ paint on green [CHR 0x27, narrow end, CHR 0x27]
               else paint on yellow (to_string (sint start)) @ ''..''
                    @ paint on yellow (to_string (sint end))))"
| "inspect h on (StreamValue cell) = Inr (paint on gray ''<Stream>'')"
| "inspect h on (FeedValue state) =
     Inr (paint on gray
       (case state of Some p \<Rightarrow> if spent h p then ''<Feed: spent>'' else ''<Feed>'' | None \<Rightarrow> ''<Feed>''))"
| "inspect h on (FileHandleValue _ path) =
     Inr (paint on gray (''<FileHandle: '' @ [CHR 0x22] @ path @ [CHR 0x22] @ ''>''))"
| "inspect h on (RecordValue type flds) =
     (if positional flds
      then sum_bind (mapE (inspect h on) (positionalFields flds)) (\<lambda>ts.
             Inr (paint on cyan type @ ''('' @ joinWith '', '' ts @ '')''))
      else sum_bind (mapE (\<lambda>f. sum_bind (inspect h on (snd f)) (\<lambda>t. Inr (fst f @ '': '' @ t))) flds) (\<lambda>ts.
             Inr (paint on cyan type @ '' { '' @ joinWith '', '' ts @ '' }'')))"
| "inspect h on (FunctionValue name _ _ _) = Inr (paint on gray (''<function:'' @ name @ ''>''))"
| "inspect h on (LambdaValue _ _ _) = Inr (paint on gray ''<lambda>'')"

section \<open>Type names\<close>

definition resolveParams :: "string list \<Rightarrow> int list \<Rightarrow> string list \<Rightarrow> string list \<times> bool" where
  \<comment> \<open>each argument's type name is stored at the parameter it instantiates; the flag says any was\<close>
  "resolveParams names index params =
     foldl (\<lambda>(resolved, anyResolved) (t, pi).
        if pi \<ge> 0 \<and> nat pi < length resolved then (resolved[nat pi := t], True) else (resolved, anyResolved))
      (replicate (length params) ''?'', False) (zip names index)"

fun typeName :: "val \<Rightarrow> fault + string" where
  "typeName (PlaceholderValue _ name _) = Inl (PlaceholderMisuse name ''asking for its type'')"
| "typeName UnitValue = Inr ''Void''"
| "typeName (IntValue _) = Inr ''Integer''"
| "typeName (BigIntValue _) = Inr ''Integer''"
| "typeName (FloatValue _) = Inr ''Float''"
| "typeName (StringValue _) = Inr ''String''"
| "typeName (BinaryValue _) = Inr ''Binary''"
| "typeName (CharValue _) = Inr ''Char''"
| "typeName (BoolValue _) = Inr ''Bool''"
| "typeName (AtomValue _) = Inr ''Atom''"
| "typeName (VariantValue tag parent args params index) =
     (let base = (if parent = [] then tag else parent) in
      if params = [] then Inr base
      else sum_bind
             (mapE (\<lambda>(v, pi). if pi \<ge> 0 \<and> nat pi < length params then typeName v else Inr []) (zip args index))
             (\<lambda>names. let (resolved, anyResolved) = resolveParams names index params in
                Inr (if anyResolved then base @ ''<'' @ joinWith '', '' resolved @ ''>'' else base)))"
| "typeName (ModuleValue _) = Inr ''Module''"
| "typeName (ProcessValue _) = Inr ''Process''"
| "typeName (TaskValue _) = Inr ''Task''"
| "typeName (ServerValue _ _) = Inr ''Server''"
| "typeName (ListValue []) = Inr ''List''"
| "typeName (ListValue (v # vs)) = sum_bind (typeName v) (\<lambda>t. Inr (''['' @ t @ '']''))"
| "typeName (TupleValue _) = Inr ''Tuple''"
| "typeName (MapValue _) = Inr ''Map''"
| "typeName (RangeValue _ _ _ _ _) = Inr ''Range''"
| "typeName (StreamValue _) = Inr ''Stream''"
| "typeName (FeedValue _) = Inr ''Feed''"
| "typeName (FileHandleValue _ _) = Inr ''FileHandle''"
| "typeName (RecordValue type _) = Inr type"
| "typeName (FunctionValue _ _ _ _) = Inr ''Function''"
| "typeName (LambdaValue _ _ _) = Inr ''Lambda''"

fun dispatchTypeName :: "val \<Rightarrow> fault + string" where
  "dispatchTypeName (PlaceholderValue _ name _) =
     Inl (PlaceholderMisuse name ''dispatching a method on it'')"
| "dispatchTypeName (RecordValue type _) = Inr type"
| "dispatchTypeName (VariantValue tag _ _ _ _) = Inr tag"
| "dispatchTypeName (AtomValue _) = Inr ''Atom''"
| "dispatchTypeName (TupleValue _) = Inr ''Tuple''"
| "dispatchTypeName UnitValue = Inr ''Void''"
| "dispatchTypeName (ListValue _) = Inr ''List''"
| "dispatchTypeName (MapValue _) = Inr ''Map''"
| "dispatchTypeName (FileHandleValue _ _) = Inr ''FileHandle''"
| "dispatchTypeName (ProcessValue _) = Inr ''Pid''"
| "dispatchTypeName (ServerValue _ _) = Inr ''Server''"
| "dispatchTypeName (IntValue _) = Inr ''Integer''"
| "dispatchTypeName (BigIntValue _) = Inr ''Integer''"
| "dispatchTypeName (FloatValue _) = Inr ''Float''"
| "dispatchTypeName (BoolValue _) = Inr ''Bool''"
| "dispatchTypeName (CharValue _) = Inr ''Char''"
| "dispatchTypeName (StringValue _) = Inr ''String''"
| "dispatchTypeName (BinaryValue _) = Inr ''Binary''"
| "dispatchTypeName (RangeValue _ _ _ _ _) = Inr ''Range''"
| "dispatchTypeName (StreamValue _) = Inr ''Stream''"
| "dispatchTypeName (FeedValue _) = Inr ''Feed''"
| "dispatchTypeName _ = Inr []"

definition dispatchSupertypes :: "string \<Rightarrow> string list" where
  "dispatchSupertypes name =
     (if name = ''Integer'' \<or> name = ''Int'' \<or> name = ''Float'' then [''Number''] else [])"

fun matchesTypeName :: "string \<Rightarrow> val \<Rightarrow> bool" where
  "matchesTypeName name (StringValue _) = (name = ''String'')"
| "matchesTypeName name (BinaryValue _) = (name = ''Binary'')"
| "matchesTypeName name (IntValue _) = (name = ''Int'' \<or> name = ''Integer'')"
| "matchesTypeName name (BigIntValue _) = (name = ''Int'' \<or> name = ''Integer'')"
| "matchesTypeName name (FloatValue _) = (name = ''Float'')"
| "matchesTypeName name (BoolValue _) = (name = ''Bool'')"
| "matchesTypeName name (AtomValue _) = (name = ''Atom'')"
| "matchesTypeName name (CharValue _) = (name = ''Char'')"
| "matchesTypeName name (ListValue _) = (name = ''List'')"
| "matchesTypeName name (TupleValue _) = (name = ''Tuple'')"
| "matchesTypeName name (MapValue _) = (name = ''Map'')"
| "matchesTypeName name (RangeValue _ _ _ _ _) = (name = ''Range'')"
| "matchesTypeName name (StreamValue _) = (name = ''Stream'')"
| "matchesTypeName name (FeedValue _) = (name = ''Feed'')"
| "matchesTypeName name _ = False"

definition builtinTypeNames :: "string list" where
  "builtinTypeNames = [''Integer'', ''Float'', ''Char'', ''Bool'', ''Number'', ''String'',
     ''List'', ''Map'', ''Range'', ''Optional'', ''Result'']"

definition defaultEvalAllowList :: "string list" where
  "defaultEvalAllowList = [''Math'', ''List'', ''String'', ''Integer'', ''Map'', ''Stream'']"


section \<open>Equality\<close>

fun stringText :: "val \<Rightarrow> string option" where
  "stringText (StringValue s) = Some s"
| "stringText _ = None"

fun textContent :: "val \<Rightarrow> string option" where
  "textContent (CharValue c) = Some (encode c)"
| "textContent v = stringText v"

fun floatOf :: "val \<Rightarrow> double option" where
  "floatOf (FloatValue v) = Some v"
| "floatOf _ = None"

fun placeholderName :: "val \<Rightarrow> string option" where
  "placeholderName (PlaceholderValue _ name _) = Some name"
| "placeholderName _ = None"

definition scalarEqual :: "'a host_scheme \<Rightarrow> val \<Rightarrow> val \<Rightarrow> bool option" where
  \<comment> \<open>the comparisons made before the same-alternative one: texts, integers in either
    representation, and an integer with a float\<close>
  "scalarEqual h a b =
     (case (stringText a, stringText b) of (Some s, Some t) \<Rightarrow> Some (s = t)
      | _ \<Rightarrow> (case (asInteger a, asInteger b) of (Some m, Some n) \<Rightarrow> Some (m = n)
      | _ \<Rightarrow> (case (floatOf a, asInteger b) of (Some x, Some n) \<Rightarrow> Some (fEq x (get_d h n))
      | _ \<Rightarrow> (case (asInteger a, floatOf b) of (Some m, Some y) \<Rightarrow> Some (fEq (get_d h m) y)
      | _ \<Rightarrow> None))))"

definition leafEqual :: "val \<Rightarrow> val \<Rightarrow> bool" where
  "leafEqual a b =
     (case a of
        FloatValue x \<Rightarrow> (case b of FloatValue y \<Rightarrow> fEq x y | _ \<Rightarrow> False)
      | CharValue x \<Rightarrow> (case b of CharValue y \<Rightarrow> x = y | _ \<Rightarrow> False)
      | BoolValue x \<Rightarrow> (case b of BoolValue y \<Rightarrow> x = y | _ \<Rightarrow> False)
      | AtomValue x \<Rightarrow> (case b of AtomValue y \<Rightarrow> x = y | _ \<Rightarrow> False)
      | ProcessValue x \<Rightarrow> (case b of ProcessValue y \<Rightarrow> x = y | _ \<Rightarrow> False)
      | TaskValue x \<Rightarrow> (case b of TaskValue y \<Rightarrow> x = y | _ \<Rightarrow> False)
      | ServerValue x _ \<Rightarrow> (case b of ServerValue y _ \<Rightarrow> x = y | _ \<Rightarrow> False)
      | BinaryValue x \<Rightarrow> (case b of BinaryValue y \<Rightarrow> x = y | _ \<Rightarrow> False)
      | _ \<Rightarrow> False)"

text \<open>
  The branches of the \<open>std::visit\<close> on two values of one alternative: decided at once, or
  left to a loop over the elements, the entries or the fields.
\<close>

datatype comparison =
    Decided bool
  | Elements "val list" "val list"
  | Bounds val val "val option" "val option"
  | Entries "(val \<times> val) list" "(val \<times> val) list"
  | Fields "(string \<times> val) list" "(string \<times> val) list"

definition sameAlternative :: "val \<Rightarrow> val \<Rightarrow> comparison" where
  "sameAlternative a b =
     (case a of
        ListValue xs \<Rightarrow> (case b of ListValue ys \<Rightarrow>
            if length xs = length ys then Elements xs ys else Decided False | _ \<Rightarrow> Decided False)
      | TupleValue xs \<Rightarrow> (case b of TupleValue ys \<Rightarrow>
            if length xs = length ys then Elements xs ys else Decided False | _ \<Rightarrow> Decided False)
      | RangeValue s e isChar lower upper \<Rightarrow> (case b of RangeValue s' e' isChar' lower' upper' \<Rightarrow>
            (case (lower, lower') of
               (Some l, Some l') \<Rightarrow> Bounds l l' upper upper'
             | (None, None) \<Rightarrow> Decided (isChar = isChar' \<and> s = s' \<and> e = e')
             | _ \<Rightarrow> Decided False) | _ \<Rightarrow> Decided False)
      | MapValue es \<Rightarrow> (case b of MapValue fs \<Rightarrow>
            if length es = length fs then Entries es fs else Decided False | _ \<Rightarrow> Decided False)
      | VariantValue tag _ xs _ _ \<Rightarrow> (case b of VariantValue tag' _ ys _ _ \<Rightarrow>
            if tag = tag' \<and> length xs = length ys then Elements xs ys else Decided False
            | _ \<Rightarrow> Decided False)
      | RecordValue type es \<Rightarrow> (case b of RecordValue type' fs \<Rightarrow>
            if type = type' \<and> length es = length fs then Fields es fs else Decided False
            | _ \<Rightarrow> Decided False)
      | _ \<Rightarrow> Decided (leafEqual a b))"

fun placeholderIn :: "val \<Rightarrow> val \<Rightarrow> string option" where
  "placeholderIn a b = (case placeholderName a of Some n \<Rightarrow> Some n | None \<Rightarrow> placeholderName b)"

lemma size_prod_parts: "size_prod f g = (\<lambda>p. Suc (f (fst p) + g (snd p)))"
  by (simp add: fun_eq_iff split_paired_all)

lemma sameAlternative_size [termination_simp]:
  "sameAlternative a b = Elements xs ys \<Longrightarrow> size_list size xs < size a"
  "sameAlternative a b = Bounds l l' u u' \<Longrightarrow> size l < size a"
  "sameAlternative a b = Bounds l l' (Some v) u' \<Longrightarrow> size v < size a"
  "sameAlternative a b = Entries es fs \<Longrightarrow> size_list (\<lambda>p. Suc (size (fst p) + size (snd p))) es < size a"
  "sameAlternative a b = Fields fes ffs \<Longrightarrow> size_list (\<lambda>p. Suc (size (snd p))) fes < size a"
  by (auto simp: sameAlternative_def size_prod_parts split: val.splits option.splits if_splits)

text \<open>
  The loops return at the first difference, and an exception in a comparison ends them.
\<close>

function valuesEqual :: "'a host_scheme \<Rightarrow> val \<Rightarrow> val \<Rightarrow> fault + bool"
  and allEqual :: "'a host_scheme \<Rightarrow> val list \<Rightarrow> val list \<Rightarrow> fault + bool"
  and entriesEqual :: "'a host_scheme \<Rightarrow> (val \<times> val) list \<Rightarrow> (val \<times> val) list \<Rightarrow> fault + bool"
  and entryIn :: "'a host_scheme \<Rightarrow> val \<Rightarrow> val \<Rightarrow> (val \<times> val) list \<Rightarrow> fault + bool"
  and fieldsEqual :: "'a host_scheme \<Rightarrow> (string \<times> val) list \<Rightarrow> (string \<times> val) list \<Rightarrow> fault + bool"
where
  "valuesEqual h a b =
     (case scalarEqual h a b of Some r \<Rightarrow> Inr r
      | None \<Rightarrow> (case placeholderIn a b of Some n \<Rightarrow> Inl (PlaceholderMisuse n ''comparing it'')
      | None \<Rightarrow> (case sameAlternative a b of
            Decided r \<Rightarrow> Inr r
          | Elements xs ys \<Rightarrow> allEqual h xs ys
          | Bounds l l' upper upper' \<Rightarrow>
              sum_bind (valuesEqual h l l') (\<lambda>e. if \<not> e then Inr False
                else case upper of
                    None \<Rightarrow> Inr (upper' = None)
                  | Some u \<Rightarrow> (case upper' of None \<Rightarrow> Inr False | Some u' \<Rightarrow> valuesEqual h u u'))
          | Entries es fs \<Rightarrow> entriesEqual h es fs
          | Fields es fs \<Rightarrow> fieldsEqual h es fs)))"
| "allEqual h (x # xs) (y # ys) =
     sum_bind (valuesEqual h x y) (\<lambda>e. if e then allEqual h xs ys else Inr False)"
| "allEqual h [] ys = Inr True"
| "allEqual h (x # xs) [] = Inr True"
| "entriesEqual h [] fs = Inr True"
| "entriesEqual h ((k, v) # es) fs =
     sum_bind (entryIn h k v fs) (\<lambda>found. if found then entriesEqual h es fs else Inr False)"
| "entryIn h k v [] = Inr False"
| "entryIn h k v ((bk, bv) # fs) =
     sum_bind (valuesEqual h k bk) (\<lambda>e. if e then valuesEqual h v bv else entryIn h k v fs)"
| "fieldsEqual h [] fs = Inr True"
| "fieldsEqual h ((k, v) # es) fs =
     (case map_of fs k of None \<Rightarrow> Inr False
      | Some w \<Rightarrow> sum_bind (valuesEqual h v w) (\<lambda>e. if e then fieldsEqual h es fs else Inr False))"
  by pat_completeness auto
termination
  by (relation "inv_image (less_than <*lex*> less_than)
        (case_sum (case_sum (\<lambda>(h, a, b). (2 * size a, 0))
                            (\<lambda>(h, xs, ys). (2 * size_list size xs + 1, 0)))
                  (case_sum (\<lambda>(h, es, fs). (2 * size_list (\<lambda>p. Suc (size (fst p) + size (snd p))) es + 1, 0))
                  (case_sum (\<lambda>(h, k, v, fs). (2 * (size k + size v) + 1, length fs))
                            (\<lambda>(h, es, fs). (2 * size_list (\<lambda>p. Suc (size (snd p))) es + 1, 0)))))")
     (auto dest: sameAlternative_size)

declare valuesEqual.simps [simp del]

end
