(* ===== verification/Operators.thy ===== *)
theory Operators
  imports Values Token "HOL-Library.Signed_Division"
begin

text \<open>
  The binary and unary operators of the tree-walking evaluator (\<open>evalBinaryOp\<close> and
  \<open>evalUnaryOp\<close> of \<open>src/interpreter/evaluator.cxx\<close>): which operands go to an overload, the
  primitive arithmetic with its promotion from 64-bit to arbitrary precision, ordering,
  equality and the logical operators, and the errors each of them raises.
\<close>

section \<open>Outcomes and the environment of an operator\<close>

text \<open>
  \<open>Trap\<close> is the one outcome C++ gives no meaning to: a signed 64-bit quotient that does not
  fit (the processor raises an exception).
\<close>

datatype evalError =
    Misuse fault
  | RuntimeError string
  | Trap

definition checked :: "fault + 'b \<Rightarrow> ('b \<Rightarrow> evalError + 'c) \<Rightarrow> evalError + 'c" where
  "checked r f = (case r of Inl e \<Rightarrow> Inl (Misuse e) | Inr x \<Rightarrow> f x)"

lemma checked_simps [simp]: "checked (Inl e) f = Inl (Misuse e)" "checked (Inr x) f = f x"
  by (simp_all add: checked_def)

text \<open>
  Floating-point arithmetic is the processor's.  The overload tables of the evaluator are
  the clauses registered under each name, given by their parameters.
\<close>

record machine = host +
  of_int64 :: "i64 \<Rightarrow> double"
  fadd :: "double \<Rightarrow> double \<Rightarrow> double"
  fsub :: "double \<Rightarrow> double \<Rightarrow> double"
  fmul :: "double \<Rightarrow> double \<Rightarrow> double"
  fdiv :: "double \<Rightarrow> double \<Rightarrow> double"
  fpow :: "double \<Rightarrow> double \<Rightarrow> double"

record ('p, 't) dispatcher =
  resolveMethodName :: "val \<Rightarrow> string \<Rightarrow> val list \<Rightarrow> string"
  functionDefs :: "string \<Rightarrow> 'p list list option list option"
  dispatchParamType :: "'p \<Rightarrow> 't option"
  runtimeTypeMatches :: "val \<Rightarrow> 't \<Rightarrow> bool"
  callFunction :: "string \<Rightarrow> val list \<Rightarrow> evalError + val"

definition noMachine :: machine where
  \<comment> \<open>for evaluating operations that touch no float\<close>
  "noMachine = \<lparr>to_chars = (\<lambda>_. []), get_d = (\<lambda>_. 0), spent = (\<lambda>_. False),
      of_int64 = (\<lambda>_. 0), fadd = (\<lambda>_ _. 0), fsub = (\<lambda>_ _. 0), fmul = (\<lambda>_ _. 0), fdiv = (\<lambda>_ _. 0), fpow = (\<lambda>_ _. 0)\<rparr>"

definition undeclared_equality :: "(unit, unit) dispatcher" where
  \<comment> \<open>\<open>make String do let ==(other) -> true end\<close>: a clause whose parameter declares no type\<close>
  "undeclared_equality = \<lparr>resolveMethodName = (\<lambda>_ op _. if op = ''=='' then ''String::=='' else op),
     functionDefs = (\<lambda>_. Some [Some [[()]]]), dispatchParamType = (\<lambda>_. None),
     runtimeTypeMatches = (\<lambda>_ _. False), callFunction = (\<lambda>_ _. Inr (BoolValue True))\<rparr>"

definition no_overloads :: "(unit, unit) dispatcher" where
  "no_overloads = undeclared_equality\<lparr>resolveMethodName := (\<lambda>_ op _. op)\<rparr>"

section \<open>Operands\<close>

fun intOf :: "val \<Rightarrow> i64 option" where
  "intOf (IntValue i) = Some i"
| "intOf _ = None"

fun charOf :: "val \<Rightarrow> char32 option" where
  "charOf (CharValue c) = Some c"
| "charOf _ = None"

fun listOf :: "val \<Rightarrow> val list option" where
  "listOf (ListValue vs) = Some vs"
| "listOf _ = None"

definition numeric :: "val \<Rightarrow> bool" where
  "numeric v \<longleftrightarrow> asInteger v \<noteq> None \<or> floatOf v \<noteq> None"

definition sameTextual :: "val \<Rightarrow> val \<Rightarrow> bool" where
  "sameTextual a b \<longleftrightarrow> stringText a \<noteq> None \<and> stringText b \<noteq> None \<or> charOf a \<noteq> None \<and> charOf b \<noteq> None"

definition primitive :: "val \<Rightarrow> bool" where
  "primitive v \<longleftrightarrow> numeric v \<or> stringText v \<noteq> None \<or> charOf v \<noteq> None"

fun opSymbol :: "TokenType \<Rightarrow> string" where
  "opSymbol (Symbol s) =
     (case s of
        S_Plus \<Rightarrow> ''+'' | S_Minus \<Rightarrow> ''-'' | S_Star \<Rightarrow> ''*'' | S_Slash \<Rightarrow> ''/'' | S_Percent \<Rightarrow> ''%''
      | S_Caret \<Rightarrow> ''^'' | S_EqEq \<Rightarrow> ''=='' | S_NotEq \<Rightarrow> ''!='' | S_LessThan \<Rightarrow> ''<''
      | S_GreaterThan \<Rightarrow> ''>'' | S_LessEq \<Rightarrow> ''<='' | S_GreaterEq \<Rightarrow> ''>='' | S_AmpAmp \<Rightarrow> ''&&''
      | S_PipePipe \<Rightarrow> ''||'' | _ \<Rightarrow> [])"
| "opSymbol _ = []"

section \<open>Arithmetic\<close>

definition fits64 :: "int \<Rightarrow> bool" where
  "fits64 n \<longleftrightarrow> - (2 ^ 63) \<le> n \<and> n \<le> 2 ^ 63 - 1"

fun toDouble :: "'a machine_scheme \<Rightarrow> val \<Rightarrow> double" where
  "toDouble m (IntValue i) = of_int64 m i"
| "toDouble m (BigIntValue n) = get_d m n"
| "toDouble m (FloatValue x) = x"
| "toDouble m _ = 0"

definition floatOp :: "string \<Rightarrow> double \<Rightarrow> evalError + val" where
  "floatOp what v =
     (case nonFiniteFloatError v what of Some e \<Rightarrow> Inl (RuntimeError e) | None \<Rightarrow> Inr (FloatValue v))"

definition mixedFloats :: "val \<Rightarrow> val \<Rightarrow> bool" where
  \<comment> \<open>the three tests for two floats, an integer and a float, a float and an integer\<close>
  "mixedFloats l r \<longleftrightarrow> floatOf l \<noteq> None \<and> floatOf r \<noteq> None \<or> asInteger l \<noteq> None \<and> floatOf r \<noteq> None \<or>
     floatOf l \<noteq> None \<and> asInteger r \<noteq> None"

definition cannot :: "string \<Rightarrow> val \<Rightarrow> val \<Rightarrow> evalError + val" where
  "cannot verb l r =
     checked (typeName l) (\<lambda>s. checked (typeName r) (\<lambda>t.
       Inl (RuntimeError (''Cannot '' @ verb @ '' '' @ s @ '' and '' @ t))))"

definition arithmeticOp ::
  "'a machine_scheme \<Rightarrow> (int \<Rightarrow> int \<Rightarrow> int) \<Rightarrow> (double \<Rightarrow> double \<Rightarrow> double) \<Rightarrow> string \<Rightarrow>
   val \<Rightarrow> val \<Rightarrow> (evalError + val) \<Rightarrow> evalError + val" where
  \<comment> \<open>\<open>+\<close>, \<open>-\<close> and \<open>*\<close>: the 64-bit fast path unless the builtin reports overflow, then
    arbitrary precision, then floats, then what the operator does with other operands\<close>
  "arithmeticOp m f ff what l r other =
     (case (asInteger l, asInteger r) of
        (Some a, Some b) \<Rightarrow>
          (case (intOf l, intOf r) of
             (Some i, Some j) \<Rightarrow>
               if fits64 (f (sint i) (sint j)) then Inr (IntValue (word_of_int (f (sint i) (sint j))))
               else Inr (integerResult (f a b))
           | _ \<Rightarrow> Inr (integerResult (f a b)))
      | _ \<Rightarrow> if mixedFloats l r then floatOp what (ff (toDouble m l) (toDouble m r)) else other)"

definition concatenate :: "val \<Rightarrow> val \<Rightarrow> evalError + val" where
  "concatenate l r =
     (case (listOf l, listOf r) of
        (Some xs, Some ys) \<Rightarrow> Inr (ListValue (xs @ ys))
      | _ \<Rightarrow> (case (textContent l, textContent r) of
          (Some s, Some t) \<Rightarrow> Inr (StringValue (s @ t))
        | _ \<Rightarrow> cannot ''add'' l r))"

definition divideOp :: "'a machine_scheme \<Rightarrow> val \<Rightarrow> val \<Rightarrow> evalError + val" where
  "divideOp m l r =
     (if asInteger r = Some 0 \<or> (case floatOf r of Some y \<Rightarrow> fEq y 0 | None \<Rightarrow> False)
      then Inl (RuntimeError ''Division by zero'')
      else case (intOf l, intOf r) of
          (Some i, Some j) \<Rightarrow>
            if fits64 (sint i sdiv sint j) then Inr (IntValue (word_of_int (sint i sdiv sint j))) else Inl Trap
        | _ \<Rightarrow> (case (asInteger l, asInteger r) of
            (Some a, Some b) \<Rightarrow> Inr (integerResult (a sdiv b))
          | _ \<Rightarrow> if mixedFloats l r then floatOp ''Float division'' (fdiv m (toDouble m l) (toDouble m r))
                else cannot ''divide'' l r))"

definition moduloOp :: "val \<Rightarrow> val \<Rightarrow> evalError + val" where
  \<comment> \<open>the remainder instruction computes the quotient too, so it traps with it\<close>
  "moduloOp l r =
     (case (intOf l, intOf r) of
        (Some i, Some j) \<Rightarrow>
          if j = 0 then Inl (RuntimeError ''Modulo by zero'')
          else if fits64 (sint i sdiv sint j) then Inr (IntValue (word_of_int (sint i smod sint j)))
          else Inl Trap
      | _ \<Rightarrow> (case (asInteger l, asInteger r) of
          (Some a, Some b) \<Rightarrow>
            if b = 0 then Inl (RuntimeError ''Modulo by zero'') else Inr (integerResult (a smod b))
        | _ \<Rightarrow> Inl (RuntimeError ''Modulo requires integers'')))"

definition powerOp :: "'a machine_scheme \<Rightarrow> val \<Rightarrow> val \<Rightarrow> evalError + val" where
  \<comment> \<open>\<open>fits_ulong_p\<close>: an exponent below 2 ^ 64\<close>
  "powerOp m l r =
     (case (asInteger l, asInteger r) of
        (Some a, Some b) \<Rightarrow>
          if 0 \<le> b \<and> b < 2 ^ 64 then Inr (integerResult (a ^ nat b))
          else floatOp ''Exponentiation'' (fpow m (toDouble m l) (toDouble m r))
      | _ \<Rightarrow> if mixedFloats l r then floatOp ''Exponentiation'' (fpow m (toDouble m l) (toDouble m r))
            else Inl (RuntimeError ''Exponentiation requires numbers''))"

section \<open>Ordering and logic\<close>

definition fLessEq :: "double \<Rightarrow> double \<Rightarrow> bool" where
  "fLessEq a b \<longleftrightarrow> fLess a b \<or> fEq a b"

definition orderOp ::
  "'a machine_scheme \<Rightarrow> (int \<Rightarrow> int \<Rightarrow> bool) \<Rightarrow> (double \<Rightarrow> double \<Rightarrow> bool) \<Rightarrow> (string \<Rightarrow> string \<Rightarrow> bool) \<Rightarrow>
   (char32 \<Rightarrow> char32 \<Rightarrow> bool) \<Rightarrow> val \<Rightarrow> val \<Rightarrow> evalError + val" where
  "orderOp m ci cf cs cc l r =
     (case (asInteger l, asInteger r) of
        (Some a, Some b) \<Rightarrow> Inr (BoolValue (ci a b))
      | _ \<Rightarrow> if mixedFloats l r then Inr (BoolValue (cf (toDouble m l) (toDouble m r)))
        else (case (stringText l, stringText r) of
          (Some s, Some t) \<Rightarrow> Inr (BoolValue (cs s t))
        | _ \<Rightarrow> (case (charOf l, charOf r) of
          (Some c, Some d) \<Rightarrow> Inr (BoolValue (cc c d))
        | _ \<Rightarrow> cannot ''compare'' l r)))"

definition logicalOp :: "bool \<Rightarrow> val \<Rightarrow> val \<Rightarrow> evalError + val" where
  \<comment> \<open>the right operand's truth is asked only when the left one does not decide\<close>
  "logicalOp both l r =
     checked (isTrue l) (\<lambda>x. if x \<noteq> both then Inr (BoolValue x)
       else checked (isTrue r) (\<lambda>y. Inr (BoolValue y)))"

definition primitiveBinaryOp :: "'a machine_scheme \<Rightarrow> TokenType \<Rightarrow> val \<Rightarrow> val \<Rightarrow> evalError + val" where
  "primitiveBinaryOp m op l r =
     (case op of Symbol s \<Rightarrow>
       (case s of
          S_Plus \<Rightarrow> arithmeticOp m (+) (fadd m) ''Float addition'' l r (concatenate l r)
        | S_Minus \<Rightarrow> arithmeticOp m (-) (fsub m) ''Float subtraction'' l r (cannot ''subtract'' l r)
        | S_Star \<Rightarrow> arithmeticOp m (*) (fmul m) ''Float multiplication'' l r (cannot ''multiply'' l r)
        | S_Slash \<Rightarrow> divideOp m l r
        | S_Percent \<Rightarrow> moduloOp l r
        | S_Caret \<Rightarrow> powerOp m l r
        | S_EqEq \<Rightarrow> checked (valuesEqual m l r) (\<lambda>e. Inr (BoolValue e))
        | S_NotEq \<Rightarrow> checked (valuesEqual m l r) (\<lambda>e. Inr (BoolValue (\<not> e)))
        | S_LessThan \<Rightarrow> orderOp m (<) fLess (<) (<) l r
        | S_GreaterThan \<Rightarrow> orderOp m (>) (\<lambda>a b. fLess b a) (>) (>) l r
        | S_LessEq \<Rightarrow> orderOp m (\<le>) fLessEq (\<le>) (\<le>) l r
        | S_GreaterEq \<Rightarrow> orderOp m (\<ge>) (\<lambda>a b. fLessEq b a) (\<ge>) (\<ge>) l r
        | S_AmpAmp \<Rightarrow> logicalOp True l r
        | S_PipePipe \<Rightarrow> logicalOp False l r
        | _ \<Rightarrow> Inl (RuntimeError ''Unknown operator''))
      | _ \<Rightarrow> Inl (RuntimeError ''Unknown operator''))"

section \<open>Overloads\<close>

definition overloadAccepts :: "('p, 't, 'a) dispatcher_scheme \<Rightarrow> val \<Rightarrow> string \<Rightarrow> bool" where
  "overloadAccepts d right name =
     (case functionDefs d name of
        None \<Rightarrow> True
      | Some defs \<Rightarrow> list_ex (\<lambda>def. case def of None \<Rightarrow> False | Some clauses \<Rightarrow>
          list_ex (\<lambda>ps. ps = [] \<or> (case dispatchParamType d (last ps) of None \<Rightarrow> True
                                  | Some t \<Rightarrow> runtimeTypeMatches d right t)) clauses) defs)"

definition overloadDeclares :: "('p, 't, 'a) dispatcher_scheme \<Rightarrow> val \<Rightarrow> string \<Rightarrow> bool" where
  "overloadDeclares d right name =
     (case functionDefs d name of
        None \<Rightarrow> False
      | Some defs \<Rightarrow> list_ex (\<lambda>def. case def of None \<Rightarrow> False | Some clauses \<Rightarrow>
          list_ex (\<lambda>ps. ps \<noteq> [] \<and> (case dispatchParamType d (last ps) of None \<Rightarrow> False
                                  | Some t \<Rightarrow> runtimeTypeMatches d right t)) clauses) defs)"

definition thisOperator :: "string \<Rightarrow> evalError" where
  "thisOperator name = Misuse (PlaceholderMisuse name ''this operator'')"

definition evalBinaryOp ::
  "'a machine_scheme \<Rightarrow> ('p, 't, 'b) dispatcher_scheme \<Rightarrow> TokenType \<Rightarrow> val \<Rightarrow> val \<Rightarrow> evalError + val" where
  "evalBinaryOp m d op l r =
     (case placeholderName l of Some n \<Rightarrow> Inl (thisOperator n)
      | None \<Rightarrow>
        let sym = opSymbol op;
            rest = (case placeholderName r of Some n \<Rightarrow> Inl (thisOperator n)
                    | None \<Rightarrow> primitiveBinaryOp m op l r)
        in if sym = [] \<or> numeric l \<and> numeric r \<or> sameTextual l r then rest
           else let method = resolveMethodName d l sym [l, r];
                    equality = (sym = ''=='' \<or> sym = ''!='')
                in if method \<noteq> sym \<and> (\<not> equality \<or> overloadAccepts d r method) \<and>
                      (\<not> primitive l \<or> overloadDeclares d r method)
                   then callFunction d method [l, r]
                   else if placeholderName r = None \<and> sym = ''!='' then
                     let equalName = resolveMethodName d l ''=='' [l, r]
                     in if equalName \<noteq> ''=='' \<and> overloadAccepts d r equalName
                        then sum_bind (callFunction d equalName [l, r]) (\<lambda>v.
                               checked (isTrue v) (\<lambda>t. Inr (BoolValue (\<not> t))))
                        else rest
                   else rest)"

definition evalUnaryOp :: "'a machine_scheme \<Rightarrow> TokenType \<Rightarrow> val \<Rightarrow> evalError + val" where
  "evalUnaryOp m op v =
     (case placeholderName v of Some n \<Rightarrow> Inl (thisOperator n)
      | None \<Rightarrow>
        if op = T_Minus then
          (case v of
             IntValue i \<Rightarrow>
               if sint i = - (2 ^ 63) then Inr (BigIntValue (- sint i)) else Inr (IntValue (- i))
           | BigIntValue n \<Rightarrow> Inr (BigIntValue (- n))
           | FloatValue x \<Rightarrow> Inr (FloatValue (x XOR push_bit 63 1))
           | _ \<Rightarrow> checked (typeName v) (\<lambda>t. Inl (RuntimeError (''Cannot negate '' @ t))))
        else if op = T_Bang then checked (isTrue v) (\<lambda>t. Inr (BoolValue (\<not> t)))
        else Inl (RuntimeError ''Unknown unary operator''))"


section \<open>Laws\<close>

lemma sint_range: "fits64 (sint (i :: i64))"
  using sint_greater_eq [of i] sint_less [of i] by (simp add: fits64_def)

lemma sint_word_of_int: "fits64 n \<Longrightarrow> sint (word_of_int n :: i64) = n"
  by (simp add: fits64_def sint_sbintrunc' signed_take_bit_int_eq_self_iff)

lemma word_of_int_sint_eq: "sint (i :: i64) = n \<Longrightarrow> word_of_int n = i"
  by auto

lemma integerResult_fits: "fits64 n \<Longrightarrow> integerResult n = IntValue (word_of_int n)"
  by (simp add: integerResult_def fits64_def)

lemma asInteger_integerResult [simp]: "asInteger (integerResult n) = Some n"
  using sint_word_of_int [of n] by (auto simp: integerResult_def fits64_def)

lemma asInteger_floatOf: "asInteger v = Some n \<Longrightarrow> floatOf v = None"
  by (cases v) auto

lemma asInteger_shape: "asInteger v = Some n \<longleftrightarrow> (\<exists>i. v = IntValue i \<and> n = sint i) \<or> v = BigIntValue n"
  by (cases v) auto

lemma intOf_asInteger: "intOf v = Some i \<Longrightarrow> asInteger v = Some (sint i)"
  by (cases v) auto

lemma numeric_asInteger: "asInteger v = Some n \<Longrightarrow> numeric v"
  by (simp add: numeric_def)

lemma asInteger_placeholder: "asInteger v = Some n \<Longrightarrow> placeholderName v = None"
  by (cases v) auto

lemma evalBinaryOp_numbers:
  "asInteger l = Some a \<Longrightarrow> asInteger r = Some b \<Longrightarrow> evalBinaryOp m d op l r = primitiveBinaryOp m op l r"
  by (simp add: evalBinaryOp_def numeric_asInteger asInteger_placeholder Let_def)

lemma arithmeticOp_integers:
  assumes "asInteger l = Some a" "asInteger r = Some b"
  shows "arithmeticOp m f ff what l r other = Inr (integerResult (f a b))"
proof (cases "intOf l = None \<or> intOf r = None")
  case True
  then show ?thesis using assms by (auto simp: arithmeticOp_def split: option.splits)
next
  case False
  then obtain i j where ij: "intOf l = Some i" "intOf r = Some j" by auto
  then have "a = sint i" "b = sint j" using assms intOf_asInteger by fastforce+
  then show ?thesis
    using assms ij by (auto simp: arithmeticOp_def integerResult_fits)
qed

text \<open>
  What exactness asks for, in the numbers themselves: the number a value stands for in either of its
  two representations, and the value an operation has to answer for it.
\<close>

definition stands_for :: "val \<Rightarrow> int \<Rightarrow> bool" where
  "stands_for v n \<longleftrightarrow> v = BigIntValue n \<or> (\<exists>i. v = IntValue i \<and> sint i = n)"

definition answers_exactly :: "val \<Rightarrow> int \<Rightarrow> bool" where
  \<comment> \<open>the number itself, in 64 bits exactly when it lies in their range\<close>
  "answers_exactly v n \<longleftrightarrow>
     (if n \<in> {- 9223372036854775808..9223372036854775807} then \<exists>i. v = IntValue i \<and> sint i = n else v = BigIntValue n)"

lemma stands_for_asInteger: "stands_for v n \<Longrightarrow> asInteger v = Some n"
  by (auto simp: stands_for_def)

lemma answers_integerResult: "answers_exactly (integerResult n) n"
  using sint_word_of_int [of n] by (auto simp: answers_exactly_def integerResult_def fits64_def)

text \<open>
  C4: Integer \<open>+\<close>, \<open>-\<close> and \<open>*\<close> are exact whatever the two representations of the operands: the
  answer is the 64-bit integer that equals the sum, difference or product when that lies between
  \<open>-9223372036854775808\<close> and \<open>9223372036854775807\<close>, and the arbitrary-precision integer that equals it
  otherwise; nothing wraps round, and a result that fits again comes back to 64 bits.
\<close>

theorem integer_arithmetic_exact:
  assumes "stands_for l a" "stands_for r b"
  shows "\<exists>sum difference product.
    evalBinaryOp m d T_Plus l r = Inr sum \<and> answers_exactly sum (a + b) \<and>
    evalBinaryOp m d T_Minus l r = Inr difference \<and> answers_exactly difference (a - b) \<and>
    evalBinaryOp m d T_Star l r = Inr product \<and> answers_exactly product (a * b)"
  using assms [THEN stands_for_asInteger] answers_integerResult
  by (auto simp: evalBinaryOp_numbers primitiveBinaryOp_def arithmeticOp_integers)

theorem integer_arithmetic_exact_witness:
  "evalBinaryOp noMachine no_overloads T_Plus (IntValue 0x7FFFFFFFFFFFFFFF) (IntValue 1) = Inr (BigIntValue (2 ^ 63)) \<and>
   (\<exists>i. evalBinaryOp noMachine no_overloads T_Minus (BigIntValue (2 ^ 63)) (IntValue 1) = Inr (IntValue i) \<and> sint i = 2 ^ 63 - 1)"
proof -
  have "stands_for (IntValue 0x7FFFFFFFFFFFFFFF) (2 ^ 63 - 1)" "stands_for (IntValue 1) 1"
    "stands_for (BigIntValue (2 ^ 63)) (2 ^ 63)" by (simp_all add: stands_for_def)
  note e = integer_arithmetic_exact [OF this(1,2), of noMachine no_overloads]
    integer_arithmetic_exact [OF this(3,2), of noMachine no_overloads]
  show ?thesis using e by (auto simp: answers_exactly_def)
qed

lemma sint_min: "sint (i :: i64) = - (2 ^ 63) \<longleftrightarrow> i = 0x8000000000000000"
proof -
  have "sint (0x8000000000000000 :: i64) = - (2 ^ 63)" by simp
  then show ?thesis by (metis signed_word_eqI)
qed

lemma sint_minus_one: "sint (j :: i64) = - 1 \<longleftrightarrow> j = - 1"
  by (metis sint_n1 signed_word_eqI)

lemma sdiv_overflow:
  assumes "fits64 x" "y \<noteq> 0"
  shows "fits64 (x sdiv y) \<longleftrightarrow> \<not> (x = - (2 ^ 63) \<and> y = - 1)"
proof -
  consider "y = 1" | "y = - 1" | "\<bar>y\<bar> \<ge> 2" using assms(2) by linarith
  then show ?thesis
  proof cases
    case 3
    have "\<bar>x\<bar> div \<bar>y\<bar> \<le> \<bar>x\<bar> div 2" using 3 by (intro zdiv_mono2) auto
    moreover have "\<bar>x sdiv y\<bar> \<le> \<bar>x\<bar> div \<bar>y\<bar>"
      by (simp add: signed_divide_int_def abs_mult pos_imp_zdiv_nonneg_iff abs_sgn_eq)
    ultimately show ?thesis using assms(1) 3 by (auto simp: fits64_def)
  qed (use assms(1) in \<open>auto simp: fits64_def signed_divide_int_def sgn_if\<close>)
qed

lemma smod_fits: "fits64 x \<Longrightarrow> fits64 (x smod y)"
proof -
  assume x: "fits64 x"
  define q where "q = \<bar>x\<bar> mod \<bar>y\<bar>"
  have "q \<le> \<bar>x\<bar>" "0 \<le> q"
    unfolding q_def by (cases "y = 0", simp, simp add: zmod_le_nonneg_dividend, cases "y = 0", simp, simp)
  then have "fits64 (sgn x * q)" using x by (cases "x < 0"; cases "x = 0") (auto simp: fits64_def)
  then show ?thesis by (simp add: signed_modulo_int_def q_def)
qed

text \<open>
  C23: Division and remainder on integers truncate towards zero and report a zero divisor;
  the one pair of operands they do not answer is the smallest 64-bit integer and the 64-bit
  \<open>-1\<close>, whose quotient overflows the machine division the fast path performs.
\<close>

theorem integer_division:
  assumes "asInteger l = Some a" "asInteger r = Some b"
  shows "evalBinaryOp m d T_Slash l r =
      (if b = 0 then Inl (RuntimeError ''Division by zero'')
       else if l = IntValue 0x8000000000000000 \<and> r = IntValue (- 1) then Inl Trap
       else Inr (integerResult (a sdiv b))) \<and>
    evalBinaryOp m d T_Percent l r =
      (if b = 0 then Inl (RuntimeError ''Modulo by zero'')
       else if l = IntValue 0x8000000000000000 \<and> r = IntValue (- 1) then Inl Trap
       else Inr (integerResult (a smod b)))"
proof -
  have o: "fits64 (sint i sdiv sint j) \<longleftrightarrow> \<not> (i = 0x8000000000000000 \<and> j = - 1)" if "j \<noteq> 0" for i j :: i64
    using sdiv_overflow [OF sint_range, of "sint j" i] that
    by (simp add: sint_min sint_minus_one signed_eq_0_iff del: power_numeral)
  show ?thesis
  proof (cases "\<exists>i j. l = IntValue i \<and> r = IntValue j")
    case True
    then obtain i j where lr: "l = IntValue i" "r = IntValue j" by auto
    then have ab: "a = sint i" "b = sint j" using assms by auto
    show ?thesis
      unfolding evalBinaryOp_numbers [OF assms] unfolding lr ab
      by (auto simp: primitiveBinaryOp_def divideOp_def moduloOp_def o signed_eq_0_iff integerResult_fits smod_fits sint_range)
  next
    case False
    then show ?thesis
      unfolding evalBinaryOp_numbers [OF assms] using assms
      by (auto simp: primitiveBinaryOp_def divideOp_def moduloOp_def asInteger_shape)
  qed
qed

theorem integer_division_witness:
  "evalBinaryOp noMachine no_overloads T_Slash (IntValue 0x8000000000000000) (IntValue (- 1)) = Inl Trap \<and>
   evalBinaryOp noMachine no_overloads T_Slash (IntValue (- 7)) (IntValue 2) = Inr (IntValue (- 3))"
proof -
  have "asInteger (IntValue 0x8000000000000000) = Some (- (2 ^ 63))" "asInteger (IntValue (- 1)) = Some (- 1)"
    "asInteger (IntValue (- 7)) = Some (- 7)" "asInteger (IntValue 2) = Some 2" by simp_all
  note e = integer_division [OF this(1,2), of noMachine no_overloads] integer_division [OF this(3,4), of noMachine no_overloads]
  have "(- 7 :: int) sdiv 2 = - 3" by (simp add: signed_divide_int_def)
  then show ?thesis unfolding e [THEN conjunct1] by (simp add: integerResult_def)
qed


lemma scalarEqual_integers:
  "asInteger l = Some a \<Longrightarrow> asInteger r = Some b \<Longrightarrow> scalarEqual h l r = Some (a = b)"
  by (cases l; cases r) (auto simp: scalarEqual_def)

lemma valuesEqual_integers:
  "asInteger l = Some a \<Longrightarrow> asInteger r = Some b \<Longrightarrow> valuesEqual h l r = Inr (a = b)"
  by (simp add: valuesEqual.simps scalarEqual_integers)

lemma orderOp_integers:
  "asInteger l = Some a \<Longrightarrow> asInteger r = Some b \<Longrightarrow> orderOp m ci cf cs cc l r = Inr (BoolValue (ci a b))"
  by (simp add: orderOp_def)

text \<open>
  On integers the six comparisons answer the order of the mathematical values, so a
  64-bit integer and an arbitrary-precision one compare like two of a kind.
\<close>

theorem integer_comparison:
  assumes "asInteger l = Some a" "asInteger r = Some b"
  shows "map (\<lambda>op. evalBinaryOp m d op l r) [T_EqEq, T_NotEq, T_LessThan, T_GreaterThan, T_LessEq, T_GreaterEq] =
    map (\<lambda>x. Inr (BoolValue x)) [a = b, a \<noteq> b, a < b, a > b, a \<le> b, a \<ge> b]"
  using assms
  by (simp add: evalBinaryOp_numbers primitiveBinaryOp_def orderOp_integers valuesEqual_integers)

theorem integer_comparison_witness:
  "evalBinaryOp noMachine no_overloads T_LessThan (IntValue 5) (BigIntValue (2 ^ 70)) = Inr (BoolValue True)"
proof -
  have "asInteger (IntValue 5) = Some 5" "asInteger (BigIntValue (2 ^ 70)) = Some (2 ^ 70)" by simp_all
  from integer_comparison [OF this, of noMachine no_overloads] show ?thesis by simp
qed

text \<open>
  The representation invariant of an integer: arbitrary precision only for what does not fit
  in 64 bits.
\<close>

fun canonical :: "val \<Rightarrow> bool" where
  "canonical (BigIntValue n) = (\<not> fits64 n)"
| "canonical _ = True"

lemma canonical_integerResult [simp]: "canonical (integerResult n)"
  by (simp add: integerResult_def fits64_def)

lemma canonical_floatOp: "floatOp what x = Inr v \<Longrightarrow> canonical v"
  by (auto simp: floatOp_def split: option.splits)

lemma canonical_cannot: "cannot verb l r \<noteq> Inr v"
  by (auto simp: cannot_def checked_def split: sum.splits)

lemma canonical_checked: "checked r f = Inr v \<Longrightarrow> (\<And>x. f x = Inr v \<Longrightarrow> canonical v) \<Longrightarrow> canonical v"
  by (cases r) auto

lemma canonical_arithmeticOp:
  "arithmeticOp m f ff what l r other = Inr v \<Longrightarrow> (other = Inr v \<Longrightarrow> canonical v) \<Longrightarrow> canonical v"
  by (auto simp: arithmeticOp_def canonical_floatOp split: option.splits if_splits)

lemma canonical_concatenate: "concatenate l r = Inr v \<Longrightarrow> canonical v"
  by (auto simp: concatenate_def canonical_cannot split: option.splits)

lemma canonical_divisions:
  "divideOp m l r = Inr v \<Longrightarrow> canonical v" "moduloOp l r = Inr v \<Longrightarrow> canonical v"
  "powerOp m l r = Inr v \<Longrightarrow> canonical v"
  by (auto simp: divideOp_def moduloOp_def powerOp_def canonical_floatOp canonical_cannot
      split: option.splits if_splits)

lemma canonical_orderOp: "orderOp m ci cf cs cc l r = Inr v \<Longrightarrow> canonical v"
  by (auto simp: orderOp_def canonical_cannot split: option.splits if_splits)

lemma canonical_logicalOp: "logicalOp both l r = Inr v \<Longrightarrow> canonical v"
  by (auto simp: logicalOp_def elim!: canonical_checked split: if_splits)

lemma canonical_primitiveBinaryOp: "primitiveBinaryOp m op l r = Inr v \<Longrightarrow> canonical v"
  by (auto simp: primitiveBinaryOp_def canonical_concatenate canonical_divisions canonical_orderOp
      canonical_logicalOp canonical_cannot elim!: canonical_arithmeticOp canonical_checked
      split: TokenType.splits SymbolType.splits)

text \<open>
  C24: Every operator keeps the representation invariant of integers (arbitrary precision
  exactly for what does not fit in 64 bits), with one exception: negating the
  arbitrary-precision \<open>2 ^ 63\<close> answers an arbitrary-precision value for a number that fits.
\<close>

theorem operators_keep_canonical:
  assumes "canonical x" "x \<noteq> BigIntValue (2 ^ 63)"
  shows "pred_sum (\<lambda>_. True) canonical (primitiveBinaryOp m op l r) \<and>
    pred_sum (\<lambda>_. True) canonical (evalUnaryOp m uop x)"
proof
  show "pred_sum (\<lambda>_. True) canonical (primitiveBinaryOp m op l r)"
    by (cases "primitiveBinaryOp m op l r") (auto dest: canonical_primitiveBinaryOp)
  have "canonical v" if "evalUnaryOp m uop x = Inr v" for v
    using that assms
    by (cases x) (auto simp: evalUnaryOp_def fits64_def split: if_splits elim!: canonical_checked)
  then show "pred_sum (\<lambda>_. True) canonical (evalUnaryOp m uop x)"
    by (cases "evalUnaryOp m uop x") auto
qed

theorem operators_keep_canonical_witness:
  "pred_sum (\<lambda>_. True) canonical (evalUnaryOp noMachine T_Minus (IntValue 0x8000000000000000))"
  using operators_keep_canonical [of "IntValue 0x8000000000000000" noMachine T_Plus none none T_Minus] by simp

lemma negation_not_canonical:
  "evalUnaryOp m T_Minus (BigIntValue (2 ^ 63)) = Inr (BigIntValue (- (2 ^ 63)))"
  "\<not> canonical (BigIntValue (- (2 ^ 63)))"
  by (simp_all add: evalUnaryOp_def fits64_def)

definition negated :: "evalError + val \<Rightarrow> evalError + val" where
  \<comment> \<open>\<open>!\<close> of an operand already evaluated\<close>
  "negated r = sum_bind r (\<lambda>v. checked (isTrue v) (\<lambda>t. Inr (BoolValue (\<not> t))))"

text \<open>
  C25: Where a type overloads \<open>==\<close> and not \<open>!=\<close>, \<open>a != b\<close> is the negation of \<open>a == b\<close>: for a
  receiver that is not a number, a string or a character, or an overload that names what it
  accepts; the right operand is a known value.
\<close>

theorem not_equal_negates_equal:
  assumes "resolveMethodName d l ''!='' [l, r] = ''!=''" "placeholderName r = None"
    and "primitive l \<Longrightarrow> overloadDeclares d r (resolveMethodName d l ''=='' [l, r])"
  shows "evalBinaryOp m d T_NotEq l r = negated (evalBinaryOp m d T_EqEq l r)"
proof -
  have p: "primitiveBinaryOp m T_NotEq l r = negated (primitiveBinaryOp m T_EqEq l r)"
    by (cases "valuesEqual m l r") (simp_all add: primitiveBinaryOp_def negated_def)
  have i: "negated (Inl e) = Inl e" for e by (simp add: negated_def)
  show ?thesis
    using assms by (auto simp: evalBinaryOp_def Let_def i p negated_def [symmetric] split: option.splits)
qed

lemma not_equal_disagrees:
  "evalBinaryOp m undeclared_equality T_EqEq (StringValue ''x'') (IntValue 1) = Inr (BoolValue False)"
  "evalBinaryOp m undeclared_equality T_NotEq (StringValue ''x'') (IntValue 1) = Inr (BoolValue False)"
  by (simp_all add: evalBinaryOp_def undeclared_equality_def numeric_def sameTextual_def primitive_def
      overloadAccepts_def overloadDeclares_def primitiveBinaryOp_def valuesEqual.simps scalarEqual_def
      sameAlternative_def leafEqual_def)

theorem not_equal_negates_equal_witness:
  "evalBinaryOp noMachine no_overloads T_NotEq (ListValue []) (ListValue []) = Inr (BoolValue False)"
proof -
  have e: "evalBinaryOp noMachine no_overloads T_EqEq (ListValue []) (ListValue []) = Inr (BoolValue True)"
    by (simp add: evalBinaryOp_def no_overloads_def undeclared_equality_def numeric_def sameTextual_def
        primitiveBinaryOp_def valuesEqual.simps scalarEqual_def sameAlternative_def)
  have n: "negated (Inr (BoolValue True)) = Inr (BoolValue False)" by (simp add: negated_def)
  show ?thesis
    using not_equal_negates_equal [of no_overloads "ListValue []" "ListValue []" noMachine, unfolded e n]
    by (simp add: no_overloads_def undeclared_equality_def primitive_def numeric_def)
qed

end
