(* ===== verification/Effects.thy ===== *)
theory Effects
  imports Operators "HOL-Library.Multiset"
begin

text \<open>
  Intrinsics that call back into user code: a computation takes the evaluator's state,
  answers a value or throws, and leaves a state.  A native function is reached through its
  address.
\<close>

type_synonym ('s, 'a) eff = "'s \<Rightarrow> (evalError + 'a) \<times> 's"

definition return :: "'a \<Rightarrow> ('s, 'a) eff" where
  "return x s = (Inr x, s)"

definition throw :: "evalError \<Rightarrow> ('s, 'a) eff" where
  "throw e s = (Inl e, s)"

definition and_then :: "('s, 'a) eff \<Rightarrow> ('a \<Rightarrow> ('s, 'b) eff) \<Rightarrow> ('s, 'b) eff" where
  "and_then m f s = (case m s of (Inl e, t) \<Rightarrow> (Inl e, t) | (Inr x, t) \<Rightarrow> f x t)"

definition pure :: "evalError + 'a \<Rightarrow> ('s, 'a) eff" where
  "pure r s = (r, s)"

definition guarded :: "fault + 'a \<Rightarrow> ('s, 'a) eff" where
  "guarded r = pure (map_sum Misuse id r)"

lemma and_then_simps [simp]:
  "and_then (return x) f = f x"
  "and_then (throw e) f = throw e"
  "and_then (pure (Inr x)) f = f x"
  "and_then (pure (Inl e)) f = throw e"
  by (simp_all add: fun_eq_iff and_then_def return_def throw_def pure_def)

lemma pure_simps: "pure (Inr x) = return x" "pure (Inl e) = throw e"
  by (simp_all add: fun_eq_iff return_def throw_def pure_def)

lemma guarded_simps [simp]: "guarded (Inr x) = return x" "guarded (Inl e) = throw (Misuse e)"
  by (simp_all add: guarded_def pure_simps)

lemma and_then_assoc: "and_then (and_then m f) g = and_then m (\<lambda>x. and_then (f x) g)"
  by (auto simp: fun_eq_iff and_then_def split: prod.splits sum.splits)

lemma and_then_return [simp]: "and_then m return = m"
  by (auto simp: fun_eq_iff and_then_def return_def split: prod.splits sum.splits)

lemma and_then_cong [fundef_cong]:
  "m s = m' s' \<Longrightarrow> (\<And>x t. m' s' = (Inr x, t) \<Longrightarrow> f x t = g x t) \<Longrightarrow> and_then m f s = and_then m' g s'"
  by (auto simp: and_then_def split: prod.splits sum.splits)

text \<open>
  The loops of the intrinsics: one call per element, in order.
\<close>

primrec mapM :: "('a \<Rightarrow> ('s, 'b) eff) \<Rightarrow> 'a list \<Rightarrow> ('s, 'b list) eff" where
  "mapM f [] = return []"
| "mapM f (x # xs) = and_then (f x) (\<lambda>y. and_then (mapM f xs) (\<lambda>ys. return (y # ys)))"

primrec filterM :: "('a \<Rightarrow> ('s, bool) eff) \<Rightarrow> 'a list \<Rightarrow> ('s, 'a list) eff" where
  "filterM p [] = return []"
| "filterM p (x # xs) =
     and_then (p x) (\<lambda>b. and_then (filterM p xs) (\<lambda>ys. return (if b then x # ys else ys)))"

primrec foldM :: "('b \<Rightarrow> 'a \<Rightarrow> ('s, 'b) eff) \<Rightarrow> 'b \<Rightarrow> 'a list \<Rightarrow> ('s, 'b) eff" where
  "foldM f acc [] = return acc"
| "foldM f acc (x # xs) = and_then (f acc x) (\<lambda>acc'. foldM f acc' xs)"

primrec findM :: "('a \<Rightarrow> ('s, bool) eff) \<Rightarrow> 'a list \<Rightarrow> ('s, 'a option) eff" where
  "findM p [] = return None"
| "findM p (x # xs) = and_then (p x) (\<lambda>b. if b then return (Some x) else findM p xs)"

lemma mapM_return: "(\<And>x. x \<in> set xs \<Longrightarrow> f x = return (g x)) \<Longrightarrow> mapM f xs = return (map g xs)"
  by (induction xs) auto

lemma filterM_return: "(\<And>x. x \<in> set xs \<Longrightarrow> p x = return (q x)) \<Longrightarrow> filterM p xs = return (filter q xs)"
  by (induction xs) auto

lemma foldM_return:
  "(\<And>acc x. x \<in> set xs \<Longrightarrow> f acc x = return (g acc x)) \<Longrightarrow> foldM f acc xs = return (foldl g acc xs)"
  by (induction xs arbitrary: acc) auto

lemma findM_return: "(\<And>x. x \<in> set xs \<Longrightarrow> p x = return (q x)) \<Longrightarrow> findM p xs = return (List.find q xs)"
  by (induction xs) auto

text \<open>
  What an intrinsic sees of the evaluator: the host and machine, and the native function at
  an address.
\<close>

record 's callbacks = machine +
  call :: "nat \<Rightarrow> val list \<Rightarrow> ('s, val) eff"

fun nativeOf :: "val \<Rightarrow> nat option" where
  \<comment> \<open>the address of a \<open>FunctionValue\<close> whose native function is not null\<close>
  "nativeOf (FunctionValue _ native _ _) = native"
| "nativeOf _ = None"

definition isTrueM :: "val \<Rightarrow> ('s, bool) eff" where
  "isTrueM v = guarded (isTrue v)"

text \<open>
  \<open>std::stable_sort\<close> with a comparator: insertion before the first greater element, from the
  right.  A comparator that is no strict weak order leaves the C++ result open; here it is
  this one.
\<close>

fun insertBy :: "('a \<Rightarrow> 'a \<Rightarrow> bool) \<Rightarrow> 'a \<Rightarrow> 'a list \<Rightarrow> 'a list" where
  "insertBy lt x [] = [x]"
| "insertBy lt x (y # ys) = (if lt y x then y # insertBy lt x ys else x # y # ys)"

definition stableSort :: "('a \<Rightarrow> 'a \<Rightarrow> bool) \<Rightarrow> 'a list \<Rightarrow> 'a list" where
  "stableSort lt xs = foldr (insertBy lt) xs []"

lemma mset_insertBy [simp]: "mset (insertBy lt x ys) = add_mset x (mset ys)"
  by (induction ys) auto

lemma mset_stableSort [simp]: "mset (stableSort lt xs) = mset xs"
  unfolding stableSort_def by (induction xs) auto

lemma set_stableSort [simp]: "set (stableSort lt xs) = set xs"
  by (metis mset_stableSort set_mset_mset)

lemma length_stableSort [simp]: "length (stableSort lt xs) = length xs"
  by (metis mset_stableSort size_mset)

lemma insertBy_sorted:
  assumes "\<And>a b c. lt a b \<Longrightarrow> \<not> lt a c \<Longrightarrow> lt c b" "\<And>a b. lt a b \<Longrightarrow> \<not> lt b a"
    and "sorted_wrt (\<lambda>a b. \<not> lt b a) ys"
  shows "sorted_wrt (\<lambda>a b. \<not> lt b a) (insertBy lt x ys)"
  using assms(3)
proof (induction ys)
  case (Cons y ys)
  have s: "set (insertBy lt x ys) = insert x (set ys)"
    by (metis mset_insertBy set_mset_add_mset_insert set_mset_mset)
  show ?case
  proof (cases "lt y x")
    case True
    then show ?thesis using Cons s assms(2) by simp
  next
    case False
    then have "\<not> lt z x" if "z \<in> set ys" for z
      using assms(1) [of z x y] Cons.prems that by auto
    then show ?thesis using Cons.prems False by simp
  qed
qed simp

lemma stableSort_sorted:
  assumes "\<And>a b c. lt a b \<Longrightarrow> \<not> lt a c \<Longrightarrow> lt c b" "\<And>a b. lt a b \<Longrightarrow> \<not> lt b a"
  shows "sorted_wrt (\<lambda>a b. \<not> lt b a) (stableSort lt xs)"
  unfolding stableSort_def by (induction xs) (auto intro: insertBy_sorted [OF assms])


lemma stableSort_key: "stableSort (\<lambda>a b. f a < (f b :: 'b :: linorder)) xs = sort_key f xs"
proof -
  have "insertBy (\<lambda>a b. f a < f b) x ys = insort_key f x ys" for x ys
    by (induction ys) auto
  then have "insertBy (\<lambda>a b. f a < f b) = insort_key f" by (intro ext)
  then show ?thesis by (simp add: stableSort_def sort_key_def)
qed


lemma stableSort_map: "stableSort lt (map f xs) = map f (stableSort (\<lambda>a b. lt (f a) (f b)) xs)"
proof -
  have "insertBy lt (f x) (map f ys) = map f (insertBy (\<lambda>a b. lt (f a) (f b)) x ys)" for x ys
    by (induction ys) auto
  then show ?thesis by (induction xs) (simp_all add: stableSort_def)
qed

end
