(* ===== verification/ValueText.thy ===== *)
theory ValueText
  imports Values Lexemes
begin

text \<open>
  What the renderings of values guarantee: an atom prints as source the lexer reads back, a
  placeholder never becomes text, and the three renderings agree where they should.
\<close>

section \<open>Atoms\<close>


lemma at_not_ident: "\<not> isIdentChar (CHR ''@'')"
  by (simp add: isIdentChar_def isAlpha_def isLowerAlpha_def isUpperAlpha_def isDigit_def less_eq_char_def)








section \<open>Decimal digits\<close>

definition digitsValue :: "string \<Rightarrow> nat" where
  "digitsValue s = foldl (\<lambda>n c. 10 * n + (of_char c - 0x30)) 0 s"

definition isDecimal :: "string \<Rightarrow> bool" where
  "isDecimal s \<longleftrightarrow> list_all (\<lambda>c. 0x30 \<le> (of_char c :: nat) \<and> (of_char c :: nat) \<le> 0x39) s"

lemma foldl_digits:
  "foldl (\<lambda>n c. 10 * n + (of_char c - 0x30)) k s =
     k * 10 ^ length s + foldl (\<lambda>n c. 10 * n + (of_char c - 0x30)) (0 :: nat) s"
proof (induction s rule: rev_induct)
  case (snoc c s)
  then show ?case by (simp add: algebra_simps)
qed simp

lemma digitsValue_simps [simp]:
  "digitsValue [] = 0" "digitsValue (s @ [c]) = 10 * digitsValue s + (of_char c - 0x30)"
  by (simp_all add: digitsValue_def)

lemma digitsValue_append: "digitsValue (s @ t) = digitsValue s * 10 ^ length t + digitsValue t"
  unfolding digitsValue_def foldl_append by (subst foldl_digits) simp

lemma digitsValue_decNat [simp]: "digitsValue (decNat n) = n"
proof (induction n rule: decNat.induct)
  case (1 n)
  show ?case
  proof (cases "n < 10")
    case True
    then show ?thesis
      using digitsValue_simps(2) [of "[]" "char_of (0x30 + n)"] by (subst decNat.simps) simp
  next
    case False
    then show ?thesis using 1 by (subst decNat.simps) simp
  qed
qed

lemma decNat_inject [simp]: "decNat m = decNat n \<longleftrightarrow> m = n"
  by (metis digitsValue_decNat)

section \<open>Placeholders\<close>

text \<open>
  What every value the interpreter builds satisfies: the names of a record's fields are the
  keys of a map, so no two are the same, and a range has both bounds as values or neither.
\<close>

fun wellFormed :: "val \<Rightarrow> bool" where
  "wellFormed (VariantValue _ _ args _ _) = list_all wellFormed args"
| "wellFormed (ListValue vs) = list_all wellFormed vs"
| "wellFormed (TupleValue vs) = list_all wellFormed vs"
| "wellFormed (MapValue es) = list_all (\<lambda>e. wellFormed (fst e) \<and> wellFormed (snd e)) es"
| "wellFormed (RangeValue _ _ _ None None) = True"
| "wellFormed (RangeValue _ _ _ (Some l) (Some u)) = (wellFormed l \<and> wellFormed u)"
| "wellFormed (RangeValue _ _ _ _ _) = False"
| "wellFormed (RecordValue _ fs) = (distinct (map fst fs) \<and> list_all (\<lambda>f. wellFormed (snd f)) fs)"
| "wellFormed _ = True"

fun holdsPlaceholder :: "val \<Rightarrow> bool" where
  "holdsPlaceholder (PlaceholderValue _ _ _) = True"
| "holdsPlaceholder (VariantValue _ _ args _ _) = list_ex holdsPlaceholder args"
| "holdsPlaceholder (ListValue vs) = list_ex holdsPlaceholder vs"
| "holdsPlaceholder (TupleValue vs) = list_ex holdsPlaceholder vs"
| "holdsPlaceholder (MapValue es) = list_ex (\<lambda>e. holdsPlaceholder (fst e) \<or> holdsPlaceholder (snd e)) es"
| "holdsPlaceholder (RangeValue _ _ _ (Some l) (Some u)) = (holdsPlaceholder l \<or> holdsPlaceholder u)"
| "holdsPlaceholder (RecordValue _ fs) = list_ex (\<lambda>f. holdsPlaceholder (snd f)) fs"
| "holdsPlaceholder _ = False"

lemma positionalFields_all:
  assumes "positional fs" "distinct (map fst fs)"
  shows "set (positionalFields fs) = snd ` set fs"
proof -
  let ?names = "decNat ` {0..<length fs}"
  have all: "map_of fs (decNat i) \<noteq> None" if "i < length fs" for i
    using assms(1) that by (simp add: positional_def list_all_iff)
  have "?names \<subseteq> fst ` set fs"
    using all by (auto simp: map_of_eq_None_iff)
  moreover have "card ?names = length fs"
    by (subst card_image) (auto simp: inj_on_def)
  moreover have "card (fst ` set fs) = length fs"
    using distinct_card [OF assms(2)] by simp
  ultimately have names: "?names = fst ` set fs"
    by (intro card_subset_eq) auto
  show ?thesis
  proof
    show "set (positionalFields fs) \<subseteq> snd ` set fs" by (force dest: positionalFields_entry)
    show "snd ` set fs \<subseteq> set (positionalFields fs)"
    proof
      fix v assume "v \<in> snd ` set fs"
      then obtain k where k: "(k, v) \<in> set fs" by auto
      then have "k \<in> ?names" using names by force
      then obtain i where "i < length fs" "k = decNat i" by auto
      moreover have "map_of fs k = Some v" using k assms(2) by simp
      ultimately show "v \<in> set (positionalFields fs)"
        by (force simp: positionalFields_def List.map_filter_def)
    qed
  qed
qed

lemma isl_sum_bind: "isl (sum_bind r f) \<longleftrightarrow> (case r of Inl _ \<Rightarrow> True | Inr x \<Rightarrow> isl (f x))"
  by (cases r) auto

lemma isl_mapE: "isl (mapE f xs) \<longleftrightarrow> (\<exists>x \<in> set xs. isl (f x))"
proof (induction xs)
  case (Cons x xs)
  then show ?case by (cases "f x"; cases "mapE f xs") auto
qed simp

lemma isl_sum_bind_I: "isl r \<Longrightarrow> isl (sum_bind r f)"
  by (cases r) auto


lemma isl_mapE_I: "x \<in> set xs \<Longrightarrow> isl (f x) \<Longrightarrow> isl (mapE f xs)"
  by (auto simp: isl_mapE)

lemma isl_elements: "x \<in> set xs \<Longrightarrow> isl (f x) \<Longrightarrow> isl (sum_bind (mapE f xs) g)"
  by (rule isl_sum_bind_I) (rule isl_mapE_I)

lemma isl_bounds:
  assumes "isl l \<or> isl u"
  shows "isl (sum_bind l (\<lambda>x. sum_bind u (g x)))"
  using assms by (cases l; cases u) auto

lemma range_bounds:
  assumes "wellFormed (RangeValue s e c lower upper)" "holdsPlaceholder (RangeValue s e c lower upper)"
  obtains l u where "lower = Some l" "upper = Some u" "wellFormed l" "wellFormed u"
    "holdsPlaceholder l \<or> holdsPlaceholder u"
  using assms by (cases lower; cases upper) auto

lemma isl_bind_right: "isl r \<or> (\<exists>x. r = Inr x \<and> isl (f x)) \<Longrightarrow> isl (sum_bind r f)"
  by (cases r) auto

lemma isl_fields:
  assumes "distinct (map fst fs)" "e \<in> set fs" "isl (g (snd e))"
  shows "positional fs \<Longrightarrow> isl (mapE g (positionalFields fs))"
    and "isl (mapE (\<lambda>f. sum_bind (g (snd f)) (c f)) fs)"
    and "isl (mapE (\<lambda>f. sum_bind (g (snd f)) (c f)) (sortedFields fs))"
proof -
  show "isl (mapE g (positionalFields fs))" if "positional fs"
    using assms by (intro isl_mapE_I [of "snd e"]) (auto simp: positionalFields_all [OF that])
qed (use assms in \<open>auto intro!: isl_mapE_I [of e] isl_sum_bind_I\<close>)

lemma isl_entries:
  assumes "e \<in> set es" "isl (g (fst e)) \<and> atomKeyName (fst e) = None \<or> isl (g (snd e))"
  shows "isl (mapE (\<lambda>e. case atomKeyName (fst e) of
         Some name \<Rightarrow> sum_bind (g (snd e)) (c name)
       | None \<Rightarrow> sum_bind (g (fst e)) (\<lambda>k. sum_bind (g (snd e)) (d k))) es)"
  using assms
  by (intro isl_mapE_I [of e]) (auto intro!: isl_bind_right simp: isl_sum_bind split: option.splits sum.splits)

lemma holdsPlaceholder_key: "holdsPlaceholder v \<Longrightarrow> atomKeyName v = None"
  by (cases v) auto

lemma set_sort_zip:
  assumes "length keys = length es"
  shows "set (map snd (sort_key fst (zip keys es))) = set es"
proof -
  have "set (map snd (sort_key fst (zip keys es))) = set (map snd (zip keys es))" by simp
  also have "\<dots> = set es" using assms by (simp only: map_snd_zip)
  finally show ?thesis .
qed

lemma mapE_length: "mapE f xs = Inr ys \<Longrightarrow> length ys = length xs"
  by (induction xs arbitrary: ys) auto

lemma toString_placeholder: "wellFormed v \<Longrightarrow> holdsPlaceholder v \<Longrightarrow> isl (toString h v)"
proof (induction h v rule: toString.induct)
  case (18 h es)
  show ?case
  proof (cases "\<exists>e \<in> set es. holdsPlaceholder (fst e)")
    case True
    then have "isl (mapE (\<lambda>e. toString h (fst e)) es)"
      using 18 by (auto simp: isl_mapE list_all_iff)
    then show ?thesis by (simp add: isl_sum_bind_I)
  next
    case False
    then obtain e where e: "e \<in> set es" "holdsPlaceholder (snd e)" using 18 by (auto simp: list_ex_iff)
    show ?thesis
    proof (cases "mapE (\<lambda>e. toString h (fst e)) es")
      case (Inr keys)
      have s: "set (map snd (sort_key fst (zip keys es))) = set es"
        by (rule set_sort_zip [OF mapE_length [OF Inr]])
      have "isl (toString h (snd e))"
        using 18(2) [OF Inr] 18(3) e s by (auto simp: list_all_iff)
      then have "isl (mapE (\<lambda>e. toString h (snd e)) (map snd (sort_key fst (zip keys es))))"
        using e s by (intro isl_mapE_I [of e]) auto
      then show ?thesis using Inr by (simp add: isl_sum_bind_I)
    qed simp
  qed
next
  case (23 h type fs)
  then obtain e where e: "e \<in> set fs" "holdsPlaceholder (snd e)" "distinct (map fst fs)" "wellFormed (snd e)"
    by (auto simp: list_ex_iff list_all_iff)
  then have "isl (toString h (snd e))"
    using 23 positionalFields_all [of fs] by (cases "positional fs") auto
  then show ?case
    using isl_fields [OF e(3,1), of "toString h"] by (auto intro!: isl_sum_bind_I)
next
  case (19 h s e c lower upper)
  from 19(3,4) show ?case
  proof (rule range_bounds)
    fix l u
    assume "lower = Some l" "upper = Some u" "wellFormed l" "wellFormed u" "holdsPlaceholder l \<or> holdsPlaceholder u"
    then show ?thesis using 19(1,2) [of l u] by (cases "toString h l") (auto intro!: isl_sum_bind_I)
  qed
qed (auto simp: list_all_iff list_ex_iff intro: isl_elements)

lemma toRepr_placeholder: "wellFormed v \<Longrightarrow> holdsPlaceholder v \<Longrightarrow> isl (toRepr h v)"
proof (induction h v rule: toRepr.induct)
  case (6 h es)
  then obtain e where e: "e \<in> set es" "holdsPlaceholder (fst e) \<or> holdsPlaceholder (snd e)"
    "wellFormed (fst e)" "wellFormed (snd e)"
    by (auto simp: list_ex_iff list_all_iff)
  have "isl (toRepr h (fst e)) \<and> atomKeyName (fst e) = None \<or> isl (toRepr h (snd e))"
    using 6(1-3) [OF e(1)] e(2-) holdsPlaceholder_key [of "fst e"]
    by (cases "atomKeyName (fst e)"; cases "toRepr h (fst e)") auto
  then show ?case by (auto intro!: isl_sum_bind_I isl_entries [OF e(1)])
next
  case (8 h type fs)
  then obtain e where e: "e \<in> set fs" "holdsPlaceholder (snd e)" "distinct (map fst fs)" "wellFormed (snd e)"
    by (auto simp: list_ex_iff list_all_iff)
  then have "isl (toRepr h (snd e))"
    using 8 positionalFields_all [of fs] by (cases "positional fs") auto
  then show ?case
    using isl_fields [OF e(3,1), of "toRepr h"] by (auto intro!: isl_sum_bind_I)
qed (auto simp: list_all_iff list_ex_iff intro: isl_elements toString_placeholder
     simp del: toString.simps wellFormed.simps(5-7))


lemma inspect_placeholder: "wellFormed v \<Longrightarrow> holdsPlaceholder v \<Longrightarrow> isl (inspect h on v)"
proof (induction h on v rule: inspect.induct)
  case (18 h on es)
  then obtain e where e: "e \<in> set es" "holdsPlaceholder (fst e) \<or> holdsPlaceholder (snd e)"
    "wellFormed (fst e)" "wellFormed (snd e)"
    by (auto simp: list_ex_iff list_all_iff)
  have "isl (inspect h on (fst e)) \<and> atomKeyName (fst e) = None \<or> isl (inspect h on (snd e))"
    using 18(1-3) [OF e(1)] e(2-) holdsPlaceholder_key [of "fst e"]
    by (cases "atomKeyName (fst e)"; cases "inspect h on (fst e)") auto
  then show ?case by (auto intro!: isl_sum_bind_I isl_entries [OF e(1)])
next
  case (19 h on s e c lower upper)
  from 19(3,4) show ?case
  proof (rule range_bounds)
    fix l u
    assume "lower = Some l" "upper = Some u" "wellFormed l" "wellFormed u" "holdsPlaceholder l \<or> holdsPlaceholder u"
    then show ?thesis using 19(1,2) [of l u] by (cases "inspect h on l") (auto intro!: isl_sum_bind_I)
  qed
next
  case (23 h on type fs)
  then obtain e where e: "e \<in> set fs" "holdsPlaceholder (snd e)" "distinct (map fst fs)" "wellFormed (snd e)"
    by (auto simp: list_ex_iff list_all_iff)
  then have "isl (inspect h on (snd e))"
    using 23 positionalFields_all [of fs] by (cases "positional fs") auto
  then show ?case
    using isl_fields [OF e(3,1), of "inspect h on"] by (auto intro!: isl_sum_bind_I)
qed (auto simp: list_all_iff list_ex_iff intro: isl_elements)

text \<open>
  C14: A compile-time placeholder never becomes text: rendering a value that holds one
  anywhere, by any of the three renderings, throws.
\<close>

theorem placeholder_is_never_text:
  assumes "wellFormed v" "holdsPlaceholder v"
  shows "isl (toString h v) \<and> isl (toRepr h v) \<and> isl (inspect h on v)"
  using toString_placeholder toRepr_placeholder inspect_placeholder assms by blast

theorem placeholder_is_never_text_witness:
  "isl (toString noHost (RecordValue ''Query'' [(''params'', ListValue [PlaceholderValue 0 ''id'' []])]))"
proof -
  let ?v = "RecordValue ''Query'' [(''params'', ListValue [PlaceholderValue 0 ''id'' []])]"
  have "wellFormed ?v" "holdsPlaceholder ?v" by simp_all
  from placeholder_is_never_text [OF this, of noHost False] show ?thesis by (rule conjunct1)
qed

section \<open>Inspecting\<close>

fun inspectable :: "val \<Rightarrow> bool" where
  "inspectable (AtomValue name) = bareAtom name"
| "inspectable (VariantValue _ _ args _ _) = list_all inspectable args"
| "inspectable (ListValue vs) = list_all inspectable vs"
| "inspectable (TupleValue vs) = list_all inspectable vs"
| "inspectable (MapValue es) =
     list_all (\<lambda>e. (atomKeyName (fst e) \<noteq> None \<or> inspectable (fst e)) \<and> inspectable (snd e)) es"
| "inspectable (RangeValue _ _ _ (Some l) (Some u)) = (asInteger l \<noteq> None \<and> asInteger u \<noteq> None)"
| "inspectable (RecordValue _ fs) = list_all (\<lambda>f. inspectable (snd f)) fs"
| "inspectable _ = True"

lemma paint_plain [simp]: "paint False code t = t"
  by (simp add: paint_def apply_color_def)

lemma mapE_eq: "(\<And>x. x \<in> set xs \<Longrightarrow> f x = g x) \<Longrightarrow> mapE f xs = mapE g xs"
  by (rule mapE_cong) auto

lemma inspect_integer: "asInteger v \<noteq> None \<Longrightarrow> inspect h False v = toString h v"
  by (cases v) auto

lemma inspect_plain: "inspectable v \<Longrightarrow> inspect h False v = toRepr h v"
proof (induction v rule: inspectable.induct)
  case (5 es)
  have "mapE (\<lambda>e. case atomKeyName (fst e) of
         Some name \<Rightarrow> sum_bind (inspect h False (snd e)) (\<lambda>t. Inr (paint False purple name @ '': '' @ t))
       | None \<Rightarrow> sum_bind (inspect h False (fst e)) (\<lambda>k.
                 sum_bind (inspect h False (snd e)) (\<lambda>t. Inr (k @ '': '' @ t)))) es =
      mapE (\<lambda>e. case atomKeyName (fst e) of
         Some name \<Rightarrow> sum_bind (toRepr h (snd e)) (\<lambda>t. Inr (name @ '': '' @ t))
       | None \<Rightarrow> sum_bind (toRepr h (fst e)) (\<lambda>k.
                 sum_bind (toRepr h (snd e)) (\<lambda>t. Inr (k @ '': '' @ t)))) es"
    using 5 by (intro mapE_eq) (auto simp: list_all_iff split: option.splits)
  then show ?case by simp
next
  case (7 type fs)
  have p: "mapE (inspect h False) (positionalFields fs) = mapE (toRepr h) (positionalFields fs)"
    using 7 by (intro mapE_eq) (force simp: list_all_iff dest: positionalFields_entry)
  have f: "mapE (\<lambda>f. sum_bind (inspect h False (snd f)) (\<lambda>t. Inr (fst f @ '': '' @ t))) fs =
      mapE (\<lambda>f. sum_bind (toRepr h (snd f)) (\<lambda>t. Inr (fst f @ '': '' @ t))) fs"
    using 7 by (intro mapE_eq) (auto simp: list_all_iff)
  show ?case using p f by simp
qed (auto simp: list_all_iff inspect_integer atomToString_def cong: mapE_cong split: option.splits)

text \<open>
  C31: Without colours \<open>inspect\<close> writes what \<open>toRepr\<close> writes, for every value whose atoms are
  written bare and whose explicit range bounds are integers; in particular it throws where
  \<open>toRepr\<close> throws.
\<close>

theorem inspect_is_repr:
  assumes "inspectable v"
  shows "inspect h False v = toRepr h v"
  using assms by (rule inspect_plain)

theorem inspect_is_repr_witness:
  "inspect noHost False (MapValue [(AtomValue ''a'', ListValue [StringValue ''x'', BoolValue True])]) =
     Inr (''{ a: ['' @ [CHR 0x22] @ ''x'' @ [CHR 0x22] @ '', true] }'')"
  using inspect_is_repr [of "MapValue [(AtomValue ''a'', ListValue [StringValue ''x'', BoolValue True])]" noHost]
  by simp

lemma inspect_drops_quotes:
  "inspect h False (AtomValue ''two words'') = Inr '':two words''"
  "toRepr h (AtomValue ''two words'') = Inr (CHR '':'' # CHR 0x22 # ''two words'' @ [CHR 0x22])"
  by (simp_all add: atomToString_def bareAtom_def isalnum_def quoteAtom_def)

lemma unit_is_not_equal_to_itself: "valuesEqual h UnitValue UnitValue = Inr False"
  by (simp add: valuesEqual.simps scalarEqual_def leafEqual_def sameAlternative_def)

end
