(* ===== verification/FloatText.thy ===== *)
theory FloatText
  imports Complex_Main ValueText
begin

text \<open>
  \<open>formatFloat\<close> rearranges the digits of the shortest scientific rendering of a double; these
  lemmas show that the text it writes denotes the same decimal number.
\<close>

section \<open>The number a decimal text denotes\<close>

definition readDecimal :: "string \<Rightarrow> string \<times> int" where
  \<comment> \<open>digits and the power of ten of the last one, of \<open>ddd\<close>, \<open>ddd.ddd\<close> or either with \<open>e\<close> and
    an exponent\<close>
  "readDecimal s =
     (let mantissa = takeWhile (\<lambda>c. c \<noteq> CHR ''e'') s;
          pw = (if CHR ''e'' \<in> set s then stoi (drop (length mantissa + 1) s) else 0);
          whole = takeWhile (\<lambda>c. c \<noteq> CHR ''.'') mantissa;
          frac = drop (length whole + 1) mantissa
      in (whole @ frac, pw - int (length frac)))"

definition scaled :: "string \<Rightarrow> int \<Rightarrow> real" where
  "scaled digits pw = real (digitsValue digits) * 10 powi pw"

definition decimalValue :: "string \<Rightarrow> real" where
  "decimalValue s =
     (if s \<noteq> [] \<and> hd s = CHR ''-''
      then - (case readDecimal (tl s) of (digits, pw) \<Rightarrow> scaled digits pw)
      else (case readDecimal s of (digits, pw) \<Rightarrow> scaled digits pw))"

section \<open>Digits\<close>

lemma isDecimal_simps [simp]:
  "isDecimal []" "isDecimal (s @ t) \<longleftrightarrow> isDecimal s \<and> isDecimal t"
  by (auto simp: isDecimal_def)

lemma isDecimal_replicate [simp]: "isDecimal (replicate n (CHR ''0''))"
  by (simp add: isDecimal_def list_all_iff)

lemma isDecimal_Cons: "isDecimal (c # s) \<longleftrightarrow> 0x30 \<le> (of_char c :: nat) \<and> (of_char c :: nat) \<le> 0x39 \<and> isDecimal s"
  by (simp add: isDecimal_def)

lemma isDecimal_take: "isDecimal s \<Longrightarrow> isDecimal (take n s)" "isDecimal s \<Longrightarrow> isDecimal (drop n s)"
  by (metis append_take_drop_id isDecimal_simps(2))+

lemma isDecimal_no_mark:
  assumes "isDecimal s"
  shows "CHR ''e'' \<notin> set s" "CHR ''.'' \<notin> set s" "CHR ''-'' \<notin> set s" "CHR ''+'' \<notin> set s"
  using assms by (auto simp: isDecimal_def list_all_iff)

lemma isDecimal_hd: "isDecimal s \<Longrightarrow> s \<noteq> [] \<Longrightarrow> hd s \<noteq> CHR ''-''"
  using isDecimal_no_mark(3) [of s] by (metis list.set_sel(1))

lemma isDecimal_decNat [simp]: "isDecimal (decNat n)"
proof (induction n rule: decNat.induct)
  case (1 n)
  then show ?case by (subst decNat.simps) (auto simp: isDecimal_Cons)
qed

lemma decNat_nonempty [simp]: "decNat n \<noteq> []"
  by (subst decNat.simps) simp

lemma digitsValue_replicate [simp]: "digitsValue (replicate n (CHR ''0'')) = 0"
proof (induction n)
  case (Suc n)
  then show ?case using digitsValue_simps(2) [of "replicate n (CHR ''0'')" "CHR ''0''"]
    by (simp add: replicate_append_same [symmetric] del: replicate_append_same)
qed simp

section \<open>Exponents\<close>

lemma foldl_int_digits:
  assumes "isDecimal s"
  shows "foldl (\<lambda>n c. 10 * n + (of_char c - 0x30)) (int k) s =
    int (foldl (\<lambda>n c. 10 * n + (of_char c - 0x30)) k s)"
  using assms
proof (induction s rule: rev_induct)
  case (snoc c s)
  have c: "0x30 \<le> (of_char c :: nat)" using snoc.prems by (simp add: isDecimal_def)
  have "(of_char c :: int) = int (of_char c)" by (cases c) simp
  then show ?case using snoc c by (simp add: of_nat_diff)
qed simp

lemma decimal_char: "0x30 \<le> (of_char c :: nat) \<and> (of_char c :: nat) \<le> 0x39 \<longleftrightarrow> c \<in> set ''0123456789''"
proof
  assume "0x30 \<le> (of_char c :: nat) \<and> (of_char c :: nat) \<le> 0x39"
  then have "of_char c \<in> {0x30..(0x39 :: nat)}" by simp
  also have "{0x30..(0x39 :: nat)} = set (map of_char ''0123456789'')" by (simp add: atLeastAtMost_upt upt_rec)
  finally have "(of_char c :: nat) \<in> of_char ` set ''0123456789''" by (simp only: set_map)
  then show "c \<in> set ''0123456789''" by (rule inj_image_mem_iff [OF inj_of_char, THEN iffD1])
qed auto

lemma takeWhile_digits: "isDecimal s \<Longrightarrow> takeWhile (\<lambda>c. c \<in> set ''0123456789'') s = s"
  unfolding takeWhile_eq_all_conv isDecimal_def list_all_iff using decimal_char by blast

lemma stoi_digits:
  assumes "isDecimal s"
  shows "stoi s = int (digitsValue s)" "stoi (CHR ''+'' # s) = int (digitsValue s)"
    "stoi (CHR ''-'' # s) = - int (digitsValue s)"
proof -
  have f: "foldl (\<lambda>n c. 10 * n + (of_char c - 0x30)) 0 (takeWhile (\<lambda>c. c \<in> set ''0123456789'') s) =
      int (digitsValue s)"
    unfolding takeWhile_digits [OF assms] digitsValue_def using foldl_int_digits [OF assms, of 0] by simp
  have h: "s \<noteq> [] \<Longrightarrow> hd s \<noteq> CHR ''-''" "s \<noteq> [] \<Longrightarrow> hd s \<noteq> CHR ''+''"
    using isDecimal_no_mark [OF assms] by (metis list.set_sel(1))+
  show "stoi s = int (digitsValue s)" "stoi (CHR ''+'' # s) = int (digitsValue s)"
    "stoi (CHR ''-'' # s) = - int (digitsValue s)"
    unfolding stoi_def Let_def using f h by auto
qed

lemma stoi_to_string [simp]: "stoi (to_string n) = n"
  by (simp add: to_string_def stoi_digits)

section \<open>Reading what was written\<close>

lemma takeWhile_to_mark: "c \<notin> set s \<Longrightarrow> takeWhile (\<lambda>d. d \<noteq> c) (s @ c # t) = s"
  by (induction s) auto

lemma takeWhile_no_mark: "c \<notin> set s \<Longrightarrow> takeWhile (\<lambda>d. d \<noteq> c) s = s"
  by (auto simp: takeWhile_eq_all_conv)

lemma readDecimal_plain:
  assumes "isDecimal w" "isDecimal f"
  shows "readDecimal (w @ CHR ''.'' # f) = (w @ f, - int (length f))"
proof -
  have e: "CHR ''e'' \<notin> set (w @ CHR ''.'' # f)" using assms isDecimal_no_mark by auto
  have "takeWhile (\<lambda>c. c \<noteq> CHR ''.'') (w @ CHR ''.'' # f) = w"
    by (rule takeWhile_to_mark) (rule isDecimal_no_mark [OF assms(1)])
  then show ?thesis
    unfolding readDecimal_def takeWhile_no_mark [OF e] Let_def using e by simp
qed

lemma readDecimal_exponent:
  assumes "isDecimal w" "isDecimal f"
  shows "readDecimal (w @ CHR ''.'' # f @ CHR ''e'' # x) = (w @ f, stoi x - int (length f))"
proof -
  have e: "CHR ''e'' \<notin> set (w @ CHR ''.'' # f)" using assms isDecimal_no_mark by auto
  have "takeWhile (\<lambda>c. c \<noteq> CHR ''e'') (w @ CHR ''.'' # f @ CHR ''e'' # x) = w @ CHR ''.'' # f"
    using takeWhile_to_mark [OF e, of x] by simp
  moreover have "takeWhile (\<lambda>c. c \<noteq> CHR ''.'') (w @ CHR ''.'' # f) = w"
    by (rule takeWhile_to_mark) (rule isDecimal_no_mark [OF assms(1)])
  ultimately show ?thesis by (simp add: readDecimal_def Let_def)
qed

lemma readDecimal_whole_exponent:
  assumes "isDecimal w"
  shows "readDecimal (w @ CHR ''e'' # x) = (w, stoi x)"
proof -
  have "takeWhile (\<lambda>c. c \<noteq> CHR ''e'') (w @ CHR ''e'' # x) = w"
    by (rule takeWhile_to_mark) (rule isDecimal_no_mark [OF assms])
  moreover have "takeWhile (\<lambda>c. c \<noteq> CHR ''.'') w = w"
    by (rule takeWhile_no_mark) (rule isDecimal_no_mark [OF assms])
  ultimately show ?thesis unfolding readDecimal_def Let_def by (simp del: takeWhile_eq_all_conv)
qed

lemma scaled_zeros: "scaled (m @ replicate n (CHR ''0'')) pw = scaled m (pw + int n)"
  by (simp add: scaled_def digitsValue_append power_int_add mult.commute)

lemma scaled_leading_zeros: "scaled (replicate n (CHR ''0'') @ m) pw = scaled m pw"
  by (simp add: scaled_def digitsValue_append)

lemma scaled_zero: "scaled (m @ ''0'') pw = scaled m (pw + 1)"
  using scaled_zeros [of m 1] by simp

lemma stripZeros_scaled:
  assumes "isDecimal m" "m \<noteq> []" "stripZeros m pw = (m', pw')"
  shows "scaled m' pw' = scaled m pw \<and> isDecimal m' \<and> m' \<noteq> []"
  using assms
proof (induction m pw rule: stripZeros.induct)
  case (1 m pw)
  show ?case
  proof (cases "length m > 1 \<and> last m = CHR ''0''")
    case True
    then have m: "m = butlast m @ ''0''" using 1(3) by (metis append_butlast_last_id)
    then have "scaled m pw = scaled (butlast m) (pw + 1)" using scaled_zero by metis
    moreover have "butlast m \<noteq> []" using True by (cases m) auto
    moreover have "isDecimal (butlast m)" using 1(2) m by (metis isDecimal_simps(2))
    ultimately show ?thesis using 1(1) [OF True] 1(4) True by (subst (asm) stripZeros.simps) simp
  next
    case False
    then show ?thesis using 1 by (subst (asm) (2) stripZeros.simps) auto
  qed
qed


definition reads_as :: "string \<Rightarrow> real \<Rightarrow> bool" where
  "reads_as t x \<longleftrightarrow> t \<noteq> [] \<and> hd t \<noteq> CHR ''-'' \<and> (case readDecimal t of (ds, q) \<Rightarrow> scaled ds q = x)"

lemma decimalValue_signed:
  assumes "reads_as t x"
  shows "decimalValue t = x" "decimalValue (CHR ''-'' # t) = - x"
  using assms by (auto simp: decimalValue_def reads_as_def split: prod.splits)

lemma layoutFloat_sign: "layoutFloat outside sign m pw = sign @ layoutFloat outside [] m pw"
  by (simp add: layoutFloat_def Let_def)

lemma scaled_powi: "10 powi a * scaled m b = scaled m (a + b)"
  by (simp add: scaled_def power_int_add)

lemma layoutFloat_reads:
  assumes m: "isDecimal m" "m \<noteq> []"
  shows "reads_as (layoutFloat outside [] m pw) (scaled m pw)"
proof -
  obtain d ds where d: "m = d # ds" using m by (cases m) auto
  have hd: "hd m \<noteq> CHR ''-''" by (rule isDecimal_hd [OF m])
  consider "outside" | "\<not> outside" "pw \<ge> 0" | "\<not> outside" "pw < 0" "length m > nat (- pw)"
    | "\<not> outside" "pw < 0" "length m \<le> nat (- pw)" by linarith
  then show ?thesis
  proof cases
    case 1
    let ?f = "if length m > 1 then drop 1 m else ''0''"
    have f: "isDecimal [d]" "isDecimal ?f"
      using m isDecimal_take [of m 1] d by (auto simp: isDecimal_def)
    have "readDecimal (layoutFloat outside [] m pw) =
        ([d] @ ?f, pw + int (length m) - 1 - int (length ?f))"
      using readDecimal_exponent [OF f, of "to_string (pw + int (length m) - 1)"] 1 d
      by (cases ds) (simp_all add: layoutFloat_def)
    moreover have "scaled ([d] @ ?f) (pw + int (length m) - 1 - int (length ?f)) = scaled m pw"
      using scaled_zero [of "[d]" "pw - 1"] d by (cases ds) auto
    moreover have "hd (layoutFloat outside [] m pw) = hd m" "layoutFloat outside [] m pw \<noteq> []"
      using 1 d by (simp_all add: layoutFloat_def)
    ultimately show ?thesis using hd by (simp add: reads_as_def)
  next
    case 2
    let ?w = "m @ replicate (nat pw) (CHR ''0'')"
    have l: "layoutFloat outside [] m pw = ?w @ CHR ''.'' # ''0''" using 2 by (simp add: layoutFloat_def)
    have "readDecimal (layoutFloat outside [] m pw) = (?w @ ''0'', - 1)"
      unfolding l by (subst readDecimal_plain) (use m in \<open>auto simp: isDecimal_Cons\<close>)
    moreover have "scaled (?w @ ''0'') (- 1) = scaled m pw"
      unfolding scaled_zero scaled_zeros using 2 by simp
    ultimately show ?thesis using hd m l by (auto simp: reads_as_def)
  next
    case 3
    let ?k = "length m - nat (- pw)"
    have l: "layoutFloat outside [] m pw = take ?k m @ CHR ''.'' # drop ?k m"
      using 3 by (simp add: layoutFloat_def Let_def)
    have "readDecimal (layoutFloat outside [] m pw) = (m, pw)"
      unfolding l using readDecimal_plain [OF isDecimal_take [OF m(1)], of ?k ?k] 3 by simp
    then show ?thesis using hd m l 3 by (auto simp: reads_as_def hd_append)
  next
    case 4
    let ?z = "replicate (nat (- pw) - length m) (CHR ''0'')"
    have l: "layoutFloat outside [] m pw = ''0'' @ CHR ''.'' # (?z @ m)"
      using 4 by (simp add: layoutFloat_def Let_def)
    have "readDecimal (layoutFloat outside [] m pw) = (''0'' @ ?z @ m, pw)"
      unfolding l by (subst readDecimal_plain) (use m 4 in \<open>auto simp: isDecimal_Cons\<close>)
    moreover have "scaled (''0'' @ ?z @ m) pw = scaled m pw"
      using scaled_leading_zeros [of 1 "?z @ m"] scaled_leading_zeros by simp
    ultimately show ?thesis using l by (simp add: reads_as_def)
  qed
qed

text \<open>
  The shape of \<open>std::to_chars\<close> in the scientific format: a sign, one digit, a fraction when it
  is not empty, and an exponent with its sign.
\<close>

definition scientific :: "string \<Rightarrow> char \<Rightarrow> string \<Rightarrow> char \<Rightarrow> string \<Rightarrow> string" where
  "scientific sign d ds esign es =
     sign @ d # (if ds = [] then [] else CHR ''.'' # ds) @ CHR ''e'' # esign # es"

lemma splitScientific_reads:
  assumes "isDecimal (d # ds)" "isDecimal es" "esign = CHR ''+'' \<or> esign = CHR ''-''"
  shows "splitScientific (scientific [] d ds esign es) = (d # ds, stoi (esign # es) - int (length ds))"
    and "reads_as (scientific [] d ds esign es) (scaled (d # ds) (stoi (esign # es) - int (length ds)))"
proof -
  let ?s = "scientific [] d ds esign es"
  have w: "isDecimal [d]" "isDecimal ds" using assms(1) by (simp_all add: isDecimal_def)
  have n: "d \<noteq> CHR ''-''" "d \<noteq> CHR ''.''" "d \<noteq> CHR ''e''"
    using isDecimal_no_mark [OF assms(1)] by auto
  have "readDecimal ?s = (d # ds, stoi (esign # es) - int (length ds))"
    using readDecimal_exponent [OF w, of "esign # es"] readDecimal_whole_exponent [OF w(1), of "esign # es"]
    by (cases ds) (simp_all add: scientific_def)
  then show "reads_as ?s (scaled (d # ds) (stoi (esign # es) - int (length ds)))"
    using n by (simp add: reads_as_def scientific_def)
  let ?m = "d # (if ds = [] then [] else CHR ''.'' # ds)"
  have "CHR ''e'' \<notin> set ?m"
    using isDecimal_no_mark [OF assms(1)] isDecimal_no_mark [OF w(2)] by auto
  from takeWhile_to_mark [OF this, of "esign # es"]
  have t: "takeWhile (\<lambda>c. c \<noteq> CHR ''e'') ?s = ?m" by (simp add: scientific_def)
  have e: "stoi (if CHR ''e'' \<in> set ?s then drop (length ?m + 1) ?s else ?s) = stoi (esign # es)"
    by (simp add: scientific_def)
  have f: "CHR ''.'' \<notin> set ds" using w isDecimal_no_mark by auto
  show "splitScientific ?s = (d # ds, stoi (esign # es) - int (length ds))"
    unfolding splitScientific_def t Let_def e using n f by (cases ds) auto
qed

text \<open>
  C15: The text of a float denotes the number of its shortest scientific rendering, digit for
  digit: dropping trailing zeros, moving the point and choosing between plain and exponent
  notation change neither the value nor the sign.
\<close>

theorem float_text_value:
  assumes "\<not> isNan v" "\<not> isInf v" "\<not> fEq v 0"
    and "to_chars h v = scientific sign d ds esign es" "sign = [] \<or> sign = ''-''"
    and "isDecimal (d # ds)" "isDecimal es" "esign = CHR ''+'' \<or> esign = CHR ''-''"
  shows "decimalValue (formatFloat h v) = decimalValue (to_chars h v)"
proof -
  let ?p = "stoi (esign # es) - int (length ds)"
  note split = splitScientific_reads [OF assms(6-8)]
  obtain m pw where st: "stripZeros (d # ds) ?p = (m, pw)" by fastforce
  have m: "scaled m pw = scaled (d # ds) ?p" "isDecimal m" "m \<noteq> []"
    using stripZeros_scaled [OF assms(6) _ st] by auto
  have d: "d \<noteq> CHR ''-''" using isDecimal_no_mark [OF assms(6)] by auto
  let ?outside = "fLess (take_bit 63 v) 0x3F1A36E2EB1C432D \<or> \<not> fLess (take_bit 63 v) 0x4341C37937E08000"
  have fmt: "formatFloat h v = sign @ layoutFloat ?outside [] m pw"
    using assms(5) split(1) st d assms(1-4)
    by (auto simp: formatFloat_def scientific_def layoutFloat_sign [of _ "[_]"] Let_def split: if_splits)
  have chars: "to_chars h v = sign @ scientific [] d ds esign es"
    using assms(4) by (simp add: scientific_def)
  note reads = layoutFloat_reads [OF m(2,3), of ?outside pw, unfolded m(1)]
  show ?thesis
    unfolding fmt chars using assms(5) decimalValue_signed [OF reads] decimalValue_signed [OF split(2)] by auto
qed

definition host0 :: host where
  "host0 = \<lparr>to_chars = (\<lambda>_. ''-2.5e+06''), get_d = (\<lambda>_. 0), spent = (\<lambda>_. False)\<rparr>"

theorem float_text_value_witness:
  "decimalValue (formatFloat host0 0xC1431BF000000000) = - 2500000"
proof -
  let ?v = "0xC1431BF000000000 :: double"
  have v: "\<not> isNan ?v" "\<not> isInf ?v" "\<not> fEq ?v 0"
    by (simp_all add: isNan_def isInf_def fEq_def magnitude_def order_key_def signbit_def)
  have s: "to_chars host0 ?v = scientific ''-'' (CHR ''2'') ''5'' (CHR ''+'') ''06''"
    by (simp add: host0_def scientific_def)
  have "decimalValue (formatFloat host0 ?v) = decimalValue (to_chars host0 ?v)"
    by (rule float_text_value [OF v s]) (simp_all add: isDecimal_def)
  also have "\<dots> = - 2500000"
    by (simp add: host0_def decimalValue_def readDecimal_def stoi_def scaled_def digitsValue_def)
  finally show ?thesis .
qed

end
