(* ===== verification/MapOps.thy ===== *)
theory MapOps
  imports Effects
begin

text \<open>
  The \<open>Map\<close> intrinsics (\<open>src/interpreter/stdlib/map.cxx\<close>): a map is an immutable list of
  entries, searched with structural equality and put in the canonical key order by every
  operation that reads it.  Each native function takes its argument list.
\<close>

section \<open>Canonical order\<close>

definition mapKeyLess :: "val \<Rightarrow> val \<Rightarrow> bool" where
  "mapKeyLess a b =
     (case a of
        IntValue i \<Rightarrow> (case b of IntValue j \<Rightarrow> sint i < sint j | _ \<Rightarrow> False)
      | FloatValue x \<Rightarrow> (case b of FloatValue y \<Rightarrow> fLess x y | _ \<Rightarrow> False)
      | StringValue s \<Rightarrow> (case b of StringValue t \<Rightarrow> s < t | _ \<Rightarrow> False)
      | CharValue c \<Rightarrow> (case b of CharValue d \<Rightarrow> c < d | _ \<Rightarrow> False)
      | AtomValue s \<Rightarrow> (case b of AtomValue t \<Rightarrow> s < t | _ \<Rightarrow> False)
      | _ \<Rightarrow> False)"

type_synonym entries = "(val \<times> val) list"

definition sortedEntries :: "entries \<Rightarrow> entries" where
  "sortedEntries es = stableSort (\<lambda>x y. mapKeyLess (fst x) (fst y)) es"

fun mapOf :: "val \<Rightarrow> entries option" where
  "mapOf (MapValue es) = Some es"
| "mapOf _ = None"

section \<open>The loops over the entries\<close>

fun findEntry :: "'a host_scheme \<Rightarrow> val \<Rightarrow> entries \<Rightarrow> fault + val option" where
  "findEntry h key [] = Inr None"
| "findEntry h key ((k, v) # es) =
     sum_bind (valuesEqual h k key) (\<lambda>e. if e then Inr (Some v) else findEntry h key es)"

fun storeEntry :: "'a host_scheme \<Rightarrow> val \<Rightarrow> val \<Rightarrow> entries \<Rightarrow> fault + entries" where
  \<comment> \<open>the value of the first equal key is replaced, else the entry is appended\<close>
  "storeEntry h key v [] = Inr [(key, v)]"
| "storeEntry h key v ((k, w) # es) =
     sum_bind (valuesEqual h k key) (\<lambda>e. if e then Inr ((k, v) # es)
       else sum_bind (storeEntry h key v es) (\<lambda>es'. Inr ((k, w) # es')))"

fun dropEntries :: "'a host_scheme \<Rightarrow> val \<Rightarrow> entries \<Rightarrow> fault + entries" where
  "dropEntries h key [] = Inr []"
| "dropEntries h key ((k, v) # es) =
     sum_bind (valuesEqual h k key) (\<lambda>e.
       sum_bind (dropEntries h key es) (\<lambda>es'. Inr (if e then es' else (k, v) # es')))"

fun storeAll :: "'a host_scheme \<Rightarrow> entries \<Rightarrow> entries \<Rightarrow> fault + entries" where
  "storeAll h [] es = Inr es"
| "storeAll h ((k, v) # new) es = sum_bind (storeEntry h k v es) (storeAll h new)"

section \<open>The intrinsics\<close>

definition emptyList :: val where
  "emptyList = ListValue []"

definition map_get :: "'a host_scheme \<Rightarrow> val list \<Rightarrow> fault + val" where
  "map_get h args =
     (if length args < 2 then Inr none
      else let fallback = (if length args \<ge> 3 then args ! 2 else none) in
        case listOf (args ! 0) of
          Some xs \<Rightarrow>
            (case intOf (args ! 1) of
               Some i \<Rightarrow> if sint i < 0 \<or> nat (sint i) \<ge> length xs then Inr fallback else Inr (xs ! nat (sint i))
             | None \<Rightarrow> Inr fallback)
        | None \<Rightarrow> (case mapOf (args ! 0) of
            None \<Rightarrow> Inr fallback
          | Some es \<Rightarrow> sum_bind (findEntry h (args ! 1) (sortedEntries es)) (\<lambda>r.
              Inr (case r of None \<Rightarrow> fallback | Some v \<Rightarrow> if length args \<ge> 3 then v else just v))))"

definition map_getWithDefault :: "'a host_scheme \<Rightarrow> val list \<Rightarrow> fault + val" where
  "map_getWithDefault h args =
     (if length args < 3 then Inr (if length args \<ge> 2 then args ! 1 else none)
      else case mapOf (args ! 0) of
          None \<Rightarrow> Inr (args ! 2)
        | Some es \<Rightarrow> sum_bind (findEntry h (args ! 1) (sortedEntries es)) (\<lambda>r.
            Inr (case r of None \<Rightarrow> args ! 2 | Some v \<Rightarrow> v)))"

definition map_put :: "'a host_scheme \<Rightarrow> val list \<Rightarrow> fault + val" where
  "map_put h args =
     (if length args < 3 then Inr (if args = [] then emptyList else args ! 0)
      else case mapOf (args ! 0) of
          None \<Rightarrow> Inr (args ! 0)
        | Some es \<Rightarrow> sum_bind (storeEntry h (args ! 1) (args ! 2) (sortedEntries es)) (\<lambda>es'. Inr (MapValue es')))"

definition map_delete :: "'a host_scheme \<Rightarrow> val list \<Rightarrow> fault + val" where
  "map_delete h args =
     (if length args < 2 then Inr (if args = [] then emptyList else args ! 0)
      else case mapOf (args ! 0) of
          None \<Rightarrow> Inr (args ! 0)
        | Some es \<Rightarrow> sum_bind (dropEntries h (args ! 1) (sortedEntries es)) (\<lambda>es'. Inr (MapValue es')))"

definition map_has :: "'a host_scheme \<Rightarrow> val list \<Rightarrow> fault + val" where
  "map_has h args =
     (if length args < 2 then Inr (BoolValue False)
      else case mapOf (args ! 0) of
          None \<Rightarrow> Inr (BoolValue False)
        | Some es \<Rightarrow> sum_bind (findEntry h (args ! 1) (sortedEntries es)) (\<lambda>r. Inr (BoolValue (r \<noteq> None))))"

definition map_keys :: "val list \<Rightarrow> val" where
  "map_keys args =
     (if args = [] then emptyList
      else case mapOf (args ! 0) of None \<Rightarrow> emptyList | Some es \<Rightarrow> ListValue (map fst (sortedEntries es)))"

definition map_values :: "val list \<Rightarrow> val" where
  "map_values args =
     (if args = [] then emptyList
      else case mapOf (args ! 0) of None \<Rightarrow> emptyList | Some es \<Rightarrow> ListValue (map snd (sortedEntries es)))"

definition map_merge :: "'a host_scheme \<Rightarrow> val list \<Rightarrow> fault + val" where
  "map_merge h args =
     (if length args < 2 then Inr (if args = [] then emptyList else args ! 0)
      else case mapOf (args ! 0) of
          None \<Rightarrow> Inr (args ! 1)
        | Some base \<Rightarrow> (case mapOf (args ! 1) of
            None \<Rightarrow> Inr (args ! 0)
          | Some other \<Rightarrow> sum_bind (storeAll h other base) (\<lambda>es. Inr (MapValue es))))"

definition map_count :: "('s, 'a) callbacks_scheme \<Rightarrow> val list \<Rightarrow> ('s, val) eff" where
  "map_count h args =
     (if length args < 2
      then return (IntValue (if args = [] then 0
             else case mapOf (args ! 0) of None \<Rightarrow> 0 | Some es \<Rightarrow> of_nat (length es)))
      else case (mapOf (args ! 0), nativeOf (args ! 1)) of
          (Some es, Some fn) \<Rightarrow>
            and_then (foldM (\<lambda>n (k, v). and_then (call h fn [k, v]) (\<lambda>r.
                return (case r of BoolValue True \<Rightarrow> n + 1 | _ \<Rightarrow> n))) 0 (sortedEntries es))
              (\<lambda>n. return (IntValue n))
        | _ \<Rightarrow> return (IntValue 0))"

definition map_entries :: "val list \<Rightarrow> val" where
  "map_entries args =
     (if args = [] then emptyList
      else case mapOf (args ! 0) of
          None \<Rightarrow> emptyList
        | Some es \<Rightarrow> ListValue (map (\<lambda>(k, v). TupleValue [k, v]) (sortedEntries es)))"

fun pairOf :: "val \<Rightarrow> (val \<times> val) option" where
  \<comment> \<open>the first two elements of a tuple that has them\<close>
  "pairOf (TupleValue (k # v # _)) = Some (k, v)"
| "pairOf _ = None"

definition map_fromEntries :: "'a host_scheme \<Rightarrow> val list \<Rightarrow> fault + val" where
  "map_fromEntries h args =
     (if args = [] then Inr (MapValue [])
      else case listOf (args ! 0) of
          None \<Rightarrow> Inr (MapValue [])
        | Some xs \<Rightarrow> sum_bind (storeAll h (List.map_filter pairOf xs) []) (\<lambda>es. Inr (MapValue es)))"


section \<open>Keys whose equality is identity\<close>

text \<open>
  On integers in their canonical representation, texts, characters, booleans, atoms,
  binaries, process handles and lists and tuples of them, structural equality is identity.
\<close>

fun simpleKey :: "val \<Rightarrow> bool" where
  "simpleKey (IntValue _) = True"
| "simpleKey (BigIntValue n) = (\<not> fits64 n)"
| "simpleKey (StringValue _) = True"
| "simpleKey (CharValue _) = True"
| "simpleKey (BoolValue _) = True"
| "simpleKey (AtomValue _) = True"
| "simpleKey (BinaryValue _) = True"
| "simpleKey (ProcessValue _) = True"
| "simpleKey (ListValue vs) = list_all simpleKey vs"
| "simpleKey (TupleValue vs) = list_all simpleKey vs"
| "simpleKey _ = False"

lemma simpleKey_plain:
  assumes "simpleKey a" "simpleKey b"
  shows "placeholderIn a b = None" "floatOf a = None" "floatOf b = None"
  using assms by (cases a; cases b; simp)+

lemma simpleKey_integers:
  assumes "simpleKey a" "simpleKey b" "asInteger a = Some m" "asInteger b = Some n"
  shows "m = n \<longleftrightarrow> a = b"
  using assms sint_range by (auto simp: asInteger_shape dest: signed_word_eqI)

lemma scalarEqual_simple:
  assumes "simpleKey a" "simpleKey b"
  shows "scalarEqual h a b = Some r \<Longrightarrow> r = (a = b)"
    and "scalarEqual h a b = None \<Longrightarrow>
      (stringText a = None \<or> stringText b = None) \<and> (asInteger a = None \<or> asInteger b = None)"
  using simpleKey_plain [OF assms] simpleKey_integers [OF assms]
  by (auto simp: scalarEqual_def split: option.splits elim!: stringText.elims)

lemma allEqual_identity:
  assumes "\<And>x y. x \<in> set xs \<Longrightarrow> y \<in> set ys \<Longrightarrow> valuesEqual h x y = Inr (x = y)" "length xs = length ys"
  shows "allEqual h xs ys = Inr (xs = ys)"
  using assms(2,1) by (induction xs ys rule: list_induct2) auto

lemma simpleKey_cases [consumes 1, case_names Int BigInt String Char Bool Atom Binary Process List Tuple]:
  assumes "simpleKey a"
  obtains i where "a = IntValue i" | n where "a = BigIntValue n" | s where "a = StringValue s"
    | c where "a = CharValue c" | b where "a = BoolValue b" | x where "a = AtomValue x"
    | bs where "a = BinaryValue bs" | p where "a = ProcessValue p"
    | vs where "a = ListValue vs" | vs where "a = TupleValue vs"
  using assms by (cases a) auto

lemmas equal_defs = valuesEqual.simps scalarEqual_def sameAlternative_def leafEqual_def

lemma simple_list_equal:
  assumes "list_all simpleKey vs" "\<And>v w. v \<in> set vs \<Longrightarrow> simpleKey w \<Longrightarrow> valuesEqual h v w = Inr (v = w)"
    and "simpleKey b"
  shows "valuesEqual h (ListValue vs) b = Inr (ListValue vs = b)"
    "valuesEqual h (TupleValue vs) b = Inr (TupleValue vs = b)"
proof -
  have e: "length vs = length ws \<Longrightarrow> allEqual h vs ws = Inr (vs = ws)" if "list_all simpleKey ws" for ws
    using assms(2) that by (intro allEqual_identity) (auto simp: list_all_iff)
  show "valuesEqual h (ListValue vs) b = Inr (ListValue vs = b)"
    using assms(3,3) by (cases b rule: simpleKey_cases) (auto simp: equal_defs e)
  show "valuesEqual h (TupleValue vs) b = Inr (TupleValue vs = b)"
    using assms(3,3) by (cases b rule: simpleKey_cases) (auto simp: equal_defs e)
qed

lemma simple_integer_equal:
  assumes "simpleKey a" "asInteger a = Some m" "simpleKey b"
  shows "valuesEqual h a b = Inr (a = b)"
  using assms(3,1,2) simpleKey_integers [OF assms(1,3,2)]
  by (cases b rule: simpleKey_cases) (auto simp: equal_defs asInteger_shape)

lemma simple_equal: "simpleKey a \<Longrightarrow> simpleKey b \<Longrightarrow> valuesEqual h a b = Inr (a = b)"
proof (induction a arbitrary: b)
  case (IntValue i)
  show ?case by (rule simple_integer_equal [OF IntValue(1) _ IntValue(2)]) simp
next
  case (BigIntValue n)
  show ?case by (rule simple_integer_equal [OF BigIntValue(1) _ BigIntValue(2)]) simp
next
  case (StringValue s)
  from StringValue(2) show ?case by (cases b rule: simpleKey_cases) (simp_all add: equal_defs)
next
  case (CharValue c)
  from CharValue(2) show ?case by (cases b rule: simpleKey_cases) (simp_all add: equal_defs)
next
  case (BoolValue x)
  from BoolValue(2) show ?case by (cases b rule: simpleKey_cases) (simp_all add: equal_defs)
next
  case (AtomValue x)
  from AtomValue(2) show ?case by (cases b rule: simpleKey_cases) (simp_all add: equal_defs)
next
  case (BinaryValue x)
  from BinaryValue(2) show ?case by (cases b rule: simpleKey_cases) (simp_all add: equal_defs)
next
  case (ProcessValue p)
  from ProcessValue(2) show ?case by (cases b rule: simpleKey_cases) (simp_all add: equal_defs)
next
  case (ListValue vs)
  then show ?case by (intro simple_list_equal) (auto simp: list_all_iff)
next
  case (TupleValue vs)
  then show ?case by (intro simple_list_equal) (auto simp: list_all_iff)
qed simp_all

section \<open>Maps as finite functions\<close>

text \<open>
  The contract of a store of entries whose operations may throw: on keys that are \<open>ok\<close> they
  do not, they keep the store well formed, and looking a key up answers the last write.
\<close>

locale key_store =
  fixes wf :: "'m \<Rightarrow> bool"
    and ok :: "'k \<Rightarrow> bool"
    and get :: "'m \<Rightarrow> 'k \<Rightarrow> 'e + 'v option"
    and put :: "'m \<Rightarrow> 'k \<Rightarrow> 'v \<Rightarrow> 'e + 'm"
    and del :: "'m \<Rightarrow> 'k \<Rightarrow> 'e + 'm"
    and content :: "'m \<Rightarrow> 'k \<Rightarrow> 'v option"
  assumes get_content: "wf m \<Longrightarrow> ok k \<Longrightarrow> get m k = Inr (content m k)"
    and put_content: "wf m \<Longrightarrow> ok k \<Longrightarrow> \<exists>m'. put m k v = Inr m' \<and> wf m' \<and> content m' = (content m)(k \<mapsto> v)"
    and del_content: "wf m \<Longrightarrow> ok k \<Longrightarrow> \<exists>m'. del m k = Inr m' \<and> wf m' \<and> content m' = (content m)(k := None)"
begin

fun puts :: "('k \<times> 'v) list \<Rightarrow> 'm \<Rightarrow> 'e + 'm" where
  "puts [] m = Inr m"
| "puts ((k, v) # kvs) m = sum_bind (put m k v) (puts kvs)"

lemma puts_content:
  "wf m \<Longrightarrow> list_all (\<lambda>kv. ok (fst kv)) kvs \<Longrightarrow>
     \<exists>m'. puts kvs m = Inr m' \<and> wf m' \<and> content m' = content m ++ map_of (rev kvs)"
proof (induction kvs arbitrary: m)
  case (Cons kv kvs)
  obtain k v where kv: "kv = (k, v)" by fastforce
  obtain m1 where m1: "put m k v = Inr m1" "wf m1" "content m1 = (content m)(k \<mapsto> v)"
    using put_content [of m k v] Cons.prems kv by auto
  obtain m2 where "puts kvs m1 = Inr m2" "wf m2" "content m2 = content m1 ++ map_of (rev kvs)"
    using Cons.IH [OF m1(2)] Cons.prems by auto
  then show ?case using m1 kv by (simp add: map_add_def fun_eq_iff split: option.splits)
qed auto

lemma get_after_put:
  "wf m \<Longrightarrow> ok k \<Longrightarrow> ok j \<Longrightarrow>
     sum_bind (put m k v) (\<lambda>m'. get m' j) = (if j = k then Inr (Some v) else get m j)"
  using put_content [of m k v] by (auto simp: get_content)

lemma get_after_del:
  "wf m \<Longrightarrow> ok k \<Longrightarrow> ok j \<Longrightarrow>
     sum_bind (del m k) (\<lambda>m'. get m' j) = (if j = k then Inr None else get m j)"
  using del_content [of m k] by (auto simp: get_content)

end


definition keyed :: "entries \<Rightarrow> bool" where
  \<comment> \<open>what the operations keep: no key twice, and every key simple\<close>
  "keyed es \<longleftrightarrow> distinct (map fst es) \<and> list_all (\<lambda>e. simpleKey (fst e)) es"

lemma keyed_simps [simp]:
  "keyed []"
  "keyed ((k, v) # es) \<longleftrightarrow> k \<notin> fst ` set es \<and> simpleKey k \<and> keyed es"
  by (auto simp: keyed_def)

lemma set_sortedEntries [simp]: "set (sortedEntries es) = set es"
  by (simp add: sortedEntries_def)

lemma mset_sortedEntries [simp]: "mset (sortedEntries es) = mset es"
  by (simp add: sortedEntries_def)

lemma keyed_sortedEntries [simp]: "keyed (sortedEntries es) = keyed es"
proof -
  have "mset (map fst (sortedEntries es)) = mset (map fst es)" by simp
  then have "distinct (map fst (sortedEntries es)) \<longleftrightarrow> distinct (map fst es)"
    by (rule mset_eq_imp_distinct_iff)
  then show ?thesis by (simp add: keyed_def list_all_iff)
qed

lemma map_of_sortedEntries [simp]: "keyed es \<Longrightarrow> map_of (sortedEntries es) = map_of es"
  using keyed_sortedEntries [of es] map_of_inject_set [of "sortedEntries es" es]
  by (auto simp: keyed_def simp del: keyed_sortedEntries)

lemma findEntry_keyed: "keyed es \<Longrightarrow> simpleKey k \<Longrightarrow> findEntry h k es = Inr (map_of es k)"
  by (induction es rule: findEntry.induct) (auto simp: simple_equal)

lemma storeEntry_keyed:
  "keyed es \<Longrightarrow> simpleKey k \<Longrightarrow>
     \<exists>es'. storeEntry h k v es = Inr es' \<and> keyed es' \<and> fst ` set es' = insert k (fst ` set es) \<and>
       map_of es' = (map_of es)(k \<mapsto> v)"
proof (induction es)
  case (Cons e es)
  obtain j w where e: "e = (j, w)" by fastforce
  show ?case
  proof (cases "j = k")
    case True
    then show ?thesis using Cons.prems e by (simp add: simple_equal fun_eq_iff)
  next
    case False
    obtain es' where "storeEntry h k v es = Inr es'" "keyed es'" "fst ` set es' = insert k (fst ` set es)"
      "map_of es' = (map_of es)(k \<mapsto> v)"
      using Cons.IH Cons.prems unfolding e keyed_simps by blast
    then show ?thesis using False Cons.prems by (auto simp: e simple_equal)
  qed
qed auto

lemma dropEntries_keyed:
  "keyed es \<Longrightarrow> simpleKey k \<Longrightarrow>
     dropEntries h k es = Inr (filter (\<lambda>e. fst e \<noteq> k) es)"
  by (induction h k es rule: dropEntries.induct) (auto simp: simple_equal)

lemma keyed_filter: "keyed es \<Longrightarrow> keyed (filter p es)"
  by (auto simp: keyed_def list_all_iff distinct_map_filter)

lemma map_of_filter_key: "map_of (filter (\<lambda>e. fst e \<noteq> k) es) = (map_of es)(k := None)"
  by (induction es) auto

text \<open>
  The operations of the intrinsics on a map's entries, and the store they implement.
\<close>

definition entriesGet :: "'a host_scheme \<Rightarrow> entries \<Rightarrow> val \<Rightarrow> fault + val option" where
  "entriesGet h es k = findEntry h k (sortedEntries es)"

definition entriesPut :: "'a host_scheme \<Rightarrow> entries \<Rightarrow> val \<Rightarrow> val \<Rightarrow> fault + entries" where
  "entriesPut h es k v = storeEntry h k v (sortedEntries es)"

definition entriesDelete :: "'a host_scheme \<Rightarrow> entries \<Rightarrow> val \<Rightarrow> fault + entries" where
  "entriesDelete h es k = dropEntries h k (sortedEntries es)"

interpretation ms: key_store keyed simpleKey "entriesGet h" "entriesPut h" "entriesDelete h" map_of
  for h :: "'a host_scheme"
proof unfold_locales
  fix m k v
  assume m: "keyed m" "simpleKey k"
  show "entriesGet h m k = Inr (map_of m k)"
    using m by (simp add: entriesGet_def findEntry_keyed)
  show "\<exists>m'. entriesPut h m k v = Inr m' \<and> keyed m' \<and> map_of m' = (map_of m)(k \<mapsto> v)"
    using storeEntry_keyed [of "sortedEntries m" k h v] m by (auto simp: entriesPut_def)
  show "\<exists>m'. entriesDelete h m k = Inr m' \<and> keyed m' \<and> map_of m' = (map_of m)(k := None)"
    using m by (simp add: entriesDelete_def dropEntries_keyed keyed_filter map_of_filter_key)
qed

lemma storeAll_keyed:
  "keyed es \<Longrightarrow> list_all (\<lambda>e. simpleKey (fst e)) new \<Longrightarrow>
     \<exists>es'. storeAll h new es = Inr es' \<and> keyed es' \<and> map_of es' = map_of es ++ map_of (rev new)"
proof (induction new arbitrary: es)
  case (Cons e new)
  obtain k v where e: "e = (k, v)" by fastforce
  obtain es1 where es1: "storeEntry h k v es = Inr es1" "keyed es1" "map_of es1 = (map_of es)(k \<mapsto> v)"
    using storeEntry_keyed [of es k h v] Cons.prems e by auto
  obtain es2 where "storeAll h new es1 = Inr es2" "keyed es2" "map_of es2 = map_of es1 ++ map_of (rev new)"
    using Cons.IH [OF es1(2)] Cons.prems by auto
  then show ?case using es1 e by (simp add: map_add_def fun_eq_iff split: option.splits)
qed auto

text \<open>
  C7: On simple keys the map intrinsics implement a finite function: \<open>put\<close> and \<open>delete\<close> answer
  a map without duplicate keys that stands for the updated function; \<open>get\<close> with and without a
  third argument, \<open>getWithDefault\<close> - what \<open>get(key, default)\<close> of the library calls - and \<open>has?\<close> read it.
\<close>

theorem map_refines_function:
  assumes "keyed es" "simpleKey k"
  shows "(\<exists>es'. map_put h [MapValue es, k, v] = Inr (MapValue es') \<and> keyed es' \<and>
             map_of es' = (map_of es)(k \<mapsto> v)) \<and>
    (\<exists>es'. map_delete h [MapValue es, k] = Inr (MapValue es') \<and> keyed es' \<and>
             map_of es' = (map_of es)(k := None)) \<and>
    map_get h [MapValue es, k] = Inr (case map_of es k of None \<Rightarrow> none | Some w \<Rightarrow> just w) \<and>
    map_get h [MapValue es, k, d] = Inr (case map_of es k of None \<Rightarrow> d | Some w \<Rightarrow> w) \<and>
    map_getWithDefault h [MapValue es, k, d] = Inr (case map_of es k of None \<Rightarrow> d | Some w \<Rightarrow> w) \<and>
    map_has h [MapValue es, k] = Inr (BoolValue (map_of es k \<noteq> None))"
  using ms.put_content [OF assms, of h v] ms.del_content [OF assms, of h] ms.get_content [OF assms, of h]
  by (auto simp: map_put_def map_delete_def map_get_def map_getWithDefault_def map_has_def entriesPut_def entriesDelete_def
      entriesGet_def split: option.split)

theorem map_refines_function_witness:
  "map_get noHost [MapValue [(IntValue 2, none), (IntValue 1, UnitValue)], IntValue 1] = Inr (just UnitValue) \<and>
   map_getWithDefault noHost [MapValue [(IntValue 2, none), (IntValue 1, UnitValue)], IntValue 1, none] = Inr UnitValue"
proof -
  have "keyed [(IntValue 2, none), (IntValue 1, UnitValue)]" "simpleKey (IntValue 1)" by simp_all
  from map_refines_function [OF this, of noHost none none] show ?thesis by simp
qed

text \<open>
  C26: \<open>merge\<close> stands for the override of one function by the other, and \<open>fromEntries\<close> keeps the
  last value given for a key, so a map built from a list holds no key twice.
\<close>

theorem merge_and_fromEntries:
  assumes "keyed es" "list_all (\<lambda>e. simpleKey (fst e)) new"
  shows "(\<exists>es'. map_merge h [MapValue es, MapValue new] = Inr (MapValue es') \<and> keyed es' \<and>
             map_of es' = map_of es ++ map_of (rev new)) \<and>
    (\<exists>es'. map_fromEntries h [ListValue (map (\<lambda>(k, v). TupleValue [k, v]) new)] = Inr (MapValue es') \<and>
             keyed es' \<and> map_of es' = map_of (rev new))"
proof -
  have "List.map_filter pairOf (map (\<lambda>(k, v). TupleValue [k, v]) new) = new"
    by (induction new) (auto simp: List.map_filter_simps)
  then show ?thesis
    using storeAll_keyed [OF assms, of h] storeAll_keyed [OF keyed_simps(1) assms(2), of h]
    by (auto simp: map_merge_def map_fromEntries_def)
qed

theorem merge_and_fromEntries_witness:
  "\<exists>es. map_fromEntries noHost [ListValue [TupleValue [AtomValue ''a'', IntValue 1],
      TupleValue [AtomValue ''a'', IntValue 2]]] = Inr (MapValue es) \<and> map_of es (AtomValue ''a'') = Some (IntValue 2)"
  using merge_and_fromEntries [of "[]" "[(AtomValue ''a'', IntValue 1), (AtomValue ''a'', IntValue 2)]" noHost]
  by auto


lemma keys_of_homogeneous:
  assumes "\<And>a b. mapKeyLess (f a) (f b) \<longleftrightarrow> g a < (g b :: 'b :: linorder)"
  shows "map_keys [MapValue (map (\<lambda>(a, v). (f a, v)) es)] = ListValue (map f (sort_key g (map fst es)))"
proof -
  have "map fst (sortedEntries (map (\<lambda>(a, v). (f a, v)) es)) =
      map f (map fst (stableSort (\<lambda>x y. g (fst x) < g (fst y)) es))"
    by (simp add: sortedEntries_def stableSort_map assms case_prod_beta comp_def)
  also have "\<dots> = map f (sort_key g (map fst es))"
    by (simp only: stableSort_map [of _ fst] stableSort_key [symmetric])
  finally show ?thesis by (simp add: map_keys_def)
qed

text \<open>
  \<open>keys\<close> lists the keys of a map in their canonical order, whatever order they were put
  in: integers by value, strings by their bytes, and keys that compare equal stay in the order
  of the entries.
\<close>

theorem keys_are_sorted:
  "map_keys [MapValue (map (\<lambda>(i, v). (IntValue i, v)) es)] = ListValue (map IntValue (sort_key sint (map fst es))) \<and>
   map_keys [MapValue (map (\<lambda>(s, v). (StringValue s, v)) fs)] = ListValue (map StringValue (sort (map fst fs)))"
  by (auto intro!: keys_of_homogeneous simp: mapKeyLess_def)

text \<open>
  Keys of different types are all incomparable, so the comparator handed to
  \<open>std::stable_sort\<close> is no strict weak order once a map mixes them.
\<close>

lemma mixed_keys_are_not_ordered:
  "\<not> mapKeyLess (IntValue 2) (StringValue ''a'') \<and> \<not> mapKeyLess (StringValue ''a'') (IntValue 2) \<and>
   \<not> mapKeyLess (StringValue ''a'') (IntValue 1) \<and> \<not> mapKeyLess (IntValue 1) (StringValue ''a'') \<and>
   mapKeyLess (IntValue 1) (IntValue 2)"
  by (simp add: mapKeyLess_def)

end
