(* ===== verification/ListOps.thy ===== *)
theory ListOps
  imports MapOps
begin

text \<open>
  The \<open>List\<close>, \<open>Range\<close> and \<open>Tuple\<close> intrinsics (\<open>src/interpreter/stdlib/list.cxx\<close>).  Most work
  on whatever \<open>getElements\<close> can list - a list, an integer or character range, the characters of
  a string - and call a native function once per element.
\<close>

section \<open>What the intrinsics rely on\<close>

text \<open>
  The lazy variants of \<open>map\<close> and \<open>filter\<close> for streams and feeds, the evaluator's call of a
  \<open>compare\<close> method by its qualified name, and the type a variant's constructor belongs to.
\<close>

record 's intrinsics = "'s callbacks" +
  mapStream :: "nat option \<Rightarrow> nat \<Rightarrow> ('s, val) eff"
  filterStream :: "nat option \<Rightarrow> nat \<Rightarrow> ('s, val) eff"
  mapFeed :: "nat option \<Rightarrow> nat \<Rightarrow> ('s, val) eff"
  filterFeed :: "nat option \<Rightarrow> nat \<Rightarrow> ('s, val) eff"
  userCompare :: "string \<Rightarrow> val list \<Rightarrow> ('s, val) eff"
  variantParent :: "string \<Rightarrow> string option"

section \<open>Elements\<close>

fun rangeToList :: "val \<Rightarrow> evalError + val list" where
  \<comment> \<open>the loop increments its 64-bit counter past the end, which overflows at the largest one\<close>
  "rangeToList (RangeValue start end isChar lower upper) =
     (if lower \<noteq> None \<or> upper \<noteq> None then Inl (RuntimeError ''This range cannot be enumerated'')
      else if sint start \<le> sint end \<and> sint end = 2 ^ 63 - 1 then Inl Trap
      else Inr (map (\<lambda>i. if isChar then CharValue (word_of_int i) else IntValue (word_of_int i))
                  [sint start..sint end]))"
| "rangeToList _ = Inr []"

fun getElements :: "val \<Rightarrow> ('s, val list) eff" where
  "getElements (ListValue vs) = return vs"
| "getElements (RangeValue start end isChar lower upper) = pure (rangeToList (RangeValue start end isChar lower upper))"
| "getElements (StringValue s) = return (map CharValue (decode s))"
| "getElements _ = return []"

definition repackChars :: "val list \<Rightarrow> val" where
  "repackChars vs =
     (if list_all (\<lambda>v. charOf v \<noteq> None) vs then StringValue (concat (map (encode \<circ> the \<circ> charOf) vs))
      else ListValue vs)"

definition isString :: "val \<Rightarrow> bool" where
  "isString v \<longleftrightarrow> stringText v \<noteq> None"

definition pack :: "val \<Rightarrow> val list \<Rightarrow> val" where
  \<comment> \<open>\<open>srcIsStr ? repackChars(result) : Value::list(result)\<close>\<close>
  "pack source vs = (if isString source then repackChars vs else ListValue vs)"

definition intValue :: "nat \<Rightarrow> val" where
  \<comment> \<open>\<open>Value::integer(static_cast<int64_t>(n))\<close> of a size\<close>
  "intValue n = IntValue (of_nat n)"

definition truth :: "('s, val) eff \<Rightarrow> ('s, bool) eff" where
  "truth m = and_then m isTrueM"

section \<open>Access\<close>

definition list_get :: "val list \<Rightarrow> ('s, val) eff" where
  "list_get args =
     (if length args < 2 then return none
      else let total = length args \<ge> 3; fallback = (if total then args ! 2 else none) in
        case intOf (args ! 1) of
          None \<Rightarrow> return fallback
        | Some i \<Rightarrow> if sint i < 0 then return fallback
            else and_then (getElements (args ! 0)) (\<lambda>es.
              if nat (sint i) \<ge> length es then return fallback
              else return (if total then es ! nat (sint i) else just (es ! nat (sint i)))))"

definition tuple_items :: "val list \<Rightarrow> val" where
  "tuple_items args =
     (if args = [] then emptyList else case args ! 0 of TupleValue vs \<Rightarrow> ListValue vs | _ \<Rightarrow> emptyList)"

definition list_push :: "val list \<Rightarrow> val" where
  "list_push args =
     (if length args < 2 then (if args = [] then emptyList else args ! 0)
      else case listOf (args ! 0) of Some vs \<Rightarrow> ListValue (vs @ [args ! 1]) | None \<Rightarrow> args ! 0)"

definition range_bounds :: "val list \<Rightarrow> evalError + val" where
  \<comment> \<open>\<open>args.at(0)\<close> and \<open>std::get\<close> throw on a missing argument and on another type\<close>
  "range_bounds args =
     (if args = [] then Inl (RuntimeError ''vector::at'')
      else case args ! 0 of
          RangeValue start end isChar lower upper \<Rightarrow>
            let bound = (\<lambda>b i. case b of Some v \<Rightarrow> v
                  | None \<Rightarrow> if isChar then CharValue (word_of_int (sint i)) else IntValue i)
            in Inr (TupleValue [bound lower start, bound upper end])
        | _ \<Rightarrow> Inl (RuntimeError ''bad_variant_access''))"

definition range_items :: "val list \<Rightarrow> evalError + val" where
  "range_items args =
     (if args = [] then Inr emptyList
      else case args ! 0 of
          RangeValue start end isChar lower upper \<Rightarrow>
            map_sum id ListValue (rangeToList (RangeValue start end isChar lower upper))
        | ListValue vs \<Rightarrow> Inr (ListValue vs)
        | _ \<Rightarrow> Inr emptyList)"

definition list_first :: "val list \<Rightarrow> val" where
  "list_first args =
     (if args = [] then none
      else case args ! 0 of
          StringValue s \<Rightarrow> if s = [] then none else just (CharValue (hd (decode s)))
        | ListValue vs \<Rightarrow> if vs = [] then none else just (hd vs)
        | RangeValue start _ _ _ _ \<Rightarrow> just (IntValue start)
        | _ \<Rightarrow> none)"

definition list_last :: "val list \<Rightarrow> val" where
  "list_last args =
     (if args = [] then none
      else case args ! 0 of
          StringValue s \<Rightarrow> if s = [] then none else just (CharValue (last (decode s)))
        | ListValue vs \<Rightarrow> if vs = [] then none else just (last vs)
        | RangeValue _ end _ _ _ \<Rightarrow> just (IntValue end)
        | _ \<Rightarrow> none)"

definition list_length :: "val list \<Rightarrow> val" where
  "list_length args =
     (if args = [] then IntValue 0
      else case args ! 0 of
          ListValue vs \<Rightarrow> intValue (length vs)
        | StringValue s \<Rightarrow> intValue (length (decode s))
        | MapValue es \<Rightarrow> intValue (length es)
        | _ \<Rightarrow> IntValue 0)"

section \<open>Loops that call a function\<close>

definition list_map :: "('s, 'a) intrinsics_scheme \<Rightarrow> val list \<Rightarrow> ('s, val) eff" where
  "list_map h args =
     (if length args < 2 then return emptyList
      else case args ! 0 of
          StreamValue cell \<Rightarrow> (case nativeOf (args ! 1) of None \<Rightarrow> return emptyList | Some fn \<Rightarrow> mapStream h cell fn)
        | FeedValue state \<Rightarrow> (case nativeOf (args ! 1) of None \<Rightarrow> return emptyList | Some fn \<Rightarrow> mapFeed h state fn)
        | source \<Rightarrow> and_then (getElements source) (\<lambda>es.
            case nativeOf (args ! 1) of
              None \<Rightarrow> return emptyList
            | Some fn \<Rightarrow> and_then (mapM (\<lambda>e. call h fn [e]) es) (\<lambda>r. return (pack source r))))"

definition list_filter :: "('s, 'a) intrinsics_scheme \<Rightarrow> val list \<Rightarrow> ('s, val) eff" where
  "list_filter h args =
     (if length args < 2 then return emptyList
      else case args ! 0 of
          StreamValue cell \<Rightarrow> (case nativeOf (args ! 1) of None \<Rightarrow> return emptyList | Some fn \<Rightarrow> filterStream h cell fn)
        | FeedValue state \<Rightarrow> (case nativeOf (args ! 1) of None \<Rightarrow> return emptyList | Some fn \<Rightarrow> filterFeed h state fn)
        | source \<Rightarrow> and_then (getElements source) (\<lambda>es.
            case nativeOf (args ! 1) of
              None \<Rightarrow> return emptyList
            | Some fn \<Rightarrow> and_then (filterM (\<lambda>e. truth (call h fn [e])) es) (\<lambda>r. return (pack source r))))"

definition list_reject :: "('s, 'a) intrinsics_scheme \<Rightarrow> val list \<Rightarrow> ('s, val) eff" where
  "list_reject h args =
     (if length args < 2 then return emptyList
      else and_then (getElements (args ! 0)) (\<lambda>es.
        case nativeOf (args ! 1) of
          None \<Rightarrow> return emptyList
        | Some fn \<Rightarrow> and_then (filterM (\<lambda>e. and_then (truth (call h fn [e])) (\<lambda>b. return (\<not> b))) es)
                     (\<lambda>r. return (pack (args ! 0) r))))"

definition list_foldLeft :: "('s, 'a) intrinsics_scheme \<Rightarrow> val list \<Rightarrow> ('s, val) eff" where
  "list_foldLeft h args =
     (if length args < 3 then return none
      else and_then (getElements (args ! 0)) (\<lambda>es.
        case nativeOf (args ! 2) of
          None \<Rightarrow> return (args ! 1)
        | Some fn \<Rightarrow> foldM (\<lambda>acc e. call h fn [acc, e]) (args ! 1) es))"

definition list_each :: "('s, 'a) intrinsics_scheme \<Rightarrow> val list \<Rightarrow> ('s, val) eff" where
  "list_each h args =
     (if length args < 2 then return none
      else case nativeOf (args ! 1) of
          None \<Rightarrow> return none
        | Some fn \<Rightarrow> (case args ! 0 of
            MapValue es \<Rightarrow> and_then (mapM (\<lambda>(k, v). call h fn [k, v]) es) (\<lambda>_. return none)
          | source \<Rightarrow> and_then (getElements source) (\<lambda>es.
              and_then (mapM (\<lambda>e. call h fn [e]) es) (\<lambda>_. return none))))"

definition list_find :: "('s, 'a) intrinsics_scheme \<Rightarrow> val list \<Rightarrow> ('s, val) eff" where
  "list_find h args =
     (if length args < 2 then return none
      else and_then (getElements (args ! 0)) (\<lambda>es.
        case nativeOf (args ! 1) of
          None \<Rightarrow> return none
        | Some fn \<Rightarrow> and_then (findM (\<lambda>e. truth (call h fn [e])) es)
                     (\<lambda>r. return (case r of None \<Rightarrow> none | Some e \<Rightarrow> just e))))"

definition list_any :: "('s, 'a) intrinsics_scheme \<Rightarrow> val list \<Rightarrow> ('s, val) eff" where
  "list_any h args =
     (if length args < 2 then return (BoolValue False)
      else and_then (getElements (args ! 0)) (\<lambda>es.
        case nativeOf (args ! 1) of
          None \<Rightarrow> return (BoolValue False)
        | Some fn \<Rightarrow> and_then (findM (\<lambda>e. truth (call h fn [e])) es) (\<lambda>r. return (BoolValue (r \<noteq> None)))))"

definition list_all_intrinsic :: "('s, 'a) intrinsics_scheme \<Rightarrow> val list \<Rightarrow> ('s, val) eff" where
  "list_all_intrinsic h args =
     (if length args < 2 then return (BoolValue True)
      else and_then (getElements (args ! 0)) (\<lambda>es.
        case nativeOf (args ! 1) of
          None \<Rightarrow> return (BoolValue True)
        | Some fn \<Rightarrow> and_then (findM (\<lambda>e. and_then (truth (call h fn [e])) (\<lambda>b. return (\<not> b))) es)
                     (\<lambda>r. return (BoolValue (r = None)))))"

definition list_count :: "('s, 'a) intrinsics_scheme \<Rightarrow> val list \<Rightarrow> ('s, val) eff" where
  "list_count h args =
     (if args = [] then return (IntValue 0)
      else case args ! 0 of
          StringValue s \<Rightarrow> return (intValue (length (decode s)))
        | MapValue es \<Rightarrow> return (intValue (length es))
        | RangeValue start end _ _ _ \<Rightarrow>
            if fits64 (sint end - sint start) \<and> fits64 (sint end - sint start + 1)
            then return (IntValue (end - start + 1)) else throw Trap
        | source \<Rightarrow> and_then (getElements source) (\<lambda>es.
            if length args < 2 then return (intValue (length es))
            else case nativeOf (args ! 1) of
                None \<Rightarrow> return (IntValue 0)
              | Some fn \<Rightarrow> and_then (filterM (\<lambda>e. truth (call h fn [e])) es) (\<lambda>r. return (intValue (length r)))))"

definition list_partition :: "('s, 'a) intrinsics_scheme \<Rightarrow> val list \<Rightarrow> ('s, val) eff" where
  "list_partition h args =
     (if length args < 2 then return (TupleValue [emptyList, emptyList])
      else and_then (getElements (args ! 0)) (\<lambda>es.
        case nativeOf (args ! 1) of
          None \<Rightarrow> return (TupleValue [emptyList, emptyList])
        | Some fn \<Rightarrow>
            and_then (foldM (\<lambda>(yes, no) e. and_then (truth (call h fn [e])) (\<lambda>b.
                return (if b then (yes @ [e], no) else (yes, no @ [e])))) ([], []) es)
              (\<lambda>(yes, no). return (TupleValue [pack (args ! 0) yes, pack (args ! 0) no]))))"

definition flattenOne :: "val \<Rightarrow> val list" where
  "flattenOne v = (case v of ListValue vs \<Rightarrow> vs | _ \<Rightarrow> [v])"

definition list_flatten :: "val list \<Rightarrow> val" where
  "list_flatten args =
     (if args = [] then emptyList
      else case listOf (args ! 0) of None \<Rightarrow> emptyList | Some vs \<Rightarrow> ListValue (concat (map flattenOne vs)))"

definition list_flatMap :: "('s, 'a) intrinsics_scheme \<Rightarrow> val list \<Rightarrow> ('s, val) eff" where
  "list_flatMap h args =
     (if length args < 2 then return emptyList
      else and_then (getElements (args ! 0)) (\<lambda>es.
        case nativeOf (args ! 1) of
          None \<Rightarrow> return emptyList
        | Some fn \<Rightarrow> and_then (mapM (\<lambda>e. call h fn [e]) es) (\<lambda>rs.
            return (ListValue (concat (map (\<lambda>r. case r of StringValue s \<Rightarrow> map CharValue (decode s)
                                             | _ \<Rightarrow> flattenOne r) rs))))))"


section \<open>Searching and slicing\<close>

fun memberIn :: "'a host_scheme \<Rightarrow> val list \<Rightarrow> val \<Rightarrow> fault + bool" where
  "memberIn h [] v = Inr False"
| "memberIn h (e # es) v = sum_bind (valuesEqual h e v) (\<lambda>b. if b then Inr True else memberIn h es v)"

definition list_member :: "('s, 'a) intrinsics_scheme \<Rightarrow> val list \<Rightarrow> ('s, val) eff" where
  "list_member h args =
     (if length args < 2 then return (BoolValue False)
      else and_then (getElements (args ! 1)) (\<lambda>es.
        and_then (guarded (memberIn h es (args ! 0))) (\<lambda>b. return (BoolValue b))))"

fun indexFrom :: "'a host_scheme \<Rightarrow> nat \<Rightarrow> val list \<Rightarrow> val \<Rightarrow> fault + nat option" where
  "indexFrom h i [] v = Inr None"
| "indexFrom h i (e # es) v =
     sum_bind (valuesEqual h e v) (\<lambda>b. if b then Inr (Some i) else indexFrom h (i + 1) es v)"

definition list_indexOf :: "('s, 'a) intrinsics_scheme \<Rightarrow> val list \<Rightarrow> ('s, val) eff" where
  "list_indexOf h args =
     (if length args < 2 then return none
      else and_then (getElements (args ! 0)) (\<lambda>es.
        and_then (guarded (indexFrom h 0 es (args ! 1))) (\<lambda>r.
          return (case r of None \<Rightarrow> none | Some i \<Rightarrow> just (intValue i)))))"

fun uniqLoop :: "'a host_scheme \<Rightarrow> val list \<Rightarrow> val list \<Rightarrow> fault + val list" where
  "uniqLoop h result [] = Inr result"
| "uniqLoop h result (e # es) =
     sum_bind (memberIn h result e) (\<lambda>found. uniqLoop h (if found then result else result @ [e]) es)"

definition list_uniq :: "('s, 'a) intrinsics_scheme \<Rightarrow> val list \<Rightarrow> ('s, val) eff" where
  "list_uniq h args =
     (if args = [] then return emptyList
      else and_then (getElements (args ! 0)) (\<lambda>es.
        and_then (guarded (uniqLoop h [] es)) (\<lambda>r. return (pack (args ! 0) r))))"

definition clamp :: "i64 \<Rightarrow> nat \<Rightarrow> nat" where
  \<comment> \<open>\<open>std::min(static_cast<size_t>(n), size)\<close>: a negative count becomes a huge one\<close>
  "clamp n limit = min (unat n) limit"

definition list_take :: "val list \<Rightarrow> val" where
  "list_take args =
     (if length args < 2 then emptyList
      else case intOf (args ! 1) of
          None \<Rightarrow> emptyList
        | Some n \<Rightarrow> (case args ! 0 of
            StringValue s \<Rightarrow> StringValue (encodeAll (take (clamp n (length (decode s))) (decode s)))
          | ListValue vs \<Rightarrow> ListValue (take (clamp n (length vs)) vs)
          | _ \<Rightarrow> emptyList))"

definition list_drop :: "val list \<Rightarrow> val" where
  "list_drop args =
     (if length args < 2 then emptyList
      else case intOf (args ! 1) of
          None \<Rightarrow> emptyList
        | Some n \<Rightarrow> (case args ! 0 of
            StringValue s \<Rightarrow> StringValue (encodeAll (drop (clamp n (length (decode s))) (decode s)))
          | ListValue vs \<Rightarrow> ListValue (drop (clamp n (length vs)) vs)
          | _ \<Rightarrow> emptyList))"

definition list_zip :: "val list \<Rightarrow> ('s, val) eff" where
  "list_zip args =
     (if length args < 2 then return emptyList
      else and_then (getElements (args ! 0)) (\<lambda>as. and_then (getElements (args ! 1)) (\<lambda>bs.
        return (ListValue (map (\<lambda>(a, b). TupleValue [a, b]) (zip as bs))))))"

definition list_join :: "('s, 'a) intrinsics_scheme \<Rightarrow> val list \<Rightarrow> ('s, val) eff" where
  "list_join h args =
     (if args = [] then return (StringValue [])
      else and_then (getElements (args ! 0)) (\<lambda>es.
        let sep = (if length args \<ge> 2 then (case stringText (args ! 1) of Some s \<Rightarrow> s | None \<Rightarrow> []) else [])
        in and_then (guarded (mapE (toString h) es)) (\<lambda>ts. return (StringValue (joinWith sep ts)))))"

definition inspected :: "('s, 'a) intrinsics_scheme \<Rightarrow> bool \<Rightarrow> val list \<Rightarrow> ('s, val) eff" where
  "inspected h colors args =
     (if args = [] then return (StringValue ''()'')
      else and_then (guarded (inspect h colors (args ! 0))) (\<lambda>t. return (StringValue t)))"

section \<open>Order\<close>

definition caught :: "('s, val) eff \<Rightarrow> ('s, string) eff" where
  \<comment> \<open>the tag of a variant result; any exception, and any other result, is the empty string\<close>
  "caught m s = (case m s of
      (Inr (VariantValue tag _ _ _ _), t) \<Rightarrow> (Inr tag, t)
    | (_, t) \<Rightarrow> (Inr [], t))"

definition dispatchCompare :: "('s, 'a) intrinsics_scheme \<Rightarrow> val \<Rightarrow> val \<Rightarrow> string \<Rightarrow> ('s, string) eff" where
  "dispatchCompare h a b name = caught (userCompare h (name @ ''::compare'') [a, b])"

definition ordering :: "bool \<Rightarrow> bool \<Rightarrow> string" where
  "ordering lt gt = (if lt then ''Less'' else if gt then ''Greater'' else ''Equal'')"

fun doubleOf :: "'a host_scheme \<Rightarrow> val \<Rightarrow> double option" where
  "doubleOf h (FloatValue x) = Some x"
| "doubleOf h v = map_option (get_d h) (asInteger v)"

definition compareVia :: "('s, 'a) intrinsics_scheme \<Rightarrow> val \<Rightarrow> val \<Rightarrow> ('s, string) eff" where
  "compareVia h a b =
     (case (intOf a, intOf b) of (Some i, Some j) \<Rightarrow> return (ordering (sint i < sint j) (sint i > sint j))
      | _ \<Rightarrow> (case (floatOf a, floatOf b) of (Some x, Some y) \<Rightarrow> return (ordering (fLess x y) (fLess y x))
      | _ \<Rightarrow> (case (asInteger a, asInteger b) of (Some m, Some n) \<Rightarrow> return (ordering (m < n) (m > n))
      | _ \<Rightarrow> (case (doubleOf h a, doubleOf h b) of (Some x, Some y) \<Rightarrow> return (ordering (fLess x y) (fLess y x))
      | _ \<Rightarrow> (case (stringText a, stringText b) of (Some s, Some t) \<Rightarrow> return (ordering (s < t) (s > t))
      | _ \<Rightarrow> (case (charOf a, charOf b) of (Some c, Some d) \<Rightarrow> return (ordering (c < d) (c > d))
      | _ \<Rightarrow>
         (case a of
            VariantValue tag _ _ _ _ \<Rightarrow>
              and_then (dispatchCompare h a b tag) (\<lambda>r.
                and_then (case (r = [], variantParent h tag) of
                     (True, Some parent) \<Rightarrow> dispatchCompare h a b parent | _ \<Rightarrow> return r) (\<lambda>r'.
                return (if r' = [] then ''Equal'' else r')))
          | RecordValue type _ \<Rightarrow>
              and_then (dispatchCompare h a b type) (\<lambda>r. return (if r = [] then ''Equal'' else r))
          | _ \<Rightarrow> return ''Equal'')))))))"

text \<open>
  A sort whose comparator has effects: the calls are made in the order of the insertions.
  \<open>std::stable_sort\<close> fixes the result for a comparator that is a strict weak order, not the
  order of the calls.
\<close>

primrec insertM :: "('a \<Rightarrow> 'a \<Rightarrow> ('s, bool) eff) \<Rightarrow> 'a \<Rightarrow> 'a list \<Rightarrow> ('s, 'a list) eff" where
  "insertM lt x [] = return [x]"
| "insertM lt x (y # ys) =
     and_then (lt y x) (\<lambda>b. if b then and_then (insertM lt x ys) (\<lambda>r. return (y # r)) else return (x # y # ys))"

primrec stableSortM :: "('a \<Rightarrow> 'a \<Rightarrow> ('s, bool) eff) \<Rightarrow> 'a list \<Rightarrow> ('s, 'a list) eff" where
  "stableSortM lt [] = return []"
| "stableSortM lt (x # xs) = and_then (stableSortM lt xs) (insertM lt x)"

definition list_sort :: "('s, 'a) intrinsics_scheme \<Rightarrow> val list \<Rightarrow> ('s, val) eff" where
  "list_sort h args =
     (if args = [] then return emptyList
      else and_then (getElements (args ! 0)) (\<lambda>es.
        if es = [] then return (if isString (args ! 0) then StringValue [] else emptyList)
        else case (if length args \<ge> 2 then nativeOf (args ! 1) else None) of
            Some fn \<Rightarrow> and_then (stableSortM (\<lambda>a b. truth (call h fn [a, b])) es) (\<lambda>r. return (ListValue r))
          | None \<Rightarrow>
              and_then (stableSortM (\<lambda>a b. and_then (compareVia h a b) (\<lambda>o'. return (o' = ''Less''))) es) (\<lambda>r.
                return (pack (args ! 0) r))))"

fun bestOf :: "('s, 'a) intrinsics_scheme \<Rightarrow> string \<Rightarrow> (val \<Rightarrow> ('s, val) eff) \<Rightarrow> val \<Rightarrow> val \<Rightarrow> val list \<Rightarrow> ('s, val) eff" where
  \<comment> \<open>the loop of \<open>min\<close>, \<open>max\<close>, \<open>minBy\<close> and \<open>maxBy\<close>: the key of each later element against the best key so far\<close>
  "bestOf h wins keyOf result bestKey [] = return result"
| "bestOf h wins keyOf result bestKey (e # es) =
     and_then (keyOf e) (\<lambda>k. and_then (compareVia h k bestKey) (\<lambda>o'.
       if o' = wins then bestOf h wins keyOf e k es else bestOf h wins keyOf result bestKey es))"

definition extreme :: "('s, 'a) intrinsics_scheme \<Rightarrow> string \<Rightarrow> val list \<Rightarrow> ('s, val) eff" where
  \<comment> \<open>\<open>min\<close> and \<open>max\<close>\<close>
  "extreme h wins args =
     (if args = [] then return none
      else and_then (getElements (args ! 0)) (\<lambda>es.
        case es of
          [] \<Rightarrow> return none
        | e # rest \<Rightarrow>
            (case (if length args \<ge> 2 then nativeOf (args ! 1) else None) of
               Some fn \<Rightarrow> and_then (call h fn [e]) (\<lambda>k.
                 and_then (bestOf h wins (\<lambda>x. call h fn [x]) e k rest) (\<lambda>r. return (just r)))
             | None \<Rightarrow> and_then (bestOf h wins return e e rest) (\<lambda>r. return (just r)))))"

definition extremeBy :: "('s, 'a) intrinsics_scheme \<Rightarrow> string \<Rightarrow> val list \<Rightarrow> ('s, val) eff" where
  \<comment> \<open>\<open>minBy\<close> and \<open>maxBy\<close>\<close>
  "extremeBy h wins args =
     (if length args < 2 then return none
      else and_then (getElements (args ! 0)) (\<lambda>es.
        case (es, nativeOf (args ! 1)) of
          (e # rest, Some fn) \<Rightarrow> and_then (call h fn [e]) (\<lambda>k.
            and_then (bestOf h wins (\<lambda>x. call h fn [x]) e k rest) (\<lambda>r. return (just r)))
        | _ \<Rightarrow> return none))"

section \<open>Sums\<close>

definition numericFold ::
  "'a machine_scheme \<Rightarrow> (int \<Rightarrow> int \<Rightarrow> int) \<Rightarrow> int \<Rightarrow> (double \<Rightarrow> double \<Rightarrow> double) \<Rightarrow> double \<Rightarrow> val list \<Rightarrow> val" where
  \<comment> \<open>in floats as soon as one element is a float; elements that are no numbers are passed over\<close>
  "numericFold m f i ff x es =
     (if list_ex (\<lambda>e. floatOf e \<noteq> None) es
      then FloatValue (foldl ff x (List.map_filter (doubleOf m) es))
      else integerResult (foldl f i (List.map_filter asInteger es)))"

definition mappedElements :: "('s, 'a) intrinsics_scheme \<Rightarrow> val list \<Rightarrow> val list \<Rightarrow> ('s, val list) eff" where
  "mappedElements h args es =
     (case (if length args \<ge> 2 then nativeOf (args ! 1) else None) of
        Some fn \<Rightarrow> mapM (\<lambda>e. call h fn [e]) es
      | None \<Rightarrow> return es)"

definition list_sum :: "('s, 'a) intrinsics_scheme \<Rightarrow> val list \<Rightarrow> ('s, val) eff" where
  "list_sum h args =
     (if args = [] then return (IntValue 0)
      else and_then (getElements (args ! 0)) (\<lambda>es. and_then (mappedElements h args es) (\<lambda>es'.
        return (numericFold h (+) 0 (fadd h) 0 es'))))"

definition list_product :: "('s, 'a) intrinsics_scheme \<Rightarrow> val list \<Rightarrow> ('s, val) eff" where
  \<comment> \<open>the bits of \<open>1.0\<close>\<close>
  "list_product h args =
     (if args = [] then return (IntValue 1)
      else and_then (getElements (args ! 0)) (\<lambda>es. and_then (mappedElements h args es) (\<lambda>es'.
        return (numericFold h (*) 1 (fmul h) 0x3FF0000000000000 es'))))"


section \<open>Laws\<close>

definition yields :: "('s, 'a) intrinsics_scheme \<Rightarrow> nat \<Rightarrow> (val \<Rightarrow> val) \<Rightarrow> bool" where
  \<comment> \<open>the native function at an address computes \<open>f\<close>, without effects\<close>
  "yields h fn f \<longleftrightarrow> (\<forall>v. call h fn [v] = return (f v))"

definition decides :: "('s, 'a) intrinsics_scheme \<Rightarrow> nat \<Rightarrow> (val \<Rightarrow> bool) \<Rightarrow> bool" where
  "decides h fn p \<longleftrightarrow> (\<forall>v. truth (call h fn [v]) = return (p v))"

lemma partition_fold:
  "foldM (\<lambda>(yes, no) e. return (if p e then (yes @ [e], no) else (yes, no @ [e]))) (ys, ns) es =
     return (ys @ filter p es, ns @ filter (\<lambda>e. \<not> p e) es)"
  by (induction es arbitrary: ys ns) auto

text \<open>
  C28: With a predicate that has no effects the intrinsics on a list are the list functions
  they are named after: \<open>filter\<close> and \<open>reject\<close> keep order and split the elements, \<open>partition\<close>
  answers both halves, \<open>find\<close> the first match, \<open>any?\<close>, \<open>all?\<close> and \<open>count\<close> agree with them.
\<close>

theorem list_predicates:
  assumes "decides h fn p" "nativeOf f = Some fn"
  shows "list_filter h [ListValue vs, f] = return (ListValue (filter p vs)) \<and>
    list_reject h [ListValue vs, f] = return (ListValue (filter (\<lambda>v. \<not> p v) vs)) \<and>
    list_partition h [ListValue vs, f] =
      return (TupleValue [ListValue (filter p vs), ListValue (filter (\<lambda>v. \<not> p v) vs)]) \<and>
    list_find h [ListValue vs, f] = return (case filter p vs of [] \<Rightarrow> none | v # _ \<Rightarrow> just v) \<and>
    list_any h [ListValue vs, f] = return (BoolValue (list_ex p vs)) \<and>
    list_all_intrinsic h [ListValue vs, f] = return (BoolValue (list_all p vs)) \<and>
    list_count h [ListValue vs, f] = return (intValue (length (filter p vs)))"
proof -
  have d: "truth (call h fn [v]) = return (p v)" for v
    using assms(1) by (simp add: decides_def)
  have s: "pack (ListValue vs) r = ListValue r" for r by (simp add: pack_def isString_def)
  have f: "List.find q vs = (case filter q vs of [] \<Rightarrow> None | v # _ \<Rightarrow> Some v)" for q
    by (induction vs) auto
  have n: "list_ex p vs \<longleftrightarrow> filter p vs \<noteq> []" "list_all p vs \<longleftrightarrow> filter (\<lambda>v. \<not> p v) vs = []"
    by (auto simp: list_ex_iff list_all_iff filter_empty_conv)
  show ?thesis
    using assms(2)
    by (simp add: list_filter_def list_reject_def list_partition_def list_find_def list_any_def list_count_def
        list_all_intrinsic_def d s n f filterM_return [of _ _ p] filterM_return [of _ _ "\<lambda>v. \<not> p v"]
        findM_return [of _ _ p] findM_return [of _ _ "\<lambda>v. \<not> p v"] partition_fold split: list.split)
qed

definition demo :: "(nat \<Rightarrow> val list \<Rightarrow> ('s, val) eff) \<Rightarrow> 's intrinsics" where
  \<comment> \<open>the intrinsics over one native function, the rest of the evaluator empty\<close>
  "demo c = \<lparr>to_chars = (\<lambda>_. []), get_d = (\<lambda>_. 0), spent = (\<lambda>_. False), of_int64 = id,
     fadd = (+), fsub = (-), fmul = (*), fdiv = (\<lambda>x _. x), fpow = (\<lambda>x _. x), call = c,
     mapStream = (\<lambda>_ _. return none), filterStream = (\<lambda>_ _. return none), mapFeed = (\<lambda>_ _. return none),
     filterFeed = (\<lambda>_ _. return none), userCompare = (\<lambda>_ _. return none), variantParent = (\<lambda>_. None)\<rparr>"

lemma call_demo [simp]: "call (demo c) = c"
  by (simp add: demo_def)

definition isAtom_call :: "nat \<Rightarrow> val list \<Rightarrow> (val list, val) eff" where
  \<comment> \<open>a predicate that records what it was asked\<close>
  "isAtom_call fn args s = (Inr (BoolValue (\<exists>x. hd args = AtomValue x)), s @ args)"

theorem list_predicates_witness:
  "list_find (demo (\<lambda>_ vs. return (BoolValue (hd vs = IntValue 2)))) [ListValue [IntValue 1, IntValue 2], FunctionValue [] (Some 0) 1 None]
     () = (Inr (just (IntValue 2)), ())"
proof -
  let ?c = "\<lambda>_ vs. return (BoolValue (hd vs = IntValue 2)) :: (unit, val) eff"
  have d: "decides (demo ?c) 0 (\<lambda>v. v = IntValue 2)"
    by (simp add: decides_def truth_def isTrueM_def)
  show ?thesis
    using list_predicates [OF d, of "FunctionValue [] (Some 0) 1 None" "[IntValue 1, IntValue 2]"]
    by (simp add: return_def)
qed

section \<open>Order of calls\<close>

definition records :: "(val list, 'a) intrinsics_scheme \<Rightarrow> nat \<Rightarrow> (val \<Rightarrow> bool) \<Rightarrow> bool" where
  \<comment> \<open>the native function decides \<open>p\<close> and appends every value it is asked about to the state\<close>
  "records h fn p \<longleftrightarrow> (\<forall>v s. truth (call h fn [v]) s = (Inr (p v), s @ [v]))"

definition upToFirst :: "(val \<Rightarrow> bool) \<Rightarrow> val list \<Rightarrow> val list" where
  "upToFirst p vs = takeWhile (\<lambda>v. \<not> p v) vs @ take 1 (dropWhile (\<lambda>v. \<not> p v) vs)"

lemma findM_records:
  "(\<And>v s. q v s = (Inr (p v), s @ [v])) \<Longrightarrow> findM q vs s = (Inr (List.find p vs), s @ upToFirst p vs)"
  by (induction vs arbitrary: s) (auto simp: and_then_def upToFirst_def return_def)

lemma filterM_records:
  "(\<And>v s. q v s = (Inr (p v), s @ [v])) \<Longrightarrow> filterM q vs s = (Inr (filter p vs), s @ vs)"
  by (induction vs arbitrary: s) (auto simp: and_then_def return_def)

text \<open>
  C29: Which calls are made: \<open>filter\<close> asks its predicate once about each element in order, while
  \<open>find\<close> and \<open>any?\<close> ask up to the first match and \<open>all?\<close> up to the first failure.
\<close>

theorem predicate_calls:
  assumes "records h fn p" "nativeOf f = Some fn"
  shows "snd (list_filter h [ListValue vs, f] s) = s @ vs \<and>
    snd (list_find h [ListValue vs, f] s) = s @ upToFirst p vs \<and>
    snd (list_any h [ListValue vs, f] s) = s @ upToFirst p vs \<and>
    snd (list_all_intrinsic h [ListValue vs, f] s) = s @ upToFirst (\<lambda>v. \<not> p v) vs"
proof -
  have r: "truth (call h fn [v]) t = (Inr (p v), t @ [v])" for v t
    using assms(1) by (simp add: records_def)
  have n: "and_then (truth (call h fn [v])) (\<lambda>b. return (\<not> b)) t = (Inr (\<not> p v), t @ [v])" for v t
    by (simp add: and_then_def r return_def)
  show ?thesis
    using assms(2)
    by (simp add: list_filter_def list_find_def list_any_def list_all_intrinsic_def and_then_def [of "findM _ _"]
        and_then_def [of "filterM _ _"] findM_records [of _ p, OF r] findM_records [of _ "\<lambda>v. \<not> p v", OF n]
        filterM_records [of _ p, OF r] return_def)
qed

theorem predicate_calls_witness:
  "snd (list_any (demo isAtom_call) [ListValue [IntValue 1, AtomValue ''a'', IntValue 2], FunctionValue [] (Some 0) 1 None] []) =
     [IntValue 1, AtomValue ''a'']"
proof -
  have d: "records (demo isAtom_call) 0 (\<lambda>v. \<exists>x. v = AtomValue x)"
    by (simp add: records_def truth_def isTrueM_def isAtom_call_def and_then_def return_def)
  show ?thesis
    using predicate_calls [OF d, of "FunctionValue [] (Some 0) 1 None" "[IntValue 1, AtomValue ''a'', IntValue 2]" "[]"]
    by (simp add: upToFirst_def)
qed

section \<open>Sorting\<close>

lemma stableSortM_return:
  assumes "\<And>a b. a \<in> set xs \<Longrightarrow> b \<in> set xs \<Longrightarrow> lt a b = return (l a b)"
  shows "stableSortM lt xs = return (stableSort l xs)"
proof -
  have i: "insertM lt x ys = return (insertBy l x ys)"
    if "\<And>y. y \<in> set ys \<Longrightarrow> lt y x = return (l y x)" for x ys
    using that by (induction ys) auto
  show ?thesis
    using assms
  proof (induction xs)
    case (Cons x xs)
    have "stableSortM lt xs = return (stableSort l xs)" using Cons by simp
    then show ?case using i [of "stableSort l xs" x] Cons.prems by (simp add: stableSort_def [of l "x # xs"] stableSort_def [symmetric])
  qed (simp add: stableSort_def)
qed

lemma stableSort_cong:
  assumes "\<And>a b. a \<in> set xs \<Longrightarrow> b \<in> set xs \<Longrightarrow> l a b = l' a b"
  shows "stableSort l xs = stableSort l' xs"
  using assms
proof (induction xs)
  case (Cons x xs)
  have i: "insertBy l x ys = insertBy l' x ys" if "\<And>y. y \<in> set ys \<Longrightarrow> l y x = l' y x" for ys
    using that by (induction ys) auto
  have "stableSort l xs = stableSort l' xs" using Cons by simp
  then show ?case
    using i [of "stableSort l' xs"] Cons.prems
    by (simp add: stableSort_def [of _ "x # xs"] stableSort_def [symmetric])
qed (simp add: stableSort_def)

lemma compareVia_integers:
  assumes "asInteger a = Some m" "asInteger b = Some n"
  shows "compareVia h a b = return (ordering (m < n) (m > n))"
  using assms by (auto simp: compareVia_def asInteger_shape)

text \<open>
  C27: \<open>sort\<close> without a comparator puts integers in ascending order and keeps equal ones in the
  order they had, in whichever representation they are held.
\<close>

theorem sort_integers:
  assumes "list_all (\<lambda>v. asInteger v \<noteq> None) vs"
  shows "list_sort h [ListValue vs] = return (ListValue (sort_key (\<lambda>v. the (asInteger v)) vs))"
proof (cases "vs = []")
  case False
  let ?k = "\<lambda>v. the (asInteger v)"
  have "and_then (compareVia h a b) (\<lambda>o'. return (o' = ''Less'')) = return (?k a < ?k b)"
    if ab: "a \<in> set vs" "b \<in> set vs" for a b
  proof -
    obtain m n where "asInteger a = Some m" "asInteger b = Some n"
      using assms ab by (force simp: list_all_iff)
    then show ?thesis by (simp add: compareVia_integers ordering_def)
  qed
  then have "stableSortM (\<lambda>a b. and_then (compareVia h a b) (\<lambda>o'. return (o' = ''Less''))) vs =
      return (sort_key ?k vs)"
    by (subst stableSortM_return [where l = "\<lambda>a b. ?k a < ?k b"]) (simp_all add: stableSort_key)
  then show ?thesis using False by (simp add: list_sort_def pack_def isString_def)
qed (simp add: list_sort_def isString_def emptyList_def)

theorem sort_integers_witness:
  "list_sort (demo isAtom_call) [ListValue [BigIntValue (2 ^ 70), IntValue 2, IntValue 1]] =
     return (ListValue [IntValue 1, IntValue 2, BigIntValue (2 ^ 70)])"
  using sort_integers [of "[BigIntValue (2 ^ 70), IntValue 2, IntValue 1]" "demo isAtom_call"] by simp

text \<open>
  Three corners: a string sorted with a comparator comes back as a list of its characters,
  where every other operation on a string answers a string; the count of a range whose lower
  bound is the greater one is negative, though it lists no element; and a float sum is not
  checked the way the \<open>+\<close> operator's result is.
\<close>

lemma sort_with_comparator_leaves_string:
  assumes "decode s \<noteq> []" "nativeOf f = Some fn"
    and "\<And>a b. truth (call h fn [a, b]) = return (p a b)"
  shows "\<exists>vs. list_sort h [StringValue s, f] = return (ListValue vs)"
  using assms stableSortM_return [of "map CharValue (decode s)" "\<lambda>a b. truth (call h fn [a, b])" p]
  by (auto simp: list_sort_def)

lemma reversed_range_count:
  "list_count h [RangeValue 5 1 False None None] = return (IntValue (- 3))"
  "range_items [RangeValue 5 1 False None None] = Inr (ListValue [])"
  by (simp_all add: list_count_def range_items_def fits64_def)

lemma largest_range_overflows:
  "range_items [RangeValue 0x7FFFFFFFFFFFFFFE 0x7FFFFFFFFFFFFFFF False None None] = Inl Trap"
  by (simp add: range_items_def)

lemma sum_is_not_checked:
  assumes "fadd h (fadd h 0 x) y = 0x7FF0000000000000" "fadd h x y = 0x7FF0000000000000"
  shows "list_sum h [ListValue [FloatValue x, FloatValue y]] = return (FloatValue 0x7FF0000000000000)"
    and "primitiveBinaryOp h T_Plus (FloatValue x) (FloatValue y) =
      Inl (RuntimeError ''Float addition: result overflowed (Infinity)'')"
  using assms
  by (simp_all add: list_sum_def mappedElements_def numericFold_def List.map_filter_simps primitiveBinaryOp_def
      arithmeticOp_def mixedFloats_def floatOp_def nonFiniteFloatError_def isNan_def isInf_def magnitude_def signbit_def)

section \<open>Duplicates\<close>

lemma memberIn_simple:
  "list_all simpleKey vs \<Longrightarrow> simpleKey v \<Longrightarrow> memberIn h vs v = Inr (v \<in> set vs)"
  by (induction vs) (auto simp: simple_equal)

fun keepFirst :: "val list \<Rightarrow> val list \<Rightarrow> val list" where
  \<comment> \<open>the elements not seen before, in order\<close>
  "keepFirst seen [] = seen"
| "keepFirst seen (v # vs) = keepFirst (if v \<in> set seen then seen else seen @ [v]) vs"

lemma uniqLoop_simple:
  "list_all simpleKey seen \<Longrightarrow> list_all simpleKey vs \<Longrightarrow> uniqLoop h seen vs = Inr (keepFirst seen vs)"
  by (induction vs arbitrary: seen) (simp_all add: memberIn_simple)

lemma keepFirst_spec:
  "distinct seen \<Longrightarrow> distinct (keepFirst seen vs) \<and> set (keepFirst seen vs) = set seen \<union> set vs"
proof (induction vs arbitrary: seen)
  case (Cons v vs)
  then show ?case using Cons.IH [of "if v \<in> set seen then seen else seen @ [v]"] by auto
qed auto

text \<open>
  C30: On values whose equality is identity \<open>uniq\<close> keeps exactly the distinct elements,
  \<open>contains?\<close> is membership and \<open>indexOf\<close> the first position.
\<close>

theorem uniq_member_index:
  assumes "list_all simpleKey vs" "simpleKey v"
  shows "\<exists>us. list_uniq h [ListValue vs] = return (ListValue us) \<and> distinct us \<and> set us = set vs \<and>
    list_member h [v, ListValue vs] = return (BoolValue (v \<in> set vs)) \<and>
    list_indexOf h [ListValue vs, v] =
      return (if v \<in> set vs then just (intValue (length (takeWhile (\<lambda>w. w \<noteq> v) vs))) else none)"
proof -
  have i: "indexFrom h k vs v = Inr (if v \<in> set vs then Some (k + length (takeWhile (\<lambda>w. w \<noteq> v) vs)) else None)" for k
    using assms by (induction vs arbitrary: k) (auto simp: simple_equal)
  show ?thesis
    using keepFirst_spec [of "[]" vs] i [of 0] assms
    by (auto simp: list_uniq_def list_member_def list_indexOf_def uniqLoop_simple memberIn_simple pack_def isString_def)
qed

theorem uniq_member_index_witness:
  "list_indexOf (demo isAtom_call) [ListValue [AtomValue ''a'', StringValue ''a'', IntValue 1], StringValue ''a''] =
     return (just (IntValue 1))"
  using uniq_member_index [of "[AtomValue ''a'', StringValue ''a'', IntValue 1]" "StringValue ''a''" "demo isAtom_call"]
  by (auto simp: intValue_def)

end
