(* ===== verification/Scheduler.thy ===== *)
theory Scheduler
  imports Operators
begin

text \<open>
  The cooperative process scheduler (\<open>src/interpreter/scheduler.cxx\<close>): the process table, the
  ready queue, the timeouts, mailboxes with selective receive, links and names, and the loop
  that drives the processes until one of them finishes.

  A fiber is the code a process runs between two yields.  Here a process records what its
  fiber does next - user code, or an iteration of a wait loop - and the fiber's local
  variables that live across a yield; what user code decides to do is the choice of the next
  \<open>event\<close>.  The process identifiers, wait generations and call references are 64-bit counters
  that are only ever incremented and are modelled as naturals.
\<close>

section \<open>State\<close>

type_synonym pid = nat
type_synonym time = int

text \<open>
  The locals of a wait loop (\<open>blockingReceive\<close>, \<open>callServer\<close>, \<open>awaitTaskMessage\<close>): which
  messages it takes, what it returns of the message it has taken, its deadline, the generation of
  this wait and whether the deadline has been put into the table of timeouts.
\<close>

record wait =
  w_accepts :: "val \<Rightarrow> bool"
  w_answer :: "val \<Rightarrow> val"
  w_deadline :: "time option"
  w_generation :: nat
  w_registered :: bool

datatype activity =
    Running
  | Waiting wait
  | Sleeping
  | Serving val

text \<open>
  The evaluator's context that \<open>resumeProcess\<close> swaps: the scope cursor, the capability
  substitutions and the caller a server method is answering.
\<close>

record Context =
  c_env :: nat
  c_capabilities :: "(string \<times> val) list"
  c_servingFrom :: "val option"

record Process =
  p_mailbox :: "val list"
  p_finished :: bool
  p_exitValue :: "val option"
  p_error :: "evalError option"
  p_links :: "pid list"
  p_saved :: Context
  p_blockedOnReceive :: bool
  p_reductions :: nat
  p_waitGeneration :: nat
  p_wokeByTimeout :: bool
  p_activity :: activity
  p_spawner :: "pid option"

text \<open>
  \<open>s_frame\<close> is the C++ frame of \<open>resumeProcess\<close> while a fiber runs: the process it resumed and
  the locals it restores afterwards.
\<close>

record frame =
  f_pid :: pid
  f_prevCurrent :: pid
  f_capabilities :: "(string \<times> val) list"
  f_servingFrom :: "val option"

record Scheduler =
  s_nextId :: pid
  s_processes :: "pid \<Rightarrow> Process option"
  s_names :: "string \<Rightarrow> pid option"
  s_ready :: "pid list"
  s_current :: pid
  s_nextServerCall :: nat
  s_timeouts :: "(time \<times> pid \<times> nat) list"
  s_context :: Context
  s_frame :: "frame option"

definition make_scheduler :: "Context \<Rightarrow> Scheduler" where
  "make_scheduler c = \<lparr>s_nextId = 0, s_processes = (\<lambda>_. None), s_names = (\<lambda>_. None), s_ready = [],
     s_current = 0, s_nextServerCall = 1, s_timeouts = [], s_context = c, s_frame = None\<rparr>"

definition kReductionBudget :: nat where
  "kReductionBudget = 2000"

definition update_process :: "pid \<Rightarrow> (Process \<Rightarrow> Process) \<Rightarrow> Scheduler \<Rightarrow> Scheduler" where
  \<comment> \<open>an assignment through the reference \<open>proc\<close>\<close>
  "update_process p f s = s\<lparr>s_processes := (s_processes s)(p := map_option f (s_processes s p))\<rparr>"

definition push_ready :: "pid \<Rightarrow> Scheduler \<Rightarrow> Scheduler" where
  "push_ready p s = s\<lparr>s_ready := s_ready s @ [p]\<rparr>"

section \<open>Creating, finding and naming processes\<close>

definition fresh_process :: "Context \<Rightarrow> activity \<Rightarrow> Process" where
  "fresh_process c a = \<lparr>p_mailbox = [], p_finished = False, p_exitValue = None, p_error = None, p_links = [],
     p_saved = c, p_blockedOnReceive = False, p_reductions = 0, p_waitGeneration = 0,
     p_wokeByTimeout = False, p_activity = a, p_spawner = None\<rparr>"

definition add_process :: "Context \<Rightarrow> activity \<Rightarrow> Scheduler \<Rightarrow> pid \<times> Scheduler" where
  "add_process c a s =
     (s_nextId s,
      push_ready (s_nextId s)
        (s\<lparr>s_nextId := s_nextId s + 1,
           s_processes := (s_processes s)(s_nextId s \<mapsto> fresh_process c a)\<rparr>))"

definition spawn :: "nat \<Rightarrow> Scheduler \<Rightarrow> pid \<times> Scheduler" where
  \<comment> \<open>a fresh child scope and the spawner's capabilities; \<open>savedServingFrom\<close> starts null\<close>
  "spawn env s = add_process \<lparr>c_env = env, c_capabilities = c_capabilities (s_context s), c_servingFrom = None\<rparr> Running s"

definition startServer :: "nat \<Rightarrow> val \<Rightarrow> Scheduler \<Rightarrow> pid \<times> Scheduler" where
  "startServer env state s =
     add_process \<lparr>c_env = env, c_capabilities = c_capabilities (s_context s), c_servingFrom = None\<rparr> (Serving state) s"

definition startRoot :: "nat \<Rightarrow> Scheduler \<Rightarrow> pid \<times> Scheduler" where
  \<comment> \<open>the process \<open>runToCompletion\<close> creates: the given scope itself, no capabilities\<close>
  "startRoot env s = add_process \<lparr>c_env = env, c_capabilities = [], c_servingFrom = None\<rparr> Running s"

definition isAlive :: "Scheduler \<Rightarrow> pid \<Rightarrow> bool" where
  "isAlive s p = (case s_processes s p of None \<Rightarrow> False | Some proc \<Rightarrow> \<not> p_finished proc)"

definition registerName :: "string \<Rightarrow> pid \<Rightarrow> Scheduler \<Rightarrow> Scheduler" where
  "registerName name p s = s\<lparr>s_names := (s_names s)(name \<mapsto> p)\<rparr>"

definition whereIs :: "Scheduler \<Rightarrow> string \<Rightarrow> pid option" where
  "whereIs s name =
     (case s_names s name of None \<Rightarrow> None | Some p \<Rightarrow> if isAlive s p then Some p else None)"

definition link :: "pid \<Rightarrow> Scheduler \<Rightarrow> Scheduler" where
  "link other s =
     (if s_processes s (s_current s) = None \<or> s_processes s other = None then s
      else update_process other (\<lambda>b. b\<lparr>p_links := p_links b @ [s_current s]\<rparr>)
             (update_process (s_current s) (\<lambda>a. a\<lparr>p_links := p_links a @ [other]\<rparr>) s))"

definition unlink :: "pid \<Rightarrow> Scheduler \<Rightarrow> Scheduler" where
  "unlink other s =
     update_process other (\<lambda>b. b\<lparr>p_links := removeAll (s_current s) (p_links b)\<rparr>)
       (update_process (s_current s) (\<lambda>a. a\<lparr>p_links := removeAll other (p_links a)\<rparr>) s)"

section \<open>Messages and timeouts\<close>

definition send :: "pid \<Rightarrow> val \<Rightarrow> Scheduler \<Rightarrow> bool \<times> Scheduler" where
  "send target payload s =
     (case s_processes s target of
        None \<Rightarrow> (False, s)
      | Some proc \<Rightarrow>
          if p_finished proc then (False, s)
          else let s1 = update_process target (\<lambda>p. p\<lparr>p_mailbox := p_mailbox p @ [payload]\<rparr>) s in
            if p_blockedOnReceive proc
            then (True, push_ready target (update_process target (\<lambda>p. p\<lparr>p_blockedOnReceive := False\<rparr>) s1))
            else (True, s1))"

fun insertTimeout :: "time \<Rightarrow> pid \<times> nat \<Rightarrow> (time \<times> pid \<times> nat) list \<Rightarrow> (time \<times> pid \<times> nat) list" where
  \<comment> \<open>\<open>multimap::emplace\<close>: after the entries with the same deadline\<close>
  "insertTimeout d e [] = [(d, e)]"
| "insertTimeout d e ((d', e') # ts) = (if d < d' then (d, e) # (d', e') # ts else (d', e') # insertTimeout d e ts)"

definition fireTimeout :: "pid \<Rightarrow> nat \<Rightarrow> Scheduler \<Rightarrow> Scheduler" where
  \<comment> \<open>the body of the loop of \<open>fireExpiredTimeouts\<close>, after the entry has been erased\<close>
  "fireTimeout p g s =
     (case s_processes s p of
        None \<Rightarrow> s
      | Some proc \<Rightarrow>
          if p_finished proc \<or> \<not> p_blockedOnReceive proc \<or> p_waitGeneration proc \<noteq> g then s
          else push_ready p (update_process p (\<lambda>q. q\<lparr>p_blockedOnReceive := False, p_wokeByTimeout := True\<rparr>) s))"

function fireExpiredTimeouts :: "time \<Rightarrow> Scheduler \<Rightarrow> Scheduler" where
  "fireExpiredTimeouts now s =
     (case s_timeouts s of
        [] \<Rightarrow> s
      | (d, p, g) # ts \<Rightarrow>
          if d \<le> now then fireExpiredTimeouts now (fireTimeout p g (s\<lparr>s_timeouts := ts\<rparr>)) else s)"
  by pat_completeness auto
termination
  by (relation "measure (\<lambda>(now, s). length (s_timeouts s))")
     (auto simp: fireTimeout_def push_ready_def update_process_def split: option.splits)

declare fireExpiredTimeouts.simps [simp del]

section \<open>Waiting\<close>

fun takeFirst :: "('a \<Rightarrow> bool) \<Rightarrow> 'a list \<Rightarrow> ('a \<times> 'a list) option" where
  \<comment> \<open>the scan of the mailbox in arrival order, and the mailbox without the message it takes\<close>
  "takeFirst p [] = None"
| "takeFirst p (x # xs) = (if p x then Some (x, xs) else map_option (\<lambda>(y, ys). (y, x # ys)) (takeFirst p xs))"

text \<open>
  \<open>suspend\<close> is \<open>Fiber::yieldToScheduler\<close> seen from \<open>resumeProcess\<close>: what it does after the
  fiber has switched back.
\<close>

definition suspend :: "Scheduler \<Rightarrow> Scheduler" where
  "suspend s =
     (case s_frame s of
        None \<Rightarrow> s
      | Some f \<Rightarrow>
          (update_process (f_pid f) (\<lambda>p. p\<lparr>p_saved := s_context s\<rparr>) s)
            \<lparr>s_context := (s_context s)\<lparr>c_capabilities := f_capabilities f, c_servingFrom := f_servingFrom f\<rparr>,
             s_current := f_prevCurrent f, s_frame := None\<rparr>)"

definition resume :: "pid \<Rightarrow> Scheduler \<Rightarrow> Scheduler" where
  \<comment> \<open>\<open>resumeProcess\<close> up to \<open>proc.fiber->resume()\<close>\<close>
  "resume p s =
     (case s_processes s p of
        None \<Rightarrow> s
      | Some proc \<Rightarrow>
          if p_finished proc then s
          else s\<lparr>s_frame := Some \<lparr>f_pid = p, f_prevCurrent = s_current s,
                                  f_capabilities = c_capabilities (s_context s),
                                  f_servingFrom = c_servingFrom (s_context s)\<rparr>,
                 s_current := p, s_context := p_saved proc\<rparr>)"

datatype outcome =
    Received val
  | TimedOut
  | Suspended

definition waitLoop :: "wait \<Rightarrow> Scheduler \<Rightarrow> outcome \<times> Scheduler" where
  \<comment> \<open>one iteration of the \<open>while (true)\<close> up to the yield\<close>
  "waitLoop w s =
     (let me = s_current s in
      case s_processes s me of
        None \<Rightarrow> (TimedOut, s)
      | Some proc \<Rightarrow>
          (case takeFirst (w_accepts w) (p_mailbox proc) of
             Some (m, rest) \<Rightarrow>
               (Received (w_answer w m), update_process me (\<lambda>p. p\<lparr>p_mailbox := rest, p_activity := Running\<rparr>) s)
           | None \<Rightarrow>
               let s1 = (case w_deadline w of
                     Some d \<Rightarrow> if w_registered w then s
                               else s\<lparr>s_timeouts := insertTimeout d (me, w_generation w) (s_timeouts s)\<rparr>
                   | None \<Rightarrow> s);
                   w1 = (if w_deadline w \<noteq> None then w\<lparr>w_registered := True\<rparr> else w)
               in (Suspended, suspend (update_process me
                    (\<lambda>p. p\<lparr>p_blockedOnReceive := True, p_wokeByTimeout := False, p_activity := Waiting w1\<rparr>) s1))))"

definition beginWaitFor :: "(val \<Rightarrow> val) \<Rightarrow> (val \<Rightarrow> bool) \<Rightarrow> time option \<Rightarrow> Scheduler \<Rightarrow> outcome \<times> Scheduler" where
  \<comment> \<open>a new generation, and the first iteration of the loop\<close>
  "beginWaitFor answer accepts deadline s =
     (case s_processes s (s_current s) of
        None \<Rightarrow> (TimedOut, s)
      | Some proc \<Rightarrow>
          waitLoop \<lparr>w_accepts = accepts, w_answer = answer, w_deadline = deadline, w_generation = p_waitGeneration proc + 1,
                    w_registered = False\<rparr>
            (update_process (s_current s) (\<lambda>p. p\<lparr>p_waitGeneration := p_waitGeneration p + 1\<rparr>) s))"

definition beginWait :: "(val \<Rightarrow> bool) \<Rightarrow> time option \<Rightarrow> Scheduler \<Rightarrow> outcome \<times> Scheduler" where
  \<comment> \<open>a receive, which hands the whole message to the clause that takes it\<close>
  "beginWait accepts deadline s = beginWaitFor (\<lambda>m. m) accepts deadline s"

definition sleepFor :: "time \<Rightarrow> Scheduler \<Rightarrow> Scheduler" where
  "sleepFor deadline s =
     (case s_processes s (s_current s) of
        None \<Rightarrow> s
      | Some proc \<Rightarrow>
          suspend (update_process (s_current s)
            (\<lambda>p. p\<lparr>p_waitGeneration := p_waitGeneration p + 1, p_blockedOnReceive := True,
                  p_wokeByTimeout := False, p_activity := Sleeping\<rparr>)
            (s\<lparr>s_timeouts := insertTimeout deadline (s_current s, p_waitGeneration proc + 1) (s_timeouts s)\<rparr>)))"

definition tickReduction :: "Scheduler \<Rightarrow> Scheduler" where
  "tickReduction s =
     (case s_processes s (s_current s) of
        None \<Rightarrow> s
      | Some proc \<Rightarrow>
          if p_reductions proc + 1 < kReductionBudget
          then update_process (s_current s) (\<lambda>p. p\<lparr>p_reductions := p_reductions p + 1\<rparr>) s
          else suspend (push_ready (s_current s) (update_process (s_current s) (\<lambda>p. p\<lparr>p_reductions := 0\<rparr>) s)))"

definition finish :: "val option \<Rightarrow> evalError option \<Rightarrow> Scheduler \<Rightarrow> Scheduler" where
  \<comment> \<open>the end of an entry function: the fiber never runs again\<close>
  "finish exit err s =
     suspend (update_process (s_current s)
       (\<lambda>p. p\<lparr>p_exitValue := exit, p_error := err, p_finished := True\<rparr>) s)"


section \<open>Tasks\<close>

definition startTask :: "nat \<Rightarrow> Scheduler \<Rightarrow> pid \<times> Scheduler" where
  \<comment> \<open>the spawner is captured when the task is started\<close>
  "startTask env s =
     (let (p, s1) = spawn env s
      in (p, update_process p (\<lambda>q. q\<lparr>p_spawner := Some (s_current s)\<rparr>) s1))"

definition taskOutcome :: "evalError + val \<Rightarrow> val" where
  "taskOutcome r =
     (case r of Inr v \<Rightarrow> TupleValue [AtomValue ''task_done'', v]
      | Inl _ \<Rightarrow> TupleValue [AtomValue ''task_failed'', StringValue ''task failed''])"

definition taskResult :: "pid \<Rightarrow> val \<Rightarrow> val" where
  "taskResult p v = TupleValue [AtomValue ''task_result'', IntValue (of_nat p), v]"

definition completeTask :: "evalError + val \<Rightarrow> Scheduler \<Rightarrow> Scheduler" where
  \<comment> \<open>the end of a task's entry function: finished first, then the message to the spawner\<close>
  "completeTask r s =
     (let me = s_current s;
          s1 = update_process me (\<lambda>p. p\<lparr>p_exitValue := Some (taskOutcome r), p_finished := True\<rparr>) s
      in case s_processes s me of
           Some proc \<Rightarrow>
             (case p_spawner proc of
                Some spawner \<Rightarrow> suspend (snd (send spawner (taskResult me (taskOutcome r)) s1))
              | None \<Rightarrow> suspend s1)
         | None \<Rightarrow> suspend s1)"

definition acceptsTask :: "pid \<Rightarrow> val \<Rightarrow> bool" where
  "acceptsTask task v =
     (case v of TupleValue [AtomValue tag, IntValue i, TupleValue [AtomValue result, _]] \<Rightarrow>
        tag = ''task_result'' \<and> i = of_nat task \<and> (result = ''task_done'' \<or> result = ''task_failed'')
      | _ \<Rightarrow> False)"

definition thirdElement :: "val \<Rightarrow> val" where
  \<comment> \<open>\<open>elements[2]\<close> of a tuple the scan has found to have three elements\<close>
  "thirdElement v = (case v of TupleValue [_, _, x] \<Rightarrow> x | _ \<Rightarrow> v)"

definition awaitTaskMessage :: "pid \<Rightarrow> time option \<Rightarrow> Scheduler \<Rightarrow> outcome \<times> Scheduler" where
  "awaitTaskMessage task deadline s = beginWaitFor thirdElement (acceptsTask task) deadline s"

section \<open>Receiving\<close>

definition receiveAccepts :: "bool \<Rightarrow> (val \<Rightarrow> bool) \<Rightarrow> val \<Rightarrow> bool" where
  \<comment> \<open>with a sender binding only \<open>(pid, payload)\<close> pairs are looked at; \<open>matches\<close> is the evaluator's
    test of the clauses' patterns and guards\<close>
  "receiveAccepts senderBinding matches v =
     (if senderBinding then (case v of TupleValue [ProcessValue _, payload] \<Rightarrow> matches payload | _ \<Rightarrow> False)
      else matches v)"

definition receiveDeadline :: "time \<Rightarrow> val option \<Rightarrow> time option" where
  \<comment> \<open>milliseconds after \<open>now\<close> for an integer, no deadline for anything else; time is unbounded here,
    the clock of the source counts nanoseconds in 64 bits\<close>
  "receiveDeadline now timeout =
     (case timeout of Some (IntValue ms) \<Rightarrow> Some (now + 1000000 * sint ms) | _ \<Rightarrow> None)"

definition blockingReceive :: "bool \<Rightarrow> (val \<Rightarrow> bool) \<Rightarrow> time \<Rightarrow> val option \<Rightarrow> Scheduler \<Rightarrow> outcome \<times> Scheduler" where
  "blockingReceive senderBinding matches now timeout s =
     beginWait (receiveAccepts senderBinding matches) (receiveDeadline now timeout) s"

section \<open>Servers\<close>

definition castRequest :: "string \<Rightarrow> val list \<Rightarrow> val" where
  "castRequest method args = TupleValue [AtomValue ''server_cast'', StringValue method, ListValue args]"

definition callRequest :: "nat \<Rightarrow> string \<Rightarrow> val list \<Rightarrow> pid \<Rightarrow> val" where
  "callRequest ref method args caller =
     TupleValue [AtomValue ''server_call'', IntValue (of_nat ref), StringValue method, ListValue args,
                 ProcessValue (of_nat caller)]"

definition serverReply :: "i64 \<Rightarrow> val \<Rightarrow> val" where
  "serverReply ref v = TupleValue [AtomValue ''server_reply'', IntValue ref, ok v]"

definition castServer :: "pid \<Rightarrow> string \<Rightarrow> val list \<Rightarrow> Scheduler \<Rightarrow> bool \<times> Scheduler" where
  "castServer server method args s = send server (castRequest method args) s"

definition acceptsReply :: "nat \<Rightarrow> val \<Rightarrow> bool" where
  "acceptsReply ref v =
     (case v of TupleValue [AtomValue tag, IntValue i, _] \<Rightarrow> tag = ''server_reply'' \<and> i = of_nat ref | _ \<Rightarrow> False)"

definition callServer :: "pid \<Rightarrow> string \<Rightarrow> val list \<Rightarrow> time option \<Rightarrow> Scheduler \<Rightarrow> outcome \<times> Scheduler" where
  \<comment> \<open>\<open>Received\<close> carries the reply itself, \<open>Error(:no_process)\<close> when the request could not be sent\<close>
  "callServer server method args deadline s =
     (let ref = s_nextServerCall s;
          s1 = s\<lparr>s_nextServerCall := ref + 1\<rparr>;
          (sent, s2) = send server (callRequest ref method args (s_current s)) s1
      in if sent then beginWaitFor thirdElement (acceptsReply ref) deadline s2
         else (Received (error_of (AtomValue ''no_process'')), s2))"

fun keyName :: "val \<Rightarrow> string option" where
  "keyName (StringValue s) = Some s"
| "keyName (AtomValue s) = Some s"
| "keyName _ = None"

definition castTransition :: "val \<Rightarrow> val \<Rightarrow> val \<times> val option" where
  \<comment> \<open>the state and the stop value after a cast answered \<open>t\<close>\<close>
  "castTransition state t =
     (case t of
        RecordValue type flds \<Rightarrow>
          (case map_of flds ''state'' of Some next \<Rightarrow> next | None \<Rightarrow> if type \<noteq> ''Reply'' then t else state, None)
      | MapValue es \<Rightarrow>
          foldl (\<lambda>(st, stop) (k, v).
            (if keyName k = Some ''state'' \<or> keyName k = Some ''new'' then v else st,
             if keyName k = Some ''stop'' then Some v else stop)) (state, None) es
      | _ \<Rightarrow> (state, None))"

definition callTransition :: "val \<Rightarrow> val \<Rightarrow> val \<times> val option \<times> val option" where
  \<comment> \<open>the state, the reply and the stop value after a call answered \<open>t\<close>\<close>
  "callTransition state t =
     (case t of
        RecordValue type flds \<Rightarrow>
          (case map_of flds ''state'' of Some next \<Rightarrow> next | None \<Rightarrow> state, map_of flds ''reply'', None)
      | MapValue es \<Rightarrow>
          foldl (\<lambda>(st, reply, stop) (k, v).
            (if keyName k = Some ''state'' \<or> keyName k = Some ''new'' then v else st,
             if keyName k = Some ''reply'' then Some v else reply,
             if keyName k = Some ''stop'' then Some v else stop)) (state, None, None) es
      | _ \<Rightarrow> (state, None, None))"

definition serveNext :: "val \<Rightarrow> val option \<Rightarrow> Scheduler \<Rightarrow> Scheduler" where
  \<comment> \<open>round the loop with the new state, or the end of the server\<close>
  "serveNext state stop s =
     (case stop of
        Some v \<Rightarrow> finish (Some v) None s
      | None \<Rightarrow> update_process (s_current s) (\<lambda>p. p\<lparr>p_activity := Serving state\<rparr>) s)"

definition serveCast :: "(val \<Rightarrow> string \<Rightarrow> val list \<Rightarrow> evalError + val) \<Rightarrow> val \<Rightarrow> val \<Rightarrow> val \<Rightarrow> Scheduler \<Rightarrow> Scheduler" where
  "serveCast invoke state method arguments s =
     (let s1 = s\<lparr>s_context := (s_context s)\<lparr>c_servingFrom := None\<rparr>\<rparr> in
      case (method, arguments) of
        (StringValue m, ListValue args) \<Rightarrow>
          (case invoke state m args of
             Inl e \<Rightarrow> finish (Some none) (Some e) s1
           | Inr t \<Rightarrow> (case castTransition state t of (next, stop) \<Rightarrow> serveNext next stop s1))
      | _ \<Rightarrow> s1)"

definition serveCall ::
  "(val \<Rightarrow> string \<Rightarrow> val list \<Rightarrow> evalError + val) \<Rightarrow> val \<Rightarrow> val \<Rightarrow> val \<Rightarrow> val \<Rightarrow> val \<Rightarrow> Scheduler \<Rightarrow> Scheduler" where
  "serveCall invoke state ref method arguments caller s =
     (case (ref, method, arguments, caller) of
        (IntValue r, StringValue m, ListValue args, ProcessValue from) \<Rightarrow>
          let s1 = s\<lparr>s_context := (s_context s)\<lparr>c_servingFrom :=
                Some (RecordValue ''From'' [(''pid'', ProcessValue from), (''ref'', IntValue r)])\<rparr>\<rparr> in
          (case invoke state m args of
             Inl e \<Rightarrow> finish (Some none) (Some e) s1
           | Inr t \<Rightarrow> (case callTransition state t of (next, reply, stop) \<Rightarrow>
               serveNext next stop
                 (case reply of Some v \<Rightarrow> snd (send (unat from) (serverReply r v) s1) | None \<Rightarrow> s1)))
      | _ \<Rightarrow> s)"

definition serverLoop :: "(val \<Rightarrow> string \<Rightarrow> val list \<Rightarrow> evalError + val) \<Rightarrow> val \<Rightarrow> Scheduler \<Rightarrow> Scheduler" where
  \<comment> \<open>one iteration of the server's \<open>while (true)\<close>; \<open>invoke\<close> resolves and calls the method on the state\<close>
  "serverLoop invoke state s =
     (let me = s_current s in
      case s_processes s me of
        None \<Rightarrow> s
      | Some proc \<Rightarrow>
          (case p_mailbox proc of
             [] \<Rightarrow> suspend (update_process me (\<lambda>p. p\<lparr>p_blockedOnReceive := True\<rparr>) s)
           | envelope # rest \<Rightarrow>
               let s1 = update_process me (\<lambda>p. p\<lparr>p_mailbox := rest\<rparr>) s in
               (case envelope of
                  TupleValue [AtomValue tag, a, b] \<Rightarrow>
                    if tag = ''server_cast'' then serveCast invoke state a b s1 else s1
                | TupleValue [AtomValue tag, a, b, c, d] \<Rightarrow>
                    if tag = ''server_call'' then serveCall invoke state a b c d s1 else s1
                | _ \<Rightarrow> s1)))"

section \<open>Driving\<close>

definition firstProcessError :: "Scheduler \<Rightarrow> evalError option" where
  \<comment> \<open>of the lowest-numbered process that has one\<close>
  "firstProcessError s =
     (case List.map_filter (\<lambda>p. Option.bind (s_processes s p) p_error) [0..<s_nextId s] of
        [] \<Rightarrow> None | e # _ \<Rightarrow> Some e)"

datatype decision =
    Finished "val option"
  | Rethrow evalError
  | Deadlock
  | SleepUntil time
  | Resumed pid

definition driveStep :: "pid \<Rightarrow> time \<Rightarrow> Scheduler \<Rightarrow> decision \<times> Scheduler" where
  \<comment> \<open>one iteration of the loop of \<open>driveUntilFinished\<close>, up to the switch to the process\<close>
  "driveStep target now s =
     (case s_processes s target of
        None \<Rightarrow> (Finished (Some none), s)
      | Some proc \<Rightarrow>
          if p_finished proc then (Finished (p_exitValue proc), s)
          else let s1 = fireExpiredTimeouts now s in
            (case s_ready s1 of
               [] \<Rightarrow> (case s_timeouts s1 of
                   [] \<Rightarrow> (case firstProcessError s1 of Some e \<Rightarrow> (Rethrow e, s1) | None \<Rightarrow> (Deadlock, s1))
                 | (d, _) # _ \<Rightarrow> (SleepUntil d, s1))
             | p # ps \<Rightarrow> (Resumed p, resume p (s1\<lparr>s_ready := ps\<rparr>))))"

definition rootOutcome :: "pid \<Rightarrow> val option \<Rightarrow> Scheduler \<Rightarrow> evalError + val option" where
  \<comment> \<open>the end of \<open>runToCompletion\<close>: the error stored by the root is thrown on the caller's stack\<close>
  "rootOutcome root result s =
     (case Option.bind (s_processes s root) p_error of Some e \<Rightarrow> Inl e | None \<Rightarrow> Inr result)"

section \<open>Supervisors\<close>

text \<open>
  The fiber of a supervisor starts its children and then, for ever, sleeps for 50 milliseconds and
  restarts the children that have died.  A child block is user code: \<open>callBlock\<close> answers what calling
  the block of a child does to the scheduler and the value it returns.
\<close>

definition startSupervisor :: "nat \<Rightarrow> Scheduler \<Rightarrow> pid \<times> Scheduler" where
  "startSupervisor env s =
     add_process \<lparr>c_env = env, c_capabilities = c_capabilities (s_context s), c_servingFrom = None\<rparr> Running s"

fun pidOf :: "val \<Rightarrow> pid" where
  "pidOf (ProcessValue p) = unat p"
| "pidOf _ = 0"

primrec startChildren :: "(nat \<Rightarrow> Scheduler \<Rightarrow> val \<times> Scheduler) \<Rightarrow> nat list \<Rightarrow> Scheduler \<Rightarrow> pid list \<times> Scheduler" where
  "startChildren callBlock [] s = ([], s)"
| "startChildren callBlock (i # is) s =
     (let (v, s1) = callBlock i s;
          (ps, s2) = startChildren callBlock is s1
      in (pidOf v # ps, s2))"

primrec superviseRound ::
  "(nat \<Rightarrow> Scheduler \<Rightarrow> val \<times> Scheduler) \<Rightarrow> (nat \<times> pid) list \<Rightarrow> Scheduler \<Rightarrow> (nat \<times> pid) list \<times> Scheduler" where
  \<comment> \<open>one pass over the children, each with the index of its block; 0 is no process\<close>
  "superviseRound callBlock [] s = ([], s)"
| "superviseRound callBlock (c # cs) s =
     (let (c', s1) = (if snd c \<noteq> 0 \<and> \<not> isAlive s (snd c)
                      then let (v, s1) = callBlock (fst c) s in ((fst c, pidOf v), s1) else (c, s));
          (cs', s2) = superviseRound callBlock cs s1
      in (c' # cs', s2))"

section \<open>Runs\<close>

text \<open>
  The events of a run: an iteration of the driving loop, what the code of the running process
  does next, and, for a process inside one of the loops above, another iteration of it.
\<close>

datatype event =
    Drive pid time
  | Evaluate Context
  | Spawn nat
  | StartTask nat
  | StartServer nat val
  | StartSupervisor nat
  | Send pid val
  | Register string pid
  | Link pid
  | Unlink pid
  | Tick
  | Receive "val \<Rightarrow> bool" "time option"
  | CallServer pid string "val list" "time option"
  | AwaitTask pid "time option"
  | Sleep time
  | Exit "val option" "evalError option"
  | CompleteTask "evalError + val"
  | Continue

definition running :: "Scheduler \<Rightarrow> activity option" where
  "running s = (case s_frame s of None \<Rightarrow> None | Some f \<Rightarrow> map_option p_activity (s_processes s (f_pid f)))"

definition continueLoop :: "(val \<Rightarrow> string \<Rightarrow> val list \<Rightarrow> evalError + val) \<Rightarrow> Scheduler \<Rightarrow> Scheduler option" where
  \<comment> \<open>the code after a yield: a timeout ends the wait, anything else scans the mailbox again\<close>
  "continueLoop invoke s =
     (case s_processes s (s_current s) of
        None \<Rightarrow> None
      | Some proc \<Rightarrow>
          (case p_activity proc of
             Running \<Rightarrow> None
           | Waiting w \<Rightarrow>
               if p_wokeByTimeout proc
               then Some (update_process (s_current s) (\<lambda>p. p\<lparr>p_wokeByTimeout := False, p_activity := Running\<rparr>) s)
               else Some (snd (waitLoop w s))
           | Sleeping \<Rightarrow>
               Some (update_process (s_current s) (\<lambda>p. p\<lparr>p_wokeByTimeout := False, p_activity := Running\<rparr>) s)
           | Serving state \<Rightarrow> Some (serverLoop invoke state s)))"

definition act :: "event \<Rightarrow> Scheduler \<Rightarrow> Scheduler option" where
  \<comment> \<open>what user code does; \<open>Drive\<close> and \<open>Continue\<close> are not its choice\<close>
  "act e s =
     (case e of
        Evaluate c \<Rightarrow> Some (s\<lparr>s_context := c\<rparr>)
      | Spawn env \<Rightarrow> Some (snd (spawn env s))
      | StartTask env \<Rightarrow> Some (snd (startTask env s))
      | StartServer env state \<Rightarrow> Some (snd (startServer env state s))
      | StartSupervisor env \<Rightarrow> Some (snd (startSupervisor env s))
      | Send p v \<Rightarrow> Some (snd (send p v s))
      | Register name p \<Rightarrow> Some (registerName name p s)
      | Link p \<Rightarrow> Some (link p s)
      | Unlink p \<Rightarrow> Some (unlink p s)
      | Tick \<Rightarrow> Some (tickReduction s)
      | Receive accepts deadline \<Rightarrow> Some (snd (beginWait accepts deadline s))
      | CallServer p m args deadline \<Rightarrow> Some (snd (callServer p m args deadline s))
      | AwaitTask task deadline \<Rightarrow> Some (snd (awaitTaskMessage task deadline s))
      | Sleep d \<Rightarrow> Some (sleepFor d s)
      | Exit v e' \<Rightarrow> Some (finish v e' s)
      | CompleteTask r \<Rightarrow> Some (completeTask r s)
      | _ \<Rightarrow> None)"

definition step :: "(val \<Rightarrow> string \<Rightarrow> val list \<Rightarrow> evalError + val) \<Rightarrow> event \<Rightarrow> Scheduler \<Rightarrow> Scheduler option" where
  "step invoke e s =
     (case e of
        Drive target now \<Rightarrow> if s_frame s = None then Some (snd (driveStep target now s)) else None
      | Continue \<Rightarrow> if s_frame s = None then None else continueLoop invoke s
      | _ \<Rightarrow> if running s = Some Running then act e s else None)"

end
