(* ===== verification/SchedulerLaws.thy ===== *)
theory SchedulerLaws
  imports Scheduler "HOL-Library.Sublist"
begin

text \<open>
  The states the scheduler can reach, the invariant of its bookkeeping and its preservation by
  every operation, what a step does to the other processes, and the order of the ready queue.
\<close>

section \<open>Reachable states\<close>

inductive reachable :: "(val \<Rightarrow> string \<Rightarrow> val list \<Rightarrow> evalError + val) \<Rightarrow> Scheduler \<Rightarrow> bool" for invoke where
  created: "reachable invoke (make_scheduler c)"
| started: "reachable invoke s \<Longrightarrow> s_frame s = None \<Longrightarrow> reachable invoke (snd (startRoot env s))"
| stepped: "reachable invoke s \<Longrightarrow> step invoke e s = Some s' \<Longrightarrow> reachable invoke s'"

section \<open>The bookkeeping invariant\<close>

definition runnable :: "Scheduler \<Rightarrow> pid \<Rightarrow> bool" where
  "runnable s p = (case s_processes s p of None \<Rightarrow> False
                   | Some proc \<Rightarrow> \<not> p_finished proc \<and> \<not> p_blockedOnReceive proc)"

definition on_stack :: "Scheduler \<Rightarrow> pid \<Rightarrow> bool" where
  "on_stack s p = (case s_frame s of None \<Rightarrow> False | Some f \<Rightarrow> f_pid f = p)"

text \<open>
  Every process that is neither finished nor blocked is in the ready queue exactly once, or is
  the one that is running; nothing else is in the queue.
\<close>

definition queue_ok :: "Scheduler \<Rightarrow> bool" where
  "queue_ok s \<longleftrightarrow> distinct (s_ready s) \<and>
     (\<forall>p. p \<in> set (s_ready s) \<longleftrightarrow> runnable s p \<and> \<not> on_stack s p) \<and>
     (\<forall>p. on_stack s p \<longrightarrow> runnable s p \<and> s_current s = p)"

definition ids_ok :: "Scheduler \<Rightarrow> bool" where
  "ids_ok s \<longleftrightarrow> (\<forall>p. s_processes s p \<noteq> None \<longrightarrow> p < s_nextId s)"

text \<open>
  An entry of the table of timeouts belongs to a wait its process has started; while the process
  is still in that wait, the entry carries the deadline of the wait.
\<close>

definition entry_ok :: "Process \<Rightarrow> time \<Rightarrow> nat \<Rightarrow> bool" where
  "entry_ok proc d g \<longleftrightarrow> g \<le> p_waitGeneration proc \<and>
     (g = p_waitGeneration proc \<longrightarrow> (\<forall>w. p_activity proc = Waiting w \<longrightarrow> w_deadline w = Some d))"

definition wait_ok :: "Process \<Rightarrow> bool" where
  \<comment> \<open>a wait loop waits in the current generation, and the reductions stay within the budget\<close>
  "wait_ok proc \<longleftrightarrow> p_reductions proc < kReductionBudget \<and> (\<forall>w. p_activity proc = Waiting w \<longrightarrow> w_generation w = p_waitGeneration proc)"

definition timeouts_ok :: "Scheduler \<Rightarrow> bool" where
  "timeouts_ok s \<longleftrightarrow> sorted (map fst (s_timeouts s)) \<and>
     (\<forall>(d, p, g) \<in> set (s_timeouts s). \<exists>proc. s_processes s p = Some proc \<and> entry_ok proc d g) \<and>
     (\<forall>p proc. s_processes s p = Some proc \<longrightarrow> wait_ok proc)"

definition sched_inv :: "Scheduler \<Rightarrow> bool" where
  "sched_inv s \<longleftrightarrow> queue_ok s \<and> ids_ok s \<and> timeouts_ok s"

lemmas inv_defs = sched_inv_def queue_ok_def ids_ok_def timeouts_ok_def runnable_def on_stack_def

lemma sched_invI:
  "queue_ok s \<Longrightarrow> ids_ok s \<Longrightarrow> timeouts_ok s \<Longrightarrow> sched_inv s"
  by (simp add: sched_inv_def)

lemma update_process_simps [simp]:
  "s_ready (update_process p f s) = s_ready s"
  "s_frame (update_process p f s) = s_frame s"
  "s_current (update_process p f s) = s_current s"
  "s_timeouts (update_process p f s) = s_timeouts s"
  "s_nextId (update_process p f s) = s_nextId s"
  "s_context (update_process p f s) = s_context s"
  "s_processes (update_process p f s) q = (if q = p then map_option f (s_processes s p) else s_processes s q)"
  by (simp_all add: update_process_def)

lemma push_ready_simps [simp]:
  "s_ready (push_ready p s) = s_ready s @ [p]"
  "s_frame (push_ready p s) = s_frame s"
  "s_current (push_ready p s) = s_current s"
  "s_timeouts (push_ready p s) = s_timeouts s"
  "s_nextId (push_ready p s) = s_nextId s"
  "s_context (push_ready p s) = s_context s"
  "s_processes (push_ready p s) = s_processes s"
  by (simp_all add: push_ready_def)

lemma current_runs:
  assumes "sched_inv s" "s_frame s = Some f"
  obtains proc where "s_current s = f_pid f" "s_processes s (f_pid f) = Some proc"
    "\<not> p_finished proc" "\<not> p_blockedOnReceive proc" "f_pid f \<notin> set (s_ready s)"
  using assms by (auto simp: inv_defs split: option.splits)

lemma process_ok: "sched_inv s \<Longrightarrow> s_processes s p = Some proc \<Longrightarrow> wait_ok proc"
  by (auto simp: sched_inv_def timeouts_ok_def)

lemma process_reductions: "sched_inv s \<Longrightarrow> s_processes s p = Some proc \<Longrightarrow> p_reductions proc < kReductionBudget"
  by (auto dest: process_ok simp: wait_ok_def)

text \<open>
  An assignment that changes neither the scheduling state of a process nor its wait.
\<close>

definition quiet :: "(Process \<Rightarrow> Process) \<Rightarrow> bool" where
  "quiet f \<longleftrightarrow> (\<forall>p. p_finished (f p) = p_finished p \<and> p_blockedOnReceive (f p) = p_blockedOnReceive p \<and>
     p_waitGeneration (f p) = p_waitGeneration p \<and>
     (p_reductions p < kReductionBudget \<longrightarrow> p_reductions (f p) < kReductionBudget) \<and>
     (p_activity (f p) = p_activity p \<or> (\<forall>w. p_activity (f p) \<noteq> Waiting w)))"

lemma quiet_entry: "quiet f \<Longrightarrow> entry_ok p d g \<Longrightarrow> entry_ok (f p) d g"
  and quiet_wait: "quiet f \<Longrightarrow> wait_ok p \<Longrightarrow> wait_ok (f p)"
  by (auto simp: quiet_def entry_ok_def wait_ok_def) metis+

lemma runnable_update: "quiet f \<Longrightarrow> runnable (update_process p f s) = runnable s"
  by (auto simp: runnable_def quiet_def fun_eq_iff split: option.splits)

lemma update_quiet:
  assumes "quiet f" "sched_inv s"
  shows "sched_inv (update_process p f s)"
proof (rule sched_invI)
  show "queue_ok (update_process p f s)"
    using assms by (simp add: queue_ok_def sched_inv_def runnable_update on_stack_def)
  show "ids_ok (update_process p f s)"
    using assms by (simp add: ids_ok_def sched_inv_def)
  show "timeouts_ok (update_process p f s)"
    using assms by (fastforce simp: timeouts_ok_def sched_inv_def quiet_entry quiet_wait)
qed

lemma context_inv [simp]: "sched_inv (s\<lparr>s_context := c\<rparr>) = sched_inv s"
  and names_inv [simp]: "sched_inv (s\<lparr>s_names := n\<rparr>) = sched_inv s"
  and calls_inv [simp]: "sched_inv (s\<lparr>s_nextServerCall := k\<rparr>) = sched_inv s"
  by (simp_all add: inv_defs)

section \<open>Every operation keeps it\<close>

lemma suspend_simps [simp]:
  "s_ready (suspend s) = s_ready s"
  "s_frame (suspend s) = None"
  "s_timeouts (suspend s) = s_timeouts s"
  "s_nextId (suspend s) = s_nextId s"
  by (simp_all add: suspend_def split: option.splits)

lemma suspend_process:
  "s_frame s = Some f \<Longrightarrow>
   s_processes (suspend s) q = (if q = f_pid f then map_option (\<lambda>p. p\<lparr>p_saved := s_context s\<rparr>) (s_processes s q)
                                else s_processes s q)"
  by (simp add: suspend_def)

lemma quiet_saved [simp]: "quiet (\<lambda>p. p\<lparr>p_saved := c\<rparr>)"
  by (simp add: quiet_def)

lemma timeouts_ok_cong:
  "s_timeouts s = s_timeouts t \<Longrightarrow> s_processes s = s_processes t \<Longrightarrow> timeouts_ok s = timeouts_ok t"
  by (simp add: timeouts_ok_def)

lemma timeouts_quiet: "quiet f \<Longrightarrow> timeouts_ok s \<Longrightarrow> timeouts_ok (update_process p f s)"
  by (fastforce simp: timeouts_ok_def quiet_entry quiet_wait)

lemma timeouts_suspend: "timeouts_ok s \<Longrightarrow> timeouts_ok (suspend s)"
  by (cases "s_frame s") (auto simp: suspend_def intro: timeouts_ok_cong [THEN iffD1, OF _ _ timeouts_quiet])

text \<open>
  A process leaves the C++ stack either blocked or finished, or having put itself at the end of
  the ready queue.
\<close>

lemma yield_inv:
  assumes inv: "sched_inv s" and f: "s_frame s = Some f" "f_pid f = me"
    and t: "s_frame t = s_frame s" "s_nextId t = s_nextId s" "timeouts_ok t"
      "s_processes t = (s_processes s)(me \<mapsto> proc)"
      "s_ready t = s_ready s @ (if p_finished proc \<or> p_blockedOnReceive proc then [] else [me])"
  shows "sched_inv (suspend t)"
proof (rule sched_invI)
  obtain old where me: "s_processes s me = Some old" "\<not> p_finished old" "\<not> p_blockedOnReceive old"
      "me \<notin> set (s_ready s)"
    using current_runs [OF inv f(1)] f(2) by metis
  have others: "runnable (suspend t) p = runnable s p" if "p \<noteq> me" for p
    using that t f by (simp add: runnable_def suspend_process)
  have self: "runnable (suspend t) me \<longleftrightarrow> \<not> p_finished proc \<and> \<not> p_blockedOnReceive proc"
    using t f by (simp add: runnable_def suspend_process)
  have stack: "on_stack s p \<longleftrightarrow> p = me" "\<not> on_stack (suspend t) p" for p
    using f by (auto simp: on_stack_def)
  have q: "distinct (s_ready s)" "\<And>p. p \<in> set (s_ready s) \<longleftrightarrow> runnable s p \<and> p \<noteq> me"
    using inv by (simp_all add: sched_inv_def queue_ok_def stack)
  have "p \<in> set (s_ready (suspend t)) \<longleftrightarrow> runnable (suspend t) p" for p
    by (cases "p = me") (auto simp: t self others q me(4))
  then show "queue_ok (suspend t)"
    using q(1) me(4) by (simp add: queue_ok_def stack t)
  show "ids_ok (suspend t)"
    using inv t f me by (auto simp: ids_ok_def sched_inv_def suspend_process split: if_splits)
  show "timeouts_ok (suspend t)"
    using t(3) by (rule timeouts_suspend)
qed

lemma add_process_inv:
  assumes "sched_inv s" "\<forall>w. a \<noteq> Waiting w"
  shows "sched_inv (snd (add_process c a s))"
proof -
  have fresh: "s_processes s (s_nextId s) = None"
    using assms(1) by (auto simp: sched_inv_def ids_ok_def)
  then have "\<not> runnable s (s_nextId s)" by (simp add: runnable_def)
  then have new: "s_processes s (s_nextId s) = None" "s_nextId s \<notin> set (s_ready s)" "\<not> on_stack s (s_nextId s)"
    using assms(1) fresh by (auto simp: sched_inv_def queue_ok_def)
  define t where "t = snd (add_process c a s)"
  have t: "s_processes t = (s_processes s)(s_nextId s \<mapsto> fresh_process c a)" "s_ready t = s_ready s @ [s_nextId s]"
      "s_nextId t = Suc (s_nextId s)" "s_timeouts t = s_timeouts s" "s_frame t = s_frame s" "s_current t = s_current s"
    by (simp_all add: t_def add_process_def)
  have run: "runnable t p = (if p = s_nextId s then True else runnable s p)" for p
    by (simp add: runnable_def t fresh_process_def)
  have stack: "on_stack t = on_stack s"
    by (simp add: on_stack_def t fun_eq_iff)
  have "sched_inv t"
  proof (rule sched_invI)
    show "queue_ok t"
      using assms new by (auto simp: queue_ok_def sched_inv_def run stack t)
    show "ids_ok t"
      using assms by (auto simp: ids_ok_def sched_inv_def t less_Suc_eq)
    show "timeouts_ok t"
      using assms new by (fastforce simp: timeouts_ok_def sched_inv_def t fresh_process_def wait_ok_def kReductionBudget_def)
  qed
  then show ?thesis by (simp add: t_def)
qed

lemma wake_inv:
  \<comment> \<open>a blocked process made ready again\<close>
  assumes inv: "sched_inv s" and p: "s_processes s p = Some proc" "\<not> p_finished proc" "p_blockedOnReceive proc"
    and f: "\<And>q. p_finished (f q) = p_finished q" "\<And>q. \<not> p_blockedOnReceive (f q)"
      "\<And>q. p_waitGeneration (f q) = p_waitGeneration q" "\<And>q. p_activity (f q) = p_activity q"
      "\<And>q. p_reductions (f q) = p_reductions q"
  shows "sched_inv (push_ready p (update_process p f s))"
proof (rule sched_invI)
  let ?t = "push_ready p (update_process p f s)"
  have blocked: "\<not> runnable s p" using p by (simp add: runnable_def)
  have run: "runnable ?t q = (if q = p then True else runnable s q)" for q
    using p f by (simp add: runnable_def)
  have stack: "on_stack ?t = on_stack s" by (simp add: on_stack_def fun_eq_iff)
  show "queue_ok ?t"
    using inv blocked by (auto simp: queue_ok_def sched_inv_def run stack)
  show "ids_ok ?t"
    using inv by (simp add: ids_ok_def sched_inv_def)
  have "entry_ok (f q) d g = entry_ok q d g" "wait_ok (f q) = wait_ok q" for q d g
    using f by (simp_all add: entry_ok_def wait_ok_def)
  then show "timeouts_ok ?t"
    using inv p by (fastforce simp: timeouts_ok_def sched_inv_def)
qed

lemma send_inv:
  assumes "sched_inv s"
  shows "sched_inv (snd (send p v s))"
proof -
  have q: "quiet (\<lambda>q. q\<lparr>p_mailbox := p_mailbox q @ [v]\<rparr>)" by (simp add: quiet_def)
  have fusion: "update_process p f (update_process p g s) = update_process p (f \<circ> g) s" for f g
    by (cases "s_processes s p") (simp_all add: update_process_def comp_def)
  show ?thesis
    using assms update_quiet [OF q assms, of p]
    by (auto simp: send_def Let_def fusion split: option.splits intro!: wake_inv)
qed

lemma link_inv: "sched_inv s \<Longrightarrow> sched_inv (link p s)"
  and unlink_inv: "sched_inv s \<Longrightarrow> sched_inv (unlink p s)"
  by (auto simp: link_def unlink_def quiet_def intro!: update_quiet)

lemma insertTimeout_set [simp]: "set (insertTimeout d e ts) = insert (d, e) (set ts)"
  by (induction d e ts rule: insertTimeout.induct) auto

lemma insertTimeout_sorted: "sorted (map fst ts) \<Longrightarrow> sorted (map fst (insertTimeout d e ts))"
  by (induction d e ts rule: insertTimeout.induct) fastforce+

lemma dropTimeout_inv: "sched_inv s \<Longrightarrow> s_timeouts s = x # ts \<Longrightarrow> sched_inv (s\<lparr>s_timeouts := ts\<rparr>)"
  by (auto simp: inv_defs)

lemma fireTimeout_inv: "sched_inv s \<Longrightarrow> sched_inv (fireTimeout p g s)"
  by (auto simp: fireTimeout_def split: option.splits intro: wake_inv)

lemma fireExpiredTimeouts_inv: "sched_inv s \<Longrightarrow> sched_inv (fireExpiredTimeouts now s)"
proof (induction now s rule: fireExpiredTimeouts.induct)
  case (1 now s)
  show ?case
  proof (cases "\<exists>d p g ts. s_timeouts s = (d, p, g) # ts \<and> d \<le> now")
    case True
    then obtain d p g ts where ts: "s_timeouts s = (d, p, g) # ts" "d \<le> now" by blast
    have "sched_inv (fireTimeout p g (s\<lparr>s_timeouts := ts\<rparr>))"
      using 1(2) ts by (intro fireTimeout_inv dropTimeout_inv)
    then have "sched_inv (fireExpiredTimeouts now (fireTimeout p g (s\<lparr>s_timeouts := ts\<rparr>)))"
      using ts by (intro 1(1)) simp_all
    then show ?thesis using ts by (subst fireExpiredTimeouts.simps) simp
  next
    case False
    then show ?thesis
      using 1(2) by (subst fireExpiredTimeouts.simps) (auto split: list.split)
  qed
qed

lemma fireTimeout_simps [simp]:
  "s_frame (fireTimeout p g s) = s_frame s" "s_timeouts (fireTimeout p g s) = s_timeouts s"
  "s_nextId (fireTimeout p g s) = s_nextId s" "s_current (fireTimeout p g s) = s_current s"
  by (simp_all add: fireTimeout_def split: option.split)

lemma fireExpiredTimeouts_frame: "s_frame (fireExpiredTimeouts now s) = s_frame s"
  by (induction now s rule: fireExpiredTimeouts.induct)
     (subst fireExpiredTimeouts.simps, auto split: list.split prod.split)

lemma resume_inv:
  assumes inv: "sched_inv s" and s: "s_frame s = None" "s_ready s = p # ps"
  shows "sched_inv (resume p (s\<lparr>s_ready := ps\<rparr>))"
    and "s_frame (resume p (s\<lparr>s_ready := ps\<rparr>)) \<noteq> None" "s_current (resume p (s\<lparr>s_ready := ps\<rparr>)) = p"
    and "running (resume p (s\<lparr>s_ready := ps\<rparr>)) = map_option p_activity (s_processes s p)"
    and "on_stack (resume p (s\<lparr>s_ready := ps\<rparr>)) p"
proof -
  have p: "runnable s p" "p \<notin> set ps"
    using inv s by (auto simp: sched_inv_def queue_ok_def)
  then obtain proc where proc: "s_processes s p = Some proc" "\<not> p_finished proc" "\<not> p_blockedOnReceive proc"
    by (auto simp: runnable_def split: option.splits)
  define t where "t = resume p (s\<lparr>s_ready := ps\<rparr>)"
  have t: "s_ready t = ps" "s_current t = p" "s_processes t = s_processes s" "s_timeouts t = s_timeouts s"
      "s_nextId t = s_nextId s" "\<exists>f. s_frame t = Some f \<and> f_pid f = p"
    using proc by (simp_all add: t_def resume_def)
  have stack: "on_stack t q \<longleftrightarrow> q = p" "\<not> on_stack s q" for q
    using t(6) s by (auto simp: on_stack_def)
  have run: "runnable t = runnable s" by (simp add: runnable_def t fun_eq_iff)
  have "queue_ok t"
    using inv s p by (auto simp: queue_ok_def sched_inv_def stack run t)
  moreover have "ids_ok t" "timeouts_ok t"
    using inv by (simp_all add: ids_ok_def timeouts_ok_def sched_inv_def t)
  ultimately show "sched_inv (resume p (s\<lparr>s_ready := ps\<rparr>))"
    by (simp add: sched_inv_def t_def)
  show "s_frame (resume p (s\<lparr>s_ready := ps\<rparr>)) \<noteq> None" "s_current (resume p (s\<lparr>s_ready := ps\<rparr>)) = p"
    "running (resume p (s\<lparr>s_ready := ps\<rparr>)) = map_option p_activity (s_processes s p)"
    "on_stack (resume p (s\<lparr>s_ready := ps\<rparr>)) p"
    using t stack by (auto simp: t_def [symmetric] running_def)
qed

lemma driveStep_inv:
  assumes "sched_inv s" "s_frame s = None"
  shows "sched_inv (snd (driveStep target now s))"
  using assms fireExpiredTimeouts_inv [OF assms(1), of now] fireExpiredTimeouts_frame [of now s]
  by (auto simp: driveStep_def Let_def split: option.split list.split intro: resume_inv)

text \<open>
  The waits: the state a process leaves when it blocks in wait \<open>w\<close>, with its entry in the table
  of timeouts when it has just put it there.
\<close>

lemma block_inv:
  assumes inv: "sched_inv s" and f: "s_frame s = Some f" and me: "s_processes s (s_current s) = Some proc"
    and ts: "ts = s_timeouts s \<or> (\<exists>d. ts = insertTimeout d (s_current s, p_waitGeneration proc') (s_timeouts s) \<and>
                    (\<forall>w. p_activity proc' = Waiting w \<longrightarrow> w_deadline w = Some d))"
    and p: "p_blockedOnReceive proc'" "wait_ok proc'"
      "p_waitGeneration proc < p_waitGeneration proc' \<or>
       p_waitGeneration proc = p_waitGeneration proc' \<and>
         (\<forall>w. p_activity proc' = Waiting w \<longrightarrow> (\<exists>w'. p_activity proc = Waiting w' \<and> w_deadline w' = w_deadline w))"
    and t: "t = s\<lparr>s_timeouts := ts, s_processes := (s_processes s)(s_current s \<mapsto> proc')\<rparr>"
  shows "sched_inv (suspend t)"
proof (rule yield_inv [OF inv f])
  show "f_pid f = s_current s" using inv f by (metis current_runs)
  have old: "entry_ok proc d g \<Longrightarrow> entry_ok proc' d g" for d g
    using p by (auto simp: entry_ok_def)
  have "sorted (map fst ts)"
    using ts inv by (auto simp: sched_inv_def timeouts_ok_def insertTimeout_sorted)
  moreover have "\<exists>q. s_processes t p = Some q \<and> entry_ok q d g" if "(d, p, g) \<in> set ts" for d p g
  proof (cases "(d, p, g) \<in> set (s_timeouts s)")
    case True
    then show ?thesis using inv me old by (fastforce simp: t sched_inv_def timeouts_ok_def)
  next
    case False
    then show ?thesis using that ts by (auto simp: t entry_ok_def)
  qed
  ultimately show "timeouts_ok t"
    using inv p(2) by (auto simp: timeouts_ok_def sched_inv_def t)
  show "s_ready t = s_ready s @ (if p_finished proc' \<or> p_blockedOnReceive proc' then [] else [s_current s])"
    using p(1) by (simp add: t)
qed (simp_all add: t)

lemma waitLoop_inv:
  assumes inv: "sched_inv s" and f: "s_frame s = Some f" and me: "s_processes s (s_current s) = Some proc"
    and w: "w_generation w = p_waitGeneration proc" "p_activity proc = Waiting w"
  shows "sched_inv (snd (waitLoop w s))"
proof (cases "takeFirst (w_accepts w) (p_mailbox proc)")
  case (Some m)
  then show ?thesis
    using inv me by (auto simp: waitLoop_def quiet_def split: prod.split intro: update_quiet)
next
  case None
  let ?w = "if w_deadline w \<noteq> None then w\<lparr>w_registered := True\<rparr> else w"
  let ?p = "proc\<lparr>p_blockedOnReceive := True, p_wokeByTimeout := False, p_activity := Waiting ?w\<rparr>"
  let ?ts = "case w_deadline w of
      Some d \<Rightarrow> if w_registered w then s_timeouts s
                else insertTimeout d (s_current s, w_generation w) (s_timeouts s)
    | None \<Rightarrow> s_timeouts s"
  have "snd (waitLoop w s) =
      suspend (s\<lparr>s_timeouts := ?ts, s_processes := (s_processes s)(s_current s \<mapsto> ?p)\<rparr>)"
    using me None by (auto simp: waitLoop_def Let_def update_process_def split: option.split)
  moreover have "sched_inv (suspend (s\<lparr>s_timeouts := ?ts, s_processes := (s_processes s)(s_current s \<mapsto> ?p)\<rparr>))"
    by (rule block_inv [OF inv f me _ _ _ _ refl]) (use w process_reductions [OF inv me] in \<open>auto simp: wait_ok_def split: option.split\<close>)
  ultimately show ?thesis by simp
qed

lemma beginWaitFor_unfold:
  assumes "s_processes s (s_current s) = Some proc"
  shows "snd (beginWaitFor answer accepts deadline s) = 
    (case takeFirst accepts (p_mailbox proc) of
       Some (m, rest) \<Rightarrow> s\<lparr>s_processes := (s_processes s)(s_current s \<mapsto>
           proc\<lparr>p_waitGeneration := p_waitGeneration proc + 1, p_mailbox := rest, p_activity := Running\<rparr>)\<rparr>
     | None \<Rightarrow> suspend (s\<lparr>s_timeouts := (case deadline of Some d \<Rightarrow>
            insertTimeout d (s_current s, p_waitGeneration proc + 1) (s_timeouts s) | None \<Rightarrow> s_timeouts s),
         s_processes := (s_processes s)(s_current s \<mapsto>
           proc\<lparr>p_waitGeneration := p_waitGeneration proc + 1, p_blockedOnReceive := True, p_wokeByTimeout := False,
             p_activity := Waiting \<lparr>w_accepts = accepts, w_answer = answer, w_deadline = deadline,
               w_generation = p_waitGeneration proc + 1, w_registered = deadline \<noteq> None\<rparr>\<rparr>)\<rparr>))"
  using assms by (auto simp: beginWaitFor_def waitLoop_def Let_def update_process_def split: option.split prod.split)

lemma set_inv:
  assumes inv: "sched_inv s" and me: "s_processes s p = Some proc"
    and q: "p_finished q = p_finished proc" "p_blockedOnReceive q = p_blockedOnReceive proc" "wait_ok q"
      "\<And>d g. entry_ok proc d g \<Longrightarrow> entry_ok q d g"
  shows "sched_inv (s\<lparr>s_processes := (s_processes s)(p \<mapsto> q)\<rparr>)"
proof (rule sched_invI)
  let ?t = "s\<lparr>s_processes := (s_processes s)(p \<mapsto> q)\<rparr>"
  have run: "runnable ?t = runnable s" using me q by (simp add: runnable_def fun_eq_iff)
  have stack: "on_stack ?t = on_stack s" by (simp add: on_stack_def fun_eq_iff)
  show "queue_ok ?t" using inv by (simp add: queue_ok_def sched_inv_def run stack)
  show "ids_ok ?t" using inv me by (auto simp: ids_ok_def sched_inv_def)
  show "timeouts_ok ?t" using inv me q by (fastforce simp: timeouts_ok_def sched_inv_def)
qed

lemma beginWaitFor_inv:
  assumes inv: "sched_inv s" and f: "s_frame s = Some f"
  shows "sched_inv (snd (beginWaitFor answer accepts deadline s))"
proof -
  obtain proc where me: "s_processes s (s_current s) = Some proc"
    using current_runs [OF inv f] by metis
  show ?thesis
  proof (cases "takeFirst accepts (p_mailbox proc)")
    case (Some m)
    then show ?thesis
      using inv me process_reductions [OF inv me]
      by (auto simp: beginWaitFor_unfold [OF me] wait_ok_def entry_ok_def split: prod.split intro!: set_inv)
  next
    case None
    show ?thesis
      unfolding beginWaitFor_unfold [OF me] None option.case
      by (rule block_inv [OF inv f me _ _ _ _ refl])
         (use process_reductions [OF inv me] in \<open>auto simp: wait_ok_def split: option.split\<close>)
  qed
qed

lemma send_simps [simp]:
  "s_frame (snd (send p v s)) = s_frame s" "s_current (snd (send p v s)) = s_current s"
  "s_nextId (snd (send p v s)) = s_nextId s" "s_timeouts (snd (send p v s)) = s_timeouts s"
  by (simp_all add: send_def Let_def split: option.split)

lemma callServer_inv:
  assumes "sched_inv s" "s_frame s = Some f"
  shows "sched_inv (snd (callServer p m args deadline s))"
proof -
  define s1 where "s1 = snd (send p (callRequest (s_nextServerCall s) m args (s_current s))
      (s\<lparr>s_nextServerCall := s_nextServerCall s + 1\<rparr>))"
  have "sched_inv s1" "s_frame s1 = Some f"
    using assms by (simp_all add: s1_def send_inv)
  then show ?thesis
    using beginWaitFor_inv [of s1 f thirdElement "acceptsReply (s_nextServerCall s)" deadline]
    by (auto simp: callServer_def Let_def s1_def split: prod.split)
qed

lemma sleepFor_inv:
  assumes inv: "sched_inv s" and f: "s_frame s = Some f"
  shows "sched_inv (sleepFor d s)"
proof -
  obtain proc where me: "s_processes s (s_current s) = Some proc"
    using current_runs [OF inv f] by metis
  let ?t = "s\<lparr>s_timeouts := insertTimeout d (s_current s, p_waitGeneration proc + 1) (s_timeouts s),
     s_processes := (s_processes s)(s_current s \<mapsto> proc\<lparr>p_waitGeneration := p_waitGeneration proc + 1,
       p_blockedOnReceive := True, p_wokeByTimeout := False, p_activity := Sleeping\<rparr>)\<rparr>"
  have "sleepFor d s = suspend ?t"
    using me by (simp add: sleepFor_def update_process_def)
  moreover have "sched_inv (suspend ?t)"
    by (rule block_inv [OF inv f me _ _ _ _ refl])
       (use process_reductions [OF inv me] in \<open>auto simp: wait_ok_def\<close>)
  ultimately show ?thesis by simp
qed

lemma finish_unfold:
  assumes "s_processes s (s_current s) = Some proc"
  shows "finish v e s = suspend (s\<lparr>s_processes := (s_processes s)(s_current s \<mapsto>
           proc\<lparr>p_exitValue := v, p_error := e, p_finished := True\<rparr>)\<rparr>)"
  using assms by (simp add: finish_def update_process_def)

lemma dead_inv:
  assumes inv: "sched_inv s" and f: "s_frame s = Some f" and me: "s_processes s (s_current s) = Some proc"
    and p: "p_finished proc'" "p_waitGeneration proc' = p_waitGeneration proc" "p_activity proc' = p_activity proc"
      "p_reductions proc' = p_reductions proc"
    and t: "t = s\<lparr>s_processes := (s_processes s)(s_current s \<mapsto> proc')\<rparr>"
  shows "sched_inv (suspend t)"
proof (rule yield_inv [OF inv f])
  show "f_pid f = s_current s" using inv f by (metis current_runs)
  have "entry_ok proc' d g = entry_ok proc d g" "wait_ok proc' = wait_ok proc" for d g
    using p by (simp_all add: entry_ok_def wait_ok_def)
  then show "timeouts_ok t"
    using inv me by (fastforce simp: timeouts_ok_def sched_inv_def t)
  show "s_ready t = s_ready s @ (if p_finished proc' \<or> p_blockedOnReceive proc' then [] else [s_current s])"
    using p(1) by (simp add: t)
qed (simp_all add: t)

lemma finish_inv:
  assumes "sched_inv s" "s_frame s = Some f"
  shows "sched_inv (finish v e s)"
proof -
  obtain proc where me: "s_processes s (s_current s) = Some proc"
    using current_runs [OF assms] by metis
  show ?thesis
    unfolding finish_unfold [OF me] by (rule dead_inv [OF assms me _ _ _ _ refl]) simp_all
qed

lemma tickReduction_inv:
  assumes inv: "sched_inv s" and f: "s_frame s = Some f"
  shows "sched_inv (tickReduction s)"
proof -
  obtain proc where me: "s_current s = f_pid f" "s_processes s (f_pid f) = Some proc"
      "\<not> p_finished proc" "\<not> p_blockedOnReceive proc"
    using current_runs [OF inv f] by metis
  note ok = process_ok [OF inv me(2)]
  show ?thesis
  proof (cases "p_reductions proc + 1 < kReductionBudget")
    case True
    have "sched_inv (s\<lparr>s_processes := (s_processes s)(f_pid f \<mapsto> proc\<lparr>p_reductions := p_reductions proc + 1\<rparr>)\<rparr>)"
      by (rule set_inv [OF inv me(2)]) (use True ok in \<open>auto simp: wait_ok_def entry_ok_def\<close>)
    then show ?thesis
      using True me by (simp add: tickReduction_def update_process_def)
  next
    case False
    have "sched_inv (suspend (push_ready (f_pid f) (update_process (f_pid f) (\<lambda>p. p\<lparr>p_reductions := 0\<rparr>) s)))"
    proof (rule yield_inv [OF inv f refl, where proc = "proc\<lparr>p_reductions := 0\<rparr>"])
      have "quiet (\<lambda>p. p\<lparr>p_reductions := 0\<rparr>)" by (simp add: quiet_def kReductionBudget_def)
      from timeouts_quiet [OF this, of s "f_pid f"]
      show "timeouts_ok (push_ready (f_pid f) (update_process (f_pid f) (\<lambda>p. p\<lparr>p_reductions := 0\<rparr>) s))"
        using inv by (simp add: sched_inv_def push_ready_def timeouts_ok_def)
    qed (use me in \<open>auto simp: fun_eq_iff\<close>)
    then show ?thesis
      using False me by (simp add: tickReduction_def)
  qed
qed

lemma completeTask_inv:
  assumes inv: "sched_inv s" and f: "s_frame s = Some f"
  shows "sched_inv (completeTask r s)"
proof -
  obtain proc where me: "s_current s = f_pid f" "s_processes s (f_pid f) = Some proc"
      "\<not> p_finished proc" "\<not> p_blockedOnReceive proc"
    using current_runs [OF inv f] by metis
  let ?dead = "proc\<lparr>p_exitValue := Some (taskOutcome r), p_finished := True\<rparr>"
  let ?s1 = "s\<lparr>s_processes := (s_processes s)(s_current s \<mapsto> ?dead)\<rparr>"
  show ?thesis
  proof (cases "p_spawner proc")
    case None
    then show ?thesis
      using me dead_inv [OF inv f _ _ _ _ _ refl, of proc ?dead]
      by (simp add: completeTask_def Let_def update_process_def)
  next
    case (Some sp)
    let ?m = "taskResult (s_current s) (taskOutcome r)"
    text \<open>Sending from a finished process and finishing after sending are the same, except when
      the process is its own spawner.\<close>
    have eq: "suspend (snd (send sp ?m ?s1)) =
        suspend (let t = (if sp = s_current s then s else snd (send sp ?m s))
                 in t\<lparr>s_processes := (s_processes t)(s_current s \<mapsto> ?dead)\<rparr>)"
      using me by (auto simp: send_def Let_def update_process_def push_ready_def fun_eq_iff
          split: option.split intro!: arg_cong [of _ _ suspend])
    have "sched_inv (suspend (let t = (if sp = s_current s then s else snd (send sp ?m s))
                 in t\<lparr>s_processes := (s_processes t)(s_current s \<mapsto> ?dead)\<rparr>))"
    proof -
      define t where "t = (if sp = s_current s then s else snd (send sp ?m s))"
      have t: "sched_inv t" "s_frame t = Some f" "s_current t = s_current s" "s_processes t (s_current t) = Some proc"
        using inv f me send_inv [OF inv]
        by (auto simp: t_def send_def Let_def update_process_def push_ready_def split: option.split)
      show ?thesis
        unfolding t_def [symmetric] Let_def
        by (rule dead_inv [OF t(1,2,4)]) (simp_all add: t(3))
    qed
    then show ?thesis
      using me Some unfolding eq [symmetric]
      by (simp add: completeTask_def Let_def update_process_def)
  qed
qed

lemma serveNext_inv:
  "sched_inv s \<Longrightarrow> s_frame s = Some f \<Longrightarrow> sched_inv (serveNext state stop s)"
  by (auto simp: serveNext_def quiet_def split: option.split intro: finish_inv update_quiet)

lemma serveCast_inv:
  assumes "sched_inv s" "s_frame s = Some f"
  shows "sched_inv (serveCast invoke state m args s)"
  using assms finish_inv [of "s\<lparr>s_context := c\<rparr>" f for c] serveNext_inv [of "s\<lparr>s_context := c\<rparr>" f for c]
  by (auto simp: serveCast_def Let_def split: val.split sum.split prod.split)

lemma serveCall_inv:
  assumes "sched_inv s" "s_frame s = Some f"
  shows "sched_inv (serveCall invoke state r m args c s)"
  using assms
  by (auto simp: serveCall_def Let_def split: val.split sum.split prod.split option.split
      intro!: finish_inv [of _ f] serveNext_inv [of _ f] send_inv)

lemma serverLoop_inv:
  assumes inv: "sched_inv s" and f: "s_frame s = Some f"
    and me: "s_processes s (s_current s) = Some proc" "p_activity proc = Serving state"
  shows "sched_inv (serverLoop invoke state s)"
proof (cases "p_mailbox proc")
  case Nil
  have "sched_inv (suspend (s\<lparr>s_timeouts := s_timeouts s,
      s_processes := (s_processes s)(s_current s \<mapsto> proc\<lparr>p_blockedOnReceive := True\<rparr>)\<rparr>))"
    by (rule block_inv [OF inv f me(1) _ _ _ _ refl])
       (simp_all add: wait_ok_def me process_reductions [OF inv me(1)])
  then show ?thesis
    using Nil me by (simp add: serverLoop_def Let_def update_process_def)
next
  case (Cons envelope rest)
  define s1 where "s1 = update_process (s_current s) (\<lambda>p. p\<lparr>p_mailbox := rest\<rparr>) s"
  have s1: "sched_inv s1" "s_frame s1 = Some f"
    using inv f by (auto simp: s1_def quiet_def intro: update_quiet)
  have "serverLoop invoke state s \<in> {s1} \<union> {serveCast invoke state a b s1 |a b. True} \<union>
      {serveCall invoke state a b c d s1 |a b c d. True}"
    using Cons me by (auto simp: serverLoop_def Let_def s1_def [symmetric] split: val.split list.split)
  then show ?thesis
    using s1 by (auto intro: serveCast_inv serveCall_inv)
qed

lemma creating_inv:
  "sched_inv s \<Longrightarrow> sched_inv (snd (add_process c Running s))"
  "sched_inv s \<Longrightarrow> sched_inv (snd (add_process c (Serving v) s))"
  by (simp_all add: add_process_inv)

lemma startTask_inv:
  assumes "sched_inv s"
  shows "sched_inv (snd (startTask env s))"
proof -
  have "quiet (\<lambda>q. q\<lparr>p_spawner := Some x\<rparr>)" for x by (simp add: quiet_def)
  then show ?thesis
    using creating_inv(1) [OF assms]
    by (simp add: startTask_def spawn_def split_beta update_quiet)
qed

lemma act_inv:
  assumes inv: "sched_inv s" and f: "s_frame s = Some f" and e: "act e s = Some s'"
  shows "sched_inv s'"
proof -
  note ops = tickReduction_inv beginWaitFor_inv callServer_inv sleepFor_inv finish_inv completeTask_inv
  show ?thesis
    using e inv ops [OF inv f]
    by (cases e) (auto simp: act_def beginWait_def awaitTaskMessage_def startSupervisor_def spawn_def startServer_def registerName_def
        intro: creating_inv startTask_inv send_inv link_inv unlink_inv)
qed

lemma continueLoop_inv:
  assumes inv: "sched_inv s" and f: "s_frame s = Some f" and e: "continueLoop invoke s = Some s'"
  shows "sched_inv s'"
proof -
  obtain proc where me: "s_processes s (s_current s) = Some proc"
    using current_runs [OF inv f] by metis
  have q: "quiet (\<lambda>p. p\<lparr>p_wokeByTimeout := False, p_activity := Running\<rparr>)"
    by (simp add: quiet_def)
  have w: "w_generation w = p_waitGeneration proc" if "p_activity proc = Waiting w" for w
    using inv me that by (auto simp: sched_inv_def timeouts_ok_def wait_ok_def)
  show ?thesis
    using e me update_quiet [OF q inv] waitLoop_inv [OF inv f me w] serverLoop_inv [OF inv f me]
    by (auto simp: continueLoop_def split: activity.splits if_splits)
qed

lemma step_inv:
  assumes inv: "sched_inv s" and "step invoke e s = Some s'"
  shows "sched_inv s'"
proof (cases "s_frame s")
  case None
  then show ?thesis
    using assms driveStep_inv [OF inv None]
    by (cases e) (auto simp: step_def running_def)
next
  case (Some f)
  then show ?thesis
    using assms act_inv [OF inv Some, of e] continueLoop_inv [OF inv Some]
    by (cases e) (auto simp: step_def split: if_splits)
qed

lemma make_scheduler_inv: "sched_inv (make_scheduler c)"
  by (simp add: inv_defs make_scheduler_def)

lemma reachable_inv: "reachable invoke s \<Longrightarrow> sched_inv s"
proof (induction rule: reachable.induct)
  case (started s env)
  then show ?case by (auto simp: startRoot_def intro: creating_inv)
qed (auto intro: make_scheduler_inv step_inv)

section \<open>What a step does to the other processes\<close>

text \<open>
  A process is never removed from the table, never comes back from the dead, and is only marked
  as woken by a timeout while the timeouts are fired; the process that started a task is never changed.
\<close>

definition successor :: "Process \<Rightarrow> Process \<Rightarrow> bool" where
  "successor p q \<longleftrightarrow> (p_wokeByTimeout q \<longrightarrow> p_wokeByTimeout p) \<and>
     (p_reductions p < kReductionBudget \<longrightarrow> p_reductions q < kReductionBudget) \<and>
     (p_finished p \<longrightarrow> p_finished q \<and> p_exitValue q = p_exitValue p \<and> p_error q = p_error p) \<and>
     p_spawner q = p_spawner p"

lemma successor_refl [simp]: "successor p p"
  and successor_trans: "successor p q \<Longrightarrow> successor q r \<Longrightarrow> successor p r"
  by (auto simp: successor_def)

definition evolves :: "Scheduler \<Rightarrow> Scheduler \<Rightarrow> bool" where
  "evolves s t \<longleftrightarrow> (\<forall>p proc. s_processes s p = Some proc \<longrightarrow>
     (\<exists>proc'. s_processes t p = Some proc' \<and> successor proc proc'))"

lemma evolvesI:
  "(\<And>p proc. s_processes s p = Some proc \<Longrightarrow>
      case s_processes t p of None \<Rightarrow> False | Some proc' \<Rightarrow> successor proc proc') \<Longrightarrow> evolves s t"
  unfolding evolves_def by (metis (no_types, lifting) option.case_eq_if option.collapse)

lemma evolves_trans: "evolves s t \<Longrightarrow> evolves t u \<Longrightarrow> evolves s u"
  unfolding evolves_def by (meson successor_trans)

lemma evolves_same: "s_processes t = s_processes s \<Longrightarrow> evolves s t"
  by (simp add: evolves_def)

lemma evolves_refl [simp]: "evolves s s"
  by (simp add: evolves_same)

lemma evolves_set:
  "s_processes s p = Some proc \<Longrightarrow> successor proc proc' \<Longrightarrow> s_processes t = (s_processes s)(p \<mapsto> proc') \<Longrightarrow> evolves s t"
  by (simp add: evolves_def)

lemma evolves_update: "(\<And>q. successor q (f q)) \<Longrightarrow> evolves s (update_process p f s)"
  by (auto simp: evolves_def)

lemma evolves_push: "evolves s (push_ready p t) = evolves s t"
  by (simp add: evolves_def)

lemma evolves_suspend [simp]: "evolves s (suspend t) = evolves s t"
proof -
  have "evolves t (suspend t)" 
    by (auto simp: suspend_def evolves_def successor_def split: option.split)
  moreover have "evolves s t" if e: "evolves s (suspend t)"
  proof (rule evolvesI)
    fix p proc
    assume "s_processes s p = Some proc"
    then obtain proc' where "s_processes (suspend t) p = Some proc'" "successor proc proc'"
      using e unfolding evolves_def by blast
    then show "case s_processes t p of None \<Rightarrow> False | Some proc' \<Rightarrow> successor proc proc'"
      by (cases "s_frame t")
         (auto simp: suspend_process suspend_def successor_def split: option.splits if_splits)
  qed
  ultimately show ?thesis
    using evolves_trans by blast
qed

lemma evolves_add: "sched_inv s \<Longrightarrow> evolves s (snd (add_process c a s))"
  by (auto simp: evolves_def add_process_def sched_inv_def ids_ok_def)

lemma evolves_send: "evolves s (snd (send p v s))"
  by (auto simp: evolves_def send_def Let_def successor_def split: option.split)

lemma evolves_fields: "evolves (s\<lparr>s_context := c\<rparr>) t = evolves s t" "evolves s (t\<lparr>s_context := c\<rparr>) = evolves s t"
  "evolves (s\<lparr>s_nextServerCall := k\<rparr>) t = evolves s t"
  by (simp_all add: evolves_def)

lemma evolves_beginWaitFor:
  assumes "s_processes s (s_current s) = Some proc"
  shows "evolves s (snd (beginWaitFor answer accepts d s))"
  unfolding beginWaitFor_unfold [OF assms]
  using assms
  by (auto split: option.split prod.split if_splits intro!: evolvesI simp: successor_def)

lemma evolves_waitLoop:
  assumes "s_processes s (s_current s) = Some proc"
  shows "evolves s (snd (waitLoop w s))"
  using assms
  by (auto simp: waitLoop_def Let_def successor_def split: option.split prod.split if_splits
      intro!: evolvesI)

lemma evolves_finish:
  assumes "s_processes s (s_current s) = Some proc" "\<not> p_finished proc"
  shows "evolves s (finish v e s)"
  unfolding finish_unfold [OF assms(1)]
  by (simp, intro evolves_set [OF assms(1), of "proc\<lparr>p_exitValue := v, p_error := e, p_finished := True\<rparr>"])
     (simp_all add: successor_def assms(2))

lemma evolves_tick: "s_processes s (s_current s) = Some proc \<Longrightarrow> evolves s (tickReduction s)"
  by (auto simp: tickReduction_def evolves_push successor_def kReductionBudget_def intro!: evolvesI)

lemma evolves_sleep: "s_processes s (s_current s) = Some proc \<Longrightarrow> evolves s (sleepFor d s)"
  by (auto simp: sleepFor_def successor_def intro!: evolvesI split: if_splits)

lemma evolves_callServer:
  assumes "s_processes s (s_current s) = Some proc"
  shows "evolves s (snd (callServer p m args d s))"
proof -
  define s1 where "s1 = snd (send p (callRequest (s_nextServerCall s) m args (s_current s))
      (s\<lparr>s_nextServerCall := s_nextServerCall s + 1\<rparr>))"
  have s1: "evolves s s1"
    using evolves_send [of "s\<lparr>s_nextServerCall := s_nextServerCall s + 1\<rparr>"] by (simp add: s1_def evolves_fields)
  then obtain proc' where "s_processes s1 (s_current s1) = Some proc'"
    using assms by (auto simp: evolves_def s1_def)
  then show ?thesis
    using s1 evolves_beginWaitFor [of s1] evolves_trans [OF s1]
    by (auto simp: callServer_def Let_def s1_def split: prod.split)
qed

lemma evolves_completeTask:
  assumes me: "s_processes s (s_current s) = Some proc" "\<not> p_finished proc"
  shows "evolves s (completeTask r s)"
proof -
  define s1 where "s1 = update_process (s_current s) (\<lambda>p. p\<lparr>p_exitValue := Some (taskOutcome r), p_finished := True\<rparr>) s"
  have "evolves s s1"
    using me by (auto simp: s1_def evolves_def successor_def)
  then show ?thesis
    using me evolves_send [of s1] evolves_trans [of s s1]
    by (auto simp: completeTask_def Let_def s1_def [symmetric] split: option.split)
qed

lemma act_evolves:
  assumes inv: "sched_inv s" and f: "s_frame s = Some f" and e: "act e s = Some s'"
  shows "evolves s s'"
proof -
  obtain proc where me: "s_processes s (s_current s) = Some proc" "\<not> p_finished proc"
    using current_runs [OF inv f] by metis
  have task: "evolves s (snd (startTask env s))" for env
    using inv by (auto simp: evolves_def startTask_def spawn_def add_process_def Let_def sched_inv_def ids_ok_def)
  note ops = evolves_beginWaitFor [OF me(1)] evolves_callServer [OF me(1)] evolves_sleep [OF me(1)]
    evolves_tick [OF me(1)] evolves_finish [OF me] evolves_completeTask [OF me] evolves_add [OF inv] evolves_send
  show ?thesis
    using e task ops
    by (cases e) (auto simp: act_def beginWait_def awaitTaskMessage_def startSupervisor_def spawn_def startServer_def registerName_def link_def unlink_def
        intro: evolves_same intro!: evolves_trans [OF evolves_update evolves_update] simp: successor_def)
qed

lemma evolves_serveNext:
  assumes "s_processes s (s_current s) = Some proc" "\<not> p_finished proc"
  shows "evolves s (serveNext state stop s)"
  using evolves_finish [OF assms]
  by (auto simp: serveNext_def successor_def split: option.split intro!: evolves_update)

lemma serverLoop_evolves:
  assumes inv: "sched_inv s" and f: "s_frame s = Some f"
  shows "evolves s (serverLoop invoke state s)"
proof -
  obtain proc where me: "s_processes s (s_current s) = Some proc" "\<not> p_finished proc"
    using current_runs [OF inv f] by metis
  have finish: "evolves t (finish v e t')" and serve: "evolves t (serveNext st stop t')"
    if "evolves t t'" "s_current t' = s_current s" "isAlive t' (s_current s)" for t t' v e st stop
    using that evolves_finish [of t'] evolves_serveNext [of t'] evolves_trans [OF that(1)]
    by (auto simp: isAlive_def split: option.splits)
  have alive: "isAlive (snd (send q v t)) (s_current s)" if "isAlive t (s_current s)" for q v t
    using that by (auto simp: isAlive_def send_def Let_def split: option.splits)
  have same [simp]: "evolves t (t\<lparr>s_context := c\<rparr>)" "isAlive (t\<lparr>s_context := c\<rparr>) q = isAlive t q" for t c q
    by (simp_all add: evolves_def isAlive_def)
  define s1 where "s1 = update_process (s_current s) (\<lambda>p. p\<lparr>p_mailbox := tl (p_mailbox p)\<rparr>) s"
  have s1: "isAlive s1 (s_current s)" "s_current s1 = s_current s"
    using me by (simp_all add: s1_def isAlive_def)
  have "evolves s1 (serveCast invoke state a b s1)" for a b
    using s1 by (auto simp: serveCast_def Let_def split: val.split sum.split prod.split
        intro!: finish serve same(1))
  moreover have "evolves s1 (serveCall invoke state a b c d s1)" for a b c d
    using s1 by (auto simp: serveCall_def Let_def split: val.split sum.split prod.split option.split
        intro!: finish serve same(1) alive evolves_trans [OF same(1) evolves_send])
  moreover have "evolves s s1"
    by (simp add: s1_def evolves_update successor_def)
  ultimately have "evolves s s1" "evolves s (serveCast invoke state a b s1)"
      "evolves s (serveCall invoke state a b c d s1)" for a b c d
    by (blast intro: evolves_trans)+
  then show ?thesis
    using me by (cases "p_mailbox proc")
      (auto simp: serverLoop_def Let_def s1_def update_process_def successor_def split: val.split list.split intro!: evolvesI)
qed

lemma continueLoop_evolves:
  assumes inv: "sched_inv s" and f: "s_frame s = Some f" and e: "continueLoop invoke s = Some s'"
  shows "evolves s s'"
proof -
  obtain proc where me: "s_processes s (s_current s) = Some proc"
    using current_runs [OF inv f] by metis
  show ?thesis
    using e me serverLoop_evolves [OF inv f] evolves_waitLoop [OF me]
    by (auto simp: continueLoop_def successor_def split: activity.splits if_splits intro!: evolves_update)
qed

text \<open>
  The iteration of the driving loop marks processes whose entry has expired.
\<close>

definition expired_successor :: "time \<Rightarrow> Process \<Rightarrow> Process \<Rightarrow> bool" where
  "expired_successor now p q \<longleftrightarrow> p_activity q = p_activity p \<and> p_mailbox q = p_mailbox p \<and>
     p_waitGeneration q = p_waitGeneration p \<and> p_reductions q = p_reductions p \<and>
     p_finished q = p_finished p \<and> p_exitValue q = p_exitValue p \<and> p_error q = p_error p \<and> p_spawner q = p_spawner p \<and>
     (p_wokeByTimeout q \<longrightarrow> p_wokeByTimeout p \<or>
        (\<forall>w. p_activity p = Waiting w \<longrightarrow> (\<exists>d. w_deadline w = Some d \<and> d \<le> now)))"

lemma fireTimeout_process:
  "s_processes (fireTimeout q g s) p =
     (if p = q then map_option (\<lambda>proc. if p_finished proc \<or> \<not> p_blockedOnReceive proc \<or> p_waitGeneration proc \<noteq> g
        then proc else proc\<lparr>p_blockedOnReceive := False, p_wokeByTimeout := True\<rparr>) (s_processes s p)
      else s_processes s p)"
  by (auto simp: fireTimeout_def split: option.split)

lemma fireExpired_successor:
  assumes "sched_inv s" "s_processes s p = Some proc"
  shows "\<exists>proc'. s_processes (fireExpiredTimeouts now s) p = Some proc' \<and> expired_successor now proc proc'"
  using assms
proof (induction now s arbitrary: proc rule: fireExpiredTimeouts.induct)
  case (1 now s)
  show ?case
  proof (cases "\<exists>d q g ts. s_timeouts s = (d, q, g) # ts \<and> d \<le> now")
    case False
    then show ?thesis
      using 1(3) by (subst fireExpiredTimeouts.simps) (auto simp: expired_successor_def split: list.split)
  next
    case True
    then obtain d q g ts where ts: "s_timeouts s = (d, q, g) # ts" "d \<le> now" by blast
    let ?t = "fireTimeout q g (s\<lparr>s_timeouts := ts\<rparr>)"
    have inv: "sched_inv ?t"
      using 1(2) ts by (intro fireTimeout_inv dropTimeout_inv)
    have entry: "entry_ok proc d g" if "p = q"
      using 1(2,3) that by (auto simp: sched_inv_def timeouts_ok_def ts)
    have "\<exists>proc'. s_processes ?t p = Some proc' \<and> expired_successor now proc proc'"
      using 1(3) ts entry by (cases "p = q") (simp_all add: fireTimeout_process expired_successor_def entry_ok_def)
    then obtain proc' where p': "s_processes ?t p = Some proc'" "expired_successor now proc proc'" by blast
    obtain proc'' where "s_processes (fireExpiredTimeouts now ?t) p = Some proc''" "expired_successor now proc' proc''"
      using 1(1) [OF ts(1) refl refl ts(2) inv p'(1)] by blast
    moreover have "expired_successor now proc proc''"
      using p'(2) calculation(2) by (auto simp: expired_successor_def)
    ultimately show ?thesis
      using ts by (subst fireExpiredTimeouts.simps) simp
  qed
qed

lemma resume_processes [simp]: "s_processes (resume p s) = s_processes s"
  by (simp add: resume_def split: option.split)

lemma driveStep_processes:
  "s_processes (snd (driveStep target now s)) = s_processes (fireExpiredTimeouts now s) \<or>
   s_processes (snd (driveStep target now s)) = s_processes s"
  by (auto simp: driveStep_def Let_def split: option.split list.split)

lemma expired_successor_refl [simp]: "expired_successor now p p"
  by (simp add: expired_successor_def)

lemma driveStep_successor:
  assumes "sched_inv s" "s_processes s p = Some proc"
  shows "\<exists>proc'. s_processes (snd (driveStep target now s)) p = Some proc' \<and> expired_successor now proc proc'"
  using driveStep_processes [of target now s] fireExpired_successor [OF assms, of now] assms(2)
  by (metis expired_successor_refl)

lemma step_successor:
  assumes inv: "sched_inv s" and e: "step invoke e s = Some s'" and p: "s_processes s p = Some proc"
  shows "\<exists>proc'. s_processes s' p = Some proc' \<and>
    (successor proc proc' \<or> (\<exists>target now. e = Drive target now \<and> expired_successor now proc proc'))"
proof (cases "s_frame s")
  case None
  then show ?thesis
    using e driveStep_successor [OF inv p] by (cases e) (auto simp: step_def running_def)
next
  case (Some f)
  then have "evolves s s'"
    using e act_evolves [OF inv Some, of e] continueLoop_evolves [OF inv Some]
    by (cases e) (auto simp: step_def split: if_splits)
  then show ?thesis using p unfolding evolves_def by blast
qed

lemma step_spawner:
  assumes "sched_inv s" "step invoke e s = Some s'" "s_processes s p = Some proc"
  shows "\<exists>proc'. s_processes s' p = Some proc' \<and> p_spawner proc' = p_spawner proc"
  using step_successor [OF assms] by (auto simp: successor_def expired_successor_def)

section \<open>The order in which processes run\<close>

lemma fireTimeout_prefix: "prefix (s_ready s) (s_ready (fireTimeout p g s))"
  by (simp add: fireTimeout_def split: option.split)

lemma fireExpired_prefix: "prefix (s_ready s) (s_ready (fireExpiredTimeouts now s))"
proof (induction now s rule: fireExpiredTimeouts.induct)
  case (1 now s)
  show ?case
  proof (cases "\<exists>d p g ts. s_timeouts s = (d, p, g) # ts \<and> d \<le> now")
    case True
    then obtain d p g ts where ts: "s_timeouts s = (d, p, g) # ts" "d \<le> now" by blast
    have "prefix (s_ready s) (s_ready (fireTimeout p g (s\<lparr>s_timeouts := ts\<rparr>)))"
      using fireTimeout_prefix [of "s\<lparr>s_timeouts := ts\<rparr>"] by simp
    then have "prefix (s_ready s) (s_ready (fireExpiredTimeouts now (fireTimeout p g (s\<lparr>s_timeouts := ts\<rparr>))))"
      using 1 [OF ts(1) refl refl ts(2)] by (rule prefix_order.trans)
    then show ?thesis using ts by (subst fireExpiredTimeouts.simps) simp
  next
    case False
    then show ?thesis by (subst fireExpiredTimeouts.simps) (auto split: list.split)
  qed
qed

lemma send_prefix: "prefix (s_ready s) (s_ready (snd (send p v s)))"
  by (simp add: send_def Let_def split: option.split)

lemma waitLoop_ready: "s_ready (snd (waitLoop w s)) = s_ready s"
  by (simp add: waitLoop_def Let_def split: option.split prod.split)

lemma beginWaitFor_ready: "s_ready (snd (beginWaitFor answer accepts d s)) = s_ready s"
  by (simp add: beginWaitFor_def waitLoop_ready split: option.split)

lemma finish_ready: "s_ready (finish v e s) = s_ready s"
  by (simp add: finish_def)

lemma callServer_prefix: "prefix (s_ready s) (s_ready (snd (callServer p m args d s)))"
  using send_prefix [of "s\<lparr>s_nextServerCall := s_nextServerCall s + 1\<rparr>" p "callRequest (s_nextServerCall s) m args (s_current s)"]
  by (auto simp: callServer_def Let_def beginWaitFor_ready split: prod.split)

lemma completeTask_prefix: "prefix (s_ready s) (s_ready (completeTask r s))"
  using send_prefix [of "update_process (s_current s) (\<lambda>p. p\<lparr>p_exitValue := Some (taskOutcome r), p_finished := True\<rparr>) s"]
  by (simp add: completeTask_def Let_def split: option.split)

lemma act_prefix: "act e s = Some s' \<Longrightarrow> prefix (s_ready s) (s_ready s')"
  using send_prefix callServer_prefix completeTask_prefix
  by (cases e) (auto simp: act_def beginWait_def awaitTaskMessage_def startSupervisor_def spawn_def startTask_def startServer_def add_process_def registerName_def link_def
      unlink_def tickReduction_def beginWaitFor_ready sleepFor_def finish_ready split: option.splits if_splits)

lemma serveNext_ready: "s_ready (serveNext st stop s) = s_ready s"
  by (simp add: serveNext_def finish_ready split: option.split)

lemma serverLoop_prefix: "prefix (s_ready s) (s_ready (serverLoop invoke st s))"
proof -
  have "prefix (s_ready t) (s_ready (serveCast invoke st a b t))" for a b t
    by (simp add: serveCast_def Let_def finish_ready serveNext_ready split: val.split sum.split prod.split)
  moreover have "prefix (s_ready t) (s_ready (serveCall invoke st a b c d t))" for a b c d t
    using send_prefix [of "t\<lparr>s_context := x\<rparr>" for x]
    by (auto simp: serveCall_def Let_def finish_ready serveNext_ready split: val.split sum.split prod.split option.split)
  ultimately have "prefix (s_ready s) (s_ready (serveCast invoke st a b (update_process p f s)))"
      "prefix (s_ready s) (s_ready (serveCall invoke st a b c d (update_process p f s)))" for a b c d p f
    by (metis update_process_simps(1))+
  then show ?thesis
    by (auto simp: serverLoop_def Let_def split: option.split list.split val.split)
qed

lemma continueLoop_prefix: "continueLoop invoke s = Some s' \<Longrightarrow> prefix (s_ready s) (s_ready s')"
  by (auto simp: continueLoop_def waitLoop_ready serverLoop_prefix split: option.splits activity.splits if_splits)

definition picked :: "event \<Rightarrow> Scheduler \<Rightarrow> pid list" where
  \<comment> \<open>the process an event gives the processor to\<close>
  "picked e s = (case e of Drive target now \<Rightarrow> (case fst (driveStep target now s) of Resumed p \<Rightarrow> [p] | _ \<Rightarrow> []) | _ \<Rightarrow> [])"

primrec run ::
  "(val \<Rightarrow> string \<Rightarrow> val list \<Rightarrow> evalError + val) \<Rightarrow> event list \<Rightarrow> Scheduler \<Rightarrow> (pid list \<times> Scheduler) option" where
  "run invoke [] s = Some ([], s)"
| "run invoke (e # es) s =
     (case step invoke e s of
        None \<Rightarrow> None
      | Some s' \<Rightarrow> map_option (\<lambda>(ps, t). (picked e s @ ps, t)) (run invoke es s'))"

lemma driveStep_ready: "prefix (s_ready s) ((case fst (driveStep target now s) of Resumed p \<Rightarrow> [p] | _ \<Rightarrow> []) @ s_ready (snd (driveStep target now s)))"
  using fireExpired_prefix [of s now]
  by (auto simp: driveStep_def Let_def resume_def split: option.split list.split)

lemma step_ready: "step invoke e s = Some s' \<Longrightarrow> prefix (s_ready s) (picked e s @ s_ready s')"
  using driveStep_ready [of s]
  by (cases e) (auto simp: step_def picked_def dest: act_prefix continueLoop_prefix split: if_splits)

lemma run_ready: "run invoke es s = Some (ps, s') \<Longrightarrow> prefix (s_ready s) (ps @ s_ready s')"
proof (induction es arbitrary: s ps)
  case (Cons e es)
  then obtain t qs where t: "step invoke e s = Some t" "run invoke es t = Some (qs, s')" "ps = picked e s @ qs"
    by (auto split: option.splits)
  have "prefix (s_ready s) (picked e s @ s_ready t)" using t(1) by (rule step_ready)
  also have "prefix \<dots> (picked e s @ qs @ s_ready s')" using Cons.IH [OF t(2)] by simp
  finally show ?case by (simp add: t(3))
qed simp

lemma run_inv: "run invoke es s = Some (ps, s') \<Longrightarrow> sched_inv s \<Longrightarrow> sched_inv s'"
  by (induction es arbitrary: s ps) (auto split: option.splits dest: step_inv)

lemma run_spawner:
  "run invoke es s = Some (ps, s') \<Longrightarrow> sched_inv s \<Longrightarrow> s_processes s p = Some proc \<Longrightarrow>
     \<exists>proc'. s_processes s' p = Some proc' \<and> p_spawner proc' = p_spawner proc"
proof (induction es arbitrary: s ps proc)
  case (Cons e es)
  then obtain t qs where t: "step invoke e s = Some t" "run invoke es t = Some (qs, s')"
    by (auto split: option.splits)
  obtain proc' where "s_processes t p = Some proc'" "p_spawner proc' = p_spawner proc"
    using step_spawner [OF Cons.prems(2) t(1) Cons.prems(3)] by blast
  with Cons.IH [OF t(2) step_inv [OF Cons.prems(2) t(1)]] show ?case by metis
qed simp

end
