(* ===== verification/SchedulerProps.thy ===== *)
theory SchedulerProps
  imports SchedulerLaws
begin

text \<open>
  The properties of the scheduler, over every state it can reach: the bookkeeping, the order
  and the fairness of the ready queue, the decisions of the driving loop, timeouts, selective
  receive, delivery of messages and of task results - and the one trace on which a deadline is
  lost.
\<close>

section \<open>Lemmas for the properties\<close>

lemma fireExpired_head:
  "s_timeouts (fireExpiredTimeouts now s) = (d, e) # ts \<Longrightarrow> now < d"
proof (induction now s rule: fireExpiredTimeouts.induct)
  case (1 now s)
  show ?case
  proof (cases "\<exists>d p g ts. s_timeouts s = (d, p, g) # ts \<and> d \<le> now")
    case True
    then obtain d' p g ts' where ts: "s_timeouts s = (d', p, g) # ts'" "d' \<le> now" by blast
    then show ?thesis
      using 1(1) [OF ts(1) refl refl ts(2)] 1(2) by (subst (asm) fireExpiredTimeouts.simps) simp
  next
    case False
    then show ?thesis using 1(2) by (subst (asm) fireExpiredTimeouts.simps) (auto split: list.splits)
  qed
qed

lemma map_filter_upt:
  "List.map_filter f [i..<n] = y # ys \<Longrightarrow> \<exists>p. i \<le> p \<and> p < n \<and> f p = Some y \<and> (\<forall>q. i \<le> q \<and> q < p \<longrightarrow> f q = None)"
proof (induction "n - i" arbitrary: i)
  case 0
  then show ?case by (simp add: List.map_filter_def)
next
  case (Suc m)
  then have i: "[i..<n] = i # [Suc i..<n]" by (simp add: upt_conv_Cons)
  show ?case
  proof (cases "f i")
    case None
    then have "List.map_filter f [Suc i..<n] = y # ys" using Suc.prems by (simp add: i List.map_filter_def)
    then obtain p where "Suc i \<le> p" "p < n" "f p = Some y" "\<forall>q. Suc i \<le> q \<and> q < p \<longrightarrow> f q = None"
      using Suc.hyps by (metis Suc_diff_Suc diff_Suc_Suc nat.inject zero_less_Suc zero_less_diff)
    then show ?thesis using None by (metis Suc_leD Suc_leI le_neq_implies_less)
  next
    case (Some x)
    then show ?thesis using Suc.prems Suc.hyps(2) by (intro exI [of _ i]) (auto simp: i List.map_filter_def)
  qed
qed

lemma map_filter_none: "List.map_filter f xs = [] \<longleftrightarrow> (\<forall>x \<in> set xs. f x = None)"
  by (induction xs) (auto simp: List.map_filter_def)

lemma takeFirst_Some:
  "takeFirst p xs = Some (x, ys) \<Longrightarrow> \<exists>as bs. xs = as @ x # bs \<and> ys = as @ bs \<and> p x \<and> list_all (\<lambda>y. \<not> p y) as"
proof (induction xs arbitrary: ys)
  case (Cons a xs)
  show ?case
  proof (cases "p a")
    case True
    then show ?thesis using Cons.prems by (intro exI [of _ "[]"] exI [of _ xs]) simp
  next
    case False
    then obtain zs where "takeFirst p xs = Some (x, zs)" "ys = a # zs"
      using Cons.prems by auto
    with Cons.IH [of zs] False show ?thesis
      by (metis append_Cons list.pred_inject(2))
  qed
qed simp

lemma takeFirst_None: "takeFirst p xs = None \<longleftrightarrow> list_all (\<lambda>y. \<not> p y) xs"
  by (induction xs) auto

section \<open>The properties\<close>

text \<open>A scheduler with the root process on the stack, for the witnesses.\<close>

abbreviation start :: Scheduler where
  "start \<equiv> snd (startRoot 0 (make_scheduler \<lparr>c_env = 0, c_capabilities = [], c_servingFrom = None\<rparr>))"

abbreviation rooted :: Scheduler where
  "rooted \<equiv> snd (driveStep 0 0 start)"

lemma start_reachable: "reachable invoke start"
  by (rule reachable.started [OF reachable.created]) (simp add: make_scheduler_def)

lemmas sched_eval = startRoot_def add_process_def fresh_process_def make_scheduler_def driveStep_def
  fireExpiredTimeouts.simps resume_def push_ready_def

lemma start_values:
  "s_frame start = None" "s_ready start = [0]" "s_timeouts start = []" "s_nextId start = 1" "s_current start = 0"
  "s_processes start = [0 \<mapsto> fresh_process \<lparr>c_env = 0, c_capabilities = [], c_servingFrom = None\<rparr> Running]"
  by (simp_all add: sched_eval)

lemma rooted_reachable: "reachable invoke rooted"
  by (rule reachable.stepped [OF start_reachable, of _ "Drive 0 0"]) (simp add: step_def start_values)

lemma rooted_values:
  "s_frame rooted = Some \<lparr>f_pid = 0, f_prevCurrent = 0, f_capabilities = [], f_servingFrom = None\<rparr>"
  "s_ready rooted = []" "s_timeouts rooted = []" "s_nextId rooted = 1" "s_current rooted = 0"
  "s_processes rooted = [0 \<mapsto> fresh_process \<lparr>c_env = 0, c_capabilities = [], c_servingFrom = None\<rparr> Running]"
  "running rooted = Some Running"
  by (simp_all add: sched_eval running_def)

text \<open>
  C3: in every state the scheduler can reach, the bookkeeping is consistent: a process is in
  the ready queue exactly once when it is neither finished, blocked nor running, and never
  otherwise; the running process is neither finished nor blocked; the timeouts are ordered by
  deadline, and an entry whose generation is current carries the deadline of its process's wait.
\<close>

theorem scheduler_bookkeeping:
  assumes "reachable invoke s"
  shows "sched_inv s"
  using assms by (rule reachable_inv)

theorem scheduler_bookkeeping_witness: "sched_inv (snd (driveStep 0 0 start))"
  by (rule scheduler_bookkeeping [OF rooted_reachable [of "\<lambda>_ _ _. Inr UnitValue"]])

text \<open>
  C5: the ready queue is served in order: over any sequence of events, the process at position
  \<open>k\<close> of the queue is the \<open>k\<close>-th to get the processor, and until then it is still in the queue,
  one place further for every process that got it.
\<close>

theorem ready_process_is_served:
  assumes "run invoke es s = Some (picks, s')" "k < length (s_ready s)"
  shows "if k < length picks then picks ! k = s_ready s ! k
         else k - length picks < length (s_ready s') \<and> s_ready s' ! (k - length picks) = s_ready s ! k"
proof -
  obtain more where more: "picks @ s_ready s' = s_ready s @ more"
    using run_ready [OF assms(1)] by (auto simp: prefix_def)
  then have "(picks @ s_ready s') ! k = s_ready s ! k" "k < length (picks @ s_ready s')"
    using assms(2) by (simp_all only: more) (simp_all add: nth_append)
  then show ?thesis by (auto simp: nth_append)
qed

theorem ready_process_is_served_witness: "[0] ! 0 = s_ready start ! 0"
  using ready_process_is_served [of "\<lambda>_ _ _. Inr UnitValue" "[Drive 0 0]" start "[0]" rooted 0]
  by (simp add: step_def picked_def start_values)

text \<open>
  C9: no process keeps the processor: running code that only evaluates gives it up after at
  most \<open>kReductionBudget\<close> reductions, and goes to the end of the ready queue.
\<close>

theorem budget_preempts:
  assumes "reachable invoke s" "running s = Some Running"
  shows "\<exists>n s'. n \<le> kReductionBudget \<and> run invoke (replicate n Tick) s = Some ([], s') \<and>
           s_frame s' = None \<and> s_ready s' = s_ready s @ [s_current s]"
proof -
  have "\<exists>n s'. n \<le> kReductionBudget - p_reductions proc \<and> run invoke (replicate n Tick) s = Some ([], s') \<and>
           s_frame s' = None \<and> s_ready s' = s_ready s @ [s_current s]"
    if "sched_inv s" "running s = Some Running" "s_processes s (s_current s) = Some proc" for proc s
    using that
  proof (induction "kReductionBudget - p_reductions proc" arbitrary: s proc rule: less_induct)
    case less
    obtain f where f: "s_frame s = Some f" using less(3) by (auto simp: running_def split: option.splits)
    have cur: "s_current s = f_pid f" using current_runs [OF less(2) f] by metis
    have budget: "p_reductions proc < kReductionBudget" using process_reductions [OF less(2,4)] .
    let ?t = "tickReduction s"
    have step: "step invoke Tick s = Some ?t" using less(3) by (simp add: step_def act_def)
    have inv: "sched_inv ?t" using less(2) step by (rule step_inv)
    show ?case
    proof (cases "p_reductions proc + 1 < kReductionBudget")
      case False
      then have "s_frame ?t = None" "s_ready ?t = s_ready s @ [s_current s]"
        using less(4) by (simp_all add: tickReduction_def)
      then show ?thesis
        using step budget by (intro exI [of _ "Suc 0"] exI [of _ ?t]) (simp add: picked_def)
    next
      case True
      let ?p = "proc\<lparr>p_reductions := p_reductions proc + 1\<rparr>"
      have t: "s_frame ?t = Some f" "s_ready ?t = s_ready s" "s_current ?t = s_current s"
          "s_processes ?t (s_current ?t) = Some ?p" "running ?t = Some Running"
        using less(3,4) True f cur by (simp_all add: tickReduction_def running_def)
      have "kReductionBudget - p_reductions ?p < kReductionBudget - p_reductions proc"
        using budget by simp
      from less(1) [OF this inv t(5,4)] obtain n s' where
          n: "n \<le> kReductionBudget - p_reductions ?p" "run invoke (replicate n Tick) ?t = Some ([], s')"
             "s_frame s' = None" "s_ready s' = s_ready s @ [s_current s]"
        by (auto simp: t)
      then show ?thesis
        using step budget by (intro exI [of _ "Suc n"] exI [of _ s']) (simp add: picked_def)
    qed
  qed
  moreover obtain f where f: "s_frame s = Some f" using assms(2) by (auto simp: running_def split: option.splits)
  then obtain proc where "s_processes s (s_current s) = Some proc"
    using current_runs [OF reachable_inv [OF assms(1)]] by metis
  ultimately show ?thesis
    using reachable_inv [OF assms(1)] assms(2) by (meson diff_le_self order_trans)
qed

theorem budget_preempts_witness:
  "\<exists>n s'. n \<le> kReductionBudget \<and> run (\<lambda>_ _ _. Inr UnitValue) (replicate n Tick) rooted = Some ([], s') \<and>
     s_frame s' = None \<and> s_ready s' = [0]"
  using budget_preempts [OF rooted_reachable rooted_values(7), of "\<lambda>_ _ _. Inr UnitValue"]
  unfolding rooted_values append.simps .

text \<open>
  C8: what an iteration of the driving loop decides is right: it returns only when the target
  has finished, with its exit value; it resumes a process that can run; it sleeps until the
  earliest deadline, which lies ahead, only when nothing can run; it reports a deadlock only
  when nothing can run, no timeout is pending and no process has failed, and otherwise the error
  of the lowest-numbered process that failed.
\<close>

theorem drive_decision:
  assumes reach: "reachable invoke s" and frame: "s_frame s = None"
  shows "case driveStep target now s of (d, s') \<Rightarrow>
    (case d of
       Finished v \<Rightarrow> \<not> isAlive s target \<and> s' = s \<and>
         v = (case s_processes s target of None \<Rightarrow> Some none | Some proc \<Rightarrow> p_exitValue proc)
     | Resumed p \<Rightarrow> on_stack s' p \<and> runnable s' p
     | SleepUntil t \<Rightarrow> now < t \<and> (\<forall>p. \<not> runnable s' p) \<and> t \<in> fst ` set (s_timeouts s') \<and> (\<forall>(t', _) \<in> set (s_timeouts s'). t \<le> t')
     | Deadlock \<Rightarrow> s_timeouts s' = [] \<and> (\<forall>p. \<not> runnable s' p) \<and> (\<forall>p. Option.bind (s_processes s' p) p_error = None)
     | Rethrow e \<Rightarrow> s_timeouts s' = [] \<and> (\<forall>p. \<not> runnable s' p) \<and>
         (\<exists>p. Option.bind (s_processes s' p) p_error = Some e \<and> (\<forall>q < p. Option.bind (s_processes s' q) p_error = None)))"
proof (cases "isAlive s target")
  case False
  then show ?thesis by (auto simp: driveStep_def isAlive_def split: option.splits)
next
  case True
  define s1 where "s1 = fireExpiredTimeouts now s"
  have s1: "sched_inv s1" "s_frame s1 = None"
    using reachable_inv [OF reach] frame by (simp_all add: s1_def fireExpiredTimeouts_inv fireExpiredTimeouts_frame)
  have drive: "driveStep target now s = (case s_ready s1 of
               [] \<Rightarrow> (case s_timeouts s1 of
                   [] \<Rightarrow> (case firstProcessError s1 of Some e \<Rightarrow> (Rethrow e, s1) | None \<Rightarrow> (Deadlock, s1))
                 | (d, _) # _ \<Rightarrow> (SleepUntil d, s1))
             | p # ps \<Rightarrow> (Resumed p, resume p (s1\<lparr>s_ready := ps\<rparr>)))"
  proof -
    obtain proc where "s_processes s target = Some proc" "\<not> p_finished proc"
      using True by (auto simp: isAlive_def split: option.splits)
    then show ?thesis by (simp add: driveStep_def Let_def s1_def [symmetric])
  qed
  show ?thesis
  proof (cases "s_ready s1")
    case (Cons p ps)
    have "on_stack (resume p (s1\<lparr>s_ready := ps\<rparr>)) p"
      by (rule resume_inv(5) [OF s1 Cons])
    moreover from this have "runnable (resume p (s1\<lparr>s_ready := ps\<rparr>)) p"
      using resume_inv(1) [OF s1 Cons] unfolding sched_inv_def queue_ok_def by blast
    ultimately show ?thesis by (simp add: drive Cons)
  next
    case Nil
    have idle: "\<not> runnable s1 p" for p
      using s1 Nil by (auto simp: sched_inv_def queue_ok_def on_stack_def)
    have ids: "Option.bind (s_processes s1 p) p_error = None" if "s_nextId s1 \<le> p" for p
      using s1 that by (cases "s_processes s1 p") (auto simp: sched_inv_def ids_ok_def)
    show ?thesis
    proof (cases "s_timeouts s1")
      case (Cons x ts)
      obtain d e where x: "x = (d, e)" by (cases x)
      have "sorted (map fst (s_timeouts s1))"
        using s1 by (simp add: sched_inv_def timeouts_ok_def)
      moreover have "now < d"
        using fireExpired_head [of now s d e ts] Cons by (simp add: s1_def x)
      ultimately show ?thesis
        using idle by (auto simp: drive Nil Cons x)
    next
      case no_timeouts: Nil
      show ?thesis
      proof (cases "firstProcessError s1")
        case None
        then have "Option.bind (s_processes s1 p) p_error = None" for p
          using ids by (cases "p < s_nextId s1")
            (auto simp: firstProcessError_def map_filter_none split: list.splits)
        then show ?thesis using None idle by (simp add: drive Nil no_timeouts)
      next
        case (Some e)
        then obtain es where "List.map_filter (\<lambda>p. Option.bind (s_processes s1 p) p_error) [0..<s_nextId s1] = e # es"
          by (auto simp: firstProcessError_def split: list.splits)
        from map_filter_upt [OF this] show ?thesis
          using Some idle by (auto simp: drive Nil no_timeouts)
      qed
    qed
  qed
qed

theorem drive_decision_witness: "on_stack (snd (driveStep 0 0 start)) 0 \<and> runnable (snd (driveStep 0 0 start)) 0"
proof -
  have "fst (driveStep 0 0 start) = Resumed 0"
    by (simp add: sched_eval)
  then show ?thesis
    using drive_decision [OF start_reachable [of "\<lambda>_ _ _. Inr UnitValue"] start_values(1), where target = 0 and now = 0]
    by (simp add: split_beta)
qed

text \<open>
  C12: a wait is ended by its timeout only by the driving loop, and only when the deadline of
  that very wait has passed; the entries earlier waits have left behind never end it.
\<close>

theorem wait_is_not_cut_short:
  assumes "reachable invoke s" "step invoke e s = Some s'"
    and "s_processes s p = Some proc" "p_activity proc = Waiting w" "\<not> p_wokeByTimeout proc"
    and "s_processes s' p = Some proc'" "p_wokeByTimeout proc'"
  shows "\<exists>target now d. e = Drive target now \<and> w_deadline w = Some d \<and> d \<le> now"
  using step_successor [OF reachable_inv [OF assms(1)] assms(2,3)] assms(4-7)
  by (auto simp: successor_def expired_successor_def)

text \<open>
  C10: a receive takes the first message of the mailbox that it accepts, leaves the others in
  their order, and touches no other process; it blocks exactly when it accepts none, with the
  mailbox as it was.
\<close>

theorem receive_takes_first:
  assumes reach: "reachable invoke s" and f: "s_frame s = Some f"
    and me: "s_processes s (s_current s) = Some proc"
  shows "case beginWait accepts deadline s of (r, s') \<Rightarrow>
    (case r of
       Received m \<Rightarrow> (\<exists>earlier later. p_mailbox proc = earlier @ m # later \<and>
           list_all (\<lambda>x. \<not> accepts x) earlier \<and> accepts m \<and>
           map_option p_mailbox (s_processes s' (s_current s)) = Some (earlier @ later) \<and> on_stack s' (s_current s))
     | Suspended \<Rightarrow> list_all (\<lambda>x. \<not> accepts x) (p_mailbox proc) \<and> s_frame s' = None \<and>
         map_option p_mailbox (s_processes s' (s_current s)) = Some (p_mailbox proc) \<and>
         map_option p_blockedOnReceive (s_processes s' (s_current s)) = Some True
     | TimedOut \<Rightarrow> False) \<and>
    s_processes s'|` (- {s_current s}) = s_processes s |` (- {s_current s})"
proof -
  have cur: "f_pid f = s_current s"
    using current_runs [OF reachable_inv [OF reach] f] by metis
  define s' where "s' = snd (beginWait accepts deadline s)"
  have result: "beginWait accepts deadline s =
      (case takeFirst accepts (p_mailbox proc) of Some (m, _) \<Rightarrow> (Received m, s') | None \<Rightarrow> (Suspended, s'))"
    using me by (simp add: s'_def beginWait_def beginWaitFor_def waitLoop_def Let_def split: option.split prod.split)
  show ?thesis
  proof (cases "takeFirst accepts (p_mailbox proc)")
    case (Some mr)
    obtain m rest where "mr = (m, rest)" by fastforce
    with Some have take: "takeFirst accepts (p_mailbox proc) = Some (m, rest)" by simp
    have "map_option p_mailbox (s_processes s' (s_current s)) = Some rest" "on_stack s' (s_current s)"
        "s_processes s' |` (- {s_current s}) = s_processes s |` (- {s_current s})"
      using cur f by (simp_all add: s'_def beginWait_def beginWaitFor_unfold [OF me] take on_stack_def restrict_map_def fun_eq_iff)
    with takeFirst_Some [OF take] show ?thesis
      unfolding result take by auto
  next
    case None
    then have "list_all (\<lambda>x. \<not> accepts x) (p_mailbox proc)" by (simp add: takeFirst_None)
    moreover have "s_frame s' = None" "map_option p_mailbox (s_processes s' (s_current s)) = Some (p_mailbox proc)"
        "map_option p_blockedOnReceive (s_processes s' (s_current s)) = Some True"
        "s_processes s' |` (- {s_current s}) = s_processes s |` (- {s_current s})"
      using cur f by (simp_all add: s'_def beginWait_def beginWaitFor_unfold [OF me] None suspend_process restrict_map_def fun_eq_iff
          split: option.split)
    ultimately show ?thesis
      unfolding result None by simp
  qed
qed

theorem receive_takes_first_witness:
  "case beginWait (\<lambda>_. True) None rooted of (r, s') \<Rightarrow> r = Suspended \<and> s_frame s' = None"
proof -
  have "takeFirst (\<lambda>_. True) [] = None" by simp
  then show ?thesis
    using receive_takes_first [OF rooted_reachable [of "\<lambda>_ _ _. Inr UnitValue"] rooted_values(1),
        where accepts = "\<lambda>_. True" and deadline = None]
    by (auto simp: rooted_values fresh_process_def split: prod.splits outcome.splits)
qed

text \<open>
  C11: a message sent to a live process is put at the end of its mailbox and leaves the process
  able to run - it is never lost while its receiver sleeps; a message to a process that has
  finished or never existed changes nothing, and the sender is told.
\<close>

theorem send_delivers:
  assumes "reachable invoke s"
  shows "if isAlive s p
         then fst (send p v s) \<and> runnable (snd (send p v s)) p \<and>
           (p \<in> set (s_ready (snd (send p v s))) \<or> on_stack (snd (send p v s)) p) \<and>
           map_option p_mailbox (s_processes (snd (send p v s)) p) = map_option (\<lambda>q. p_mailbox q @ [v]) (s_processes s p)
         else send p v s = (False, s)"
proof (cases "isAlive s p")
  case True
  have "runnable (snd (send p v s)) p"
    using True by (auto simp: isAlive_def runnable_def send_def Let_def split: option.splits)
  moreover have "p \<in> set (s_ready (snd (send p v s))) \<or> on_stack (snd (send p v s)) p"
    using calculation send_inv [OF reachable_inv [OF assms], of p v] unfolding sched_inv_def queue_ok_def by blast
  ultimately show ?thesis
    using True by (auto simp: isAlive_def send_def Let_def split: option.splits)
qed (auto simp: isAlive_def send_def split: option.splits)

theorem send_delivers_witness:
  "map_option p_mailbox (s_processes (snd (send 0 UnitValue start)) 0) = Some [UnitValue] \<and> send 7 UnitValue start = (False, start)"
  using send_delivers [OF start_reachable [of "\<lambda>_ _ _. Inr UnitValue"], of 0 UnitValue]
    send_delivers [OF start_reachable [of "\<lambda>_ _ _. Inr UnitValue"], of 7 UnitValue]
  by (simp add: isAlive_def start_values fresh_process_def)

lemma takeFirst_first:
  "list_all (\<lambda>y. \<not> p y) earlier \<Longrightarrow> p m \<Longrightarrow> takeFirst p (earlier @ m # later) = Some (m, earlier @ later)"
  by (induction earlier) auto

lemma acceptsTask_shape:
  "acceptsTask task x \<Longrightarrow> \<exists>tag y. x = TupleValue [AtomValue ''task_result'', IntValue (of_nat task), TupleValue [AtomValue tag, y]]"
proof -
  assume a: "acceptsTask task x"
  then obtain es where x: "x = TupleValue es" by (cases x) (simp_all add: acceptsTask_def)
  obtain p es1 where 1: "es = p # es1" using a by (cases es) (simp_all add: acceptsTask_def x)
  obtain tag where 2: "p = AtomValue tag" using a by (cases p) (simp_all add: acceptsTask_def x 1)
  obtain q es2 where 3: "es1 = q # es2" using a by (cases es1) (simp_all add: acceptsTask_def x 1 2)
  obtain i where 4: "q = IntValue i" using a by (cases q) (simp_all add: acceptsTask_def x 1 2 3)
  obtain t es3 where 5: "es2 = t # es3" using a by (cases es2) (simp_all add: acceptsTask_def x 1 2 3 4)
  obtain ps where 6: "t = TupleValue ps" using a by (cases t) (simp_all add: acceptsTask_def x 1 2 3 4 5)
  obtain b ps1 where 7: "ps = b # ps1" using a by (cases ps) (simp_all add: acceptsTask_def x 1 2 3 4 5 6)
  obtain result where 8: "b = AtomValue result" using a by (cases b) (simp_all add: acceptsTask_def x 1 2 3 4 5 6 7)
  obtain y ps2 where 9: "ps1 = y # ps2" using a by (cases ps1) (simp_all add: acceptsTask_def x 1 2 3 4 5 6 7 8)
  have "ps2 = []" "es3 = []"
    using a by (cases ps2; cases es3; simp add: acceptsTask_def x 1 2 3 4 5 6 7 8 9)+
  with a show ?thesis by (simp add: acceptsTask_def x 1 2 3 4 5 6 7 8 9)
qed

lemma startTask_step:
  assumes "sched_inv s0" "step invoke (StartTask env) s0 = Some s1" "task = fst (startTask env s0)"
  shows "map_option p_spawner (s_processes s1 task) = Some (Some (s_current s0))" "s_current s0 \<noteq> task"
proof -
  obtain f where f: "s_frame s0 = Some f" "s1 = snd (startTask env s0)"
    using assms(2) by (auto simp: step_def act_def running_def split: if_splits option.splits)
  then show "map_option p_spawner (s_processes s1 task) = Some (Some (s_current s0))"
    using assms(3) by (simp add: startTask_def spawn_def add_process_def Let_def)
  obtain proc where "s_processes s0 (s_current s0) = Some proc"
    using current_runs [OF assms(1) f(1)] by metis
  then have "s_current s0 < s_nextId s0"
    using assms(1) by (auto simp: sched_inv_def ids_ok_def not_less [symmetric])
  then show "s_current s0 \<noteq> task" using assms(3) by (simp add: startTask_def spawn_def add_process_def Let_def)
qed

text \<open>A wait that an await of the task has begun and that is suspended.\<close>

definition awaiting :: "pid \<Rightarrow> wait \<Rightarrow> bool" where
  "awaiting task w \<longleftrightarrow> (\<exists>deadline t u q. awaitTaskMessage task deadline t = (Suspended, u) \<and>
     s_processes u (s_current t) = Some q \<and> p_activity q = Waiting w)"

lemma awaiting_wait:
  assumes "awaiting task w"
  shows "w_accepts w = acceptsTask task \<and> w_answer w = thirdElement"
proof -
  obtain deadline t u q where await: "awaitTaskMessage task deadline t = (Suspended, u)"
    and q: "s_processes u (s_current t) = Some q" "p_activity q = Waiting w"
    using assms by (auto simp: awaiting_def)
  obtain proc where me: "s_processes t (s_current t) = Some proc"
    using await by (auto simp: awaitTaskMessage_def beginWaitFor_def split: option.splits)
  have none: "takeFirst (acceptsTask task) (p_mailbox proc) = None"
    using await me by (auto simp: awaitTaskMessage_def beginWaitFor_def waitLoop_def Let_def split: option.splits prod.splits)
  have "u = snd (beginWaitFor thirdElement (acceptsTask task) deadline t)"
    using await by (simp add: awaitTaskMessage_def)
  then show ?thesis
    using q by (cases "s_frame t") (auto simp: beginWaitFor_unfold [OF me] none suspend_process suspend_def split: if_splits)
qed

lemma await_answers:
  assumes m: "m = TupleValue [AtomValue ''task_result'', IntValue (of_nat task), outcome]"
    and outcome: "outcome = TupleValue [AtomValue tag, v]" "tag \<in> {''task_done'', ''task_failed''}"
    and t: "s_processes t (s_current t) = Some q" "p_mailbox q = earlier @ m # later"
    and first: "\<forall>x\<in>set earlier. \<forall>tag y. x \<noteq> TupleValue [AtomValue ''task_result'', IntValue (of_nat task), TupleValue [AtomValue tag, y]]"
  shows "fst (awaitTaskMessage task deadline t) = Received outcome"
    and "map_option p_mailbox (s_processes (snd (awaitTaskMessage task deadline t)) (s_current t)) = Some (earlier @ later)"
    and "awaiting task w \<Longrightarrow> fst (waitLoop w t) = Received outcome"
proof -
  have "list_all (\<lambda>x. \<not> acceptsTask task x) earlier"
    unfolding list_all_iff using first acceptsTask_shape [of task] by blast
  moreover have "acceptsTask task m" using outcome(2) by (auto simp: acceptsTask_def m outcome(1))
  ultimately have "takeFirst (acceptsTask task) (earlier @ m # later) = Some (m, earlier @ later)"
    by (rule takeFirst_first)
  moreover have "thirdElement m = outcome" by (simp add: thirdElement_def m)
  ultimately show "fst (awaitTaskMessage task deadline t) = Received outcome"
    "map_option p_mailbox (s_processes (snd (awaitTaskMessage task deadline t)) (s_current t)) = Some (earlier @ later)"
    "awaiting task w \<Longrightarrow> fst (waitLoop w t) = Received outcome"
    using t awaiting_wait [of task w] by (simp_all add: awaitTaskMessage_def beginWaitFor_def waitLoop_def Let_def)
qed

text \<open>
  C13: a task's outcome reaches the process that started it.  Whatever happens after the start, when
  the task ends and the process that started it is alive, that process has
  \<open>(:task_result, task, outcome)\<close> as the last message of its mailbox and can run, where the outcome is
  \<open>(:task_done, value)\<close> for a task that returned and \<open>(:task_failed, "task failed")\<close> for one that
  threw; and an await of this task - begun when the message is there, or suspended before and scanning
  the mailbox again - answers that outcome when the message is the first of this task in the mailbox,
  and takes this message only.
\<close>

theorem task_outcome_reaches_spawner:
  assumes "reachable invoke s0" "step invoke (StartTask env) s0 = Some s1" "run invoke es s1 = Some (picks, s)"
    and "task = fst (startTask env s0)" "running s = Some Running" "s_current s = task" "isAlive s (s_current s0)"
  shows "let s' = completeTask r s;
      outcome = (case r of Inr v \<Rightarrow> TupleValue [AtomValue ''task_done'', v]
                         | Inl e \<Rightarrow> TupleValue [AtomValue ''task_failed'', StringValue ''task failed'']);
      m = TupleValue [AtomValue ''task_result'', IntValue (of_nat task), outcome]
    in step invoke (CompleteTask r) s = Some s' \<and> \<not> isAlive s' task \<and> runnable s' (s_current s0) \<and>
      map_option p_exitValue (s_processes s' task) = Some (Some outcome) \<and>
      map_option p_mailbox (s_processes s' (s_current s0)) =
        map_option (\<lambda>q. p_mailbox q @ [m]) (s_processes s (s_current s0)) \<and>
      (\<forall>t q earlier later. s_processes t (s_current t) = Some q \<and> p_mailbox q = earlier @ m # later \<and>
         (\<forall>x\<in>set earlier. \<forall>tag y. x \<noteq> TupleValue [AtomValue ''task_result'', IntValue (of_nat task), TupleValue [AtomValue tag, y]]) \<longrightarrow>
         (\<forall>deadline. fst (awaitTaskMessage task deadline t) = Received outcome \<and>
            map_option p_mailbox (s_processes (snd (awaitTaskMessage task deadline t)) (s_current t)) = Some (earlier @ later)) \<and>
         (\<forall>w. awaiting task w \<longrightarrow> fst (waitLoop w t) = Received outcome))"
proof -
  define outcome where "outcome = (case r of Inr v \<Rightarrow> TupleValue [AtomValue ''task_done'', v]
    | Inl e \<Rightarrow> TupleValue [AtomValue ''task_failed'', StringValue ''task failed''])"
  define m where "m = TupleValue [AtomValue ''task_result'', IntValue (of_nat task), outcome]"
  have inv: "sched_inv s0" "sched_inv s1" "sched_inv s"
    using reachable_inv [OF assms(1)] step_inv [OF _ assms(2)] run_inv [OF assms(3)] by blast+
  obtain proc where proc: "s_processes s task = Some proc" "p_spawner proc = Some (s_current s0)"
    using startTask_step(1) [OF inv(1) assms(2,4)] run_spawner [OF assms(3) inv(2), of task] by auto
  have other: "s_current s0 \<noteq> task" by (rule startTask_step(2) [OF inv(1) assms(2,4)])
  obtain f where f: "s_frame s = Some f" using assms(5) by (auto simp: running_def split: option.splits)
  have cur: "f_pid f = task" using current_runs [OF inv(3) f] assms(6) by metis
  have result: "taskOutcome r = outcome" "taskResult task outcome = m"
    by (simp_all add: taskOutcome_def outcome_def taskResult_def m_def split: sum.split)
  obtain tag v where tag: "outcome = TupleValue [AtomValue tag, v]" "tag \<in> {''task_done'', ''task_failed''}"
    by (cases r) (auto simp: outcome_def)
  have ended: "step invoke (CompleteTask r) s = Some (completeTask r s)"
    using assms(5) by (simp add: step_def act_def)
  have done_: "\<not> isAlive (completeTask r s) task \<and> runnable (completeTask r s) (s_current s0) \<and>
      map_option p_exitValue (s_processes (completeTask r s) task) = Some (Some outcome) \<and>
      map_option p_mailbox (s_processes (completeTask r s) (s_current s0)) =
        map_option (\<lambda>q. p_mailbox q @ [m]) (s_processes s (s_current s0))"
    using proc other f cur assms(6,7) result
    by (auto simp: Let_def completeTask_def send_def isAlive_def runnable_def suspend_process split: option.splits)
  have waits: "\<forall>t q earlier later. s_processes t (s_current t) = Some q \<and> p_mailbox q = earlier @ m # later \<and>
         (\<forall>x\<in>set earlier. \<forall>tag y. x \<noteq> TupleValue [AtomValue ''task_result'', IntValue (of_nat task), TupleValue [AtomValue tag, y]]) \<longrightarrow>
         (\<forall>deadline. fst (awaitTaskMessage task deadline t) = Received outcome \<and>
            map_option p_mailbox (s_processes (snd (awaitTaskMessage task deadline t)) (s_current t)) = Some (earlier @ later)) \<and>
         (\<forall>w. awaiting task w \<longrightarrow> fst (waitLoop w t) = Received outcome)"
  proof (intro allI impI)
    fix t :: Scheduler and q earlier later
    assume h: "s_processes t (s_current t) = Some q \<and> p_mailbox q = earlier @ m # later \<and>
         (\<forall>x\<in>set earlier. \<forall>tag y. x \<noteq> TupleValue [AtomValue ''task_result'', IntValue (of_nat task), TupleValue [AtomValue tag, y]])"
    note t = m_def tag conjunct1 [OF h] conjunct1 [OF conjunct2 [OF h]] conjunct2 [OF conjunct2 [OF h]]
    show "(\<forall>deadline. fst (awaitTaskMessage task deadline t) = Received outcome \<and>
            map_option p_mailbox (s_processes (snd (awaitTaskMessage task deadline t)) (s_current t)) = Some (earlier @ later)) \<and>
         (\<forall>w. awaiting task w \<longrightarrow> fst (waitLoop w t) = Received outcome)"
      by (intro conjI allI impI await_answers [OF t])
  qed
  show ?thesis
    unfolding Let_def outcome_def [symmetric] m_def [symmetric] by (rule conjI [OF ended]) (use done_ waits in \<open>simp only: simp_thms\<close>)
qed

lemmas run_eval = sched_eval step_def running_def act_def spawn_def startTask_def beginWait_def beginWaitFor_def awaitTaskMessage_def waitLoop_def
  continueLoop_def send_def suspend_def update_process_def finish_def picked_def firstProcessError_def

theorem task_outcome_reaches_spawner_witness:
  "let s1 = snd (startTask 0 rooted); s = snd (driveStep 0 0 (snd (awaitTaskMessage 1 None s1)));
       s' = completeTask (Inr UnitValue) s
   in runnable s' 0 \<and>
      map_option p_mailbox (s_processes s' 0) =
        Some [TupleValue [AtomValue ''task_result'', IntValue 1, TupleValue [AtomValue ''task_done'', UnitValue]]]"
proof -
  let ?invoke = "\<lambda>_ _ _. Inr UnitValue"
  let ?s1 = "snd (startTask 0 rooted)"
  let ?s = "snd (driveStep 0 0 (snd (awaitTaskMessage 1 None ?s1)))"
  have start: "step ?invoke (StartTask 0) rooted = Some ?s1" by (simp add: step_def rooted_values act_def)
  have run: "run ?invoke [AwaitTask 1 None, Drive 0 0] ?s1 = Some ([1], ?s)" by (simp add: run_eval)
  have s: "1 = fst (startTask 0 rooted)" "running ?s = Some Running" "s_current ?s = 1" "isAlive ?s (s_current rooted)"
    "map_option p_mailbox (s_processes ?s 0) = Some []"
    by (simp_all add: run_eval isAlive_def)
  show ?thesis
    using task_outcome_reaches_spawner [OF rooted_reachable start run s(1-4), of "Inr UnitValue"] s(5)
    by (auto simp: Let_def rooted_values)
qed

theorem wait_is_not_cut_short_witness:
  "let s = snd (beginWait (\<lambda>_. False) (Some 5) rooted)
   in map_option p_wokeByTimeout (s_processes (snd (driveStep 0 6 s)) 0) = Some True \<and>
      (\<exists>target now d. Drive 0 6 = Drive target now \<and> Some (5 :: int) = Some d \<and> d \<le> now)"
proof -
  let ?invoke = "\<lambda>_ _ _. Inr UnitValue"
  let ?s = "snd (beginWait (\<lambda>_. False) (Some 5) rooted)"
  have reach: "reachable ?invoke ?s"
    by (rule reachable.stepped [OF rooted_reachable, of _ "Receive (\<lambda>_. False) (Some 5)"])
       (simp add: step_def rooted_values act_def)
  have step: "step ?invoke (Drive 0 6) ?s = Some (snd (driveStep 0 6 ?s))"
    by (simp add: run_eval)
  obtain p w p' where "s_processes ?s 0 = Some p" "p_activity p = Waiting w" "\<not> p_wokeByTimeout p"
      "w_deadline w = Some 5" "s_processes (snd (driveStep 0 6 ?s)) 0 = Some p'" "p_wokeByTimeout p'"
    by (simp add: run_eval fireTimeout_def)
  with wait_is_not_cut_short [OF reach step this(1-3,5,6)] show ?thesis
    by (simp add: Let_def)
qed

section \<open>Supervisors\<close>

text \<open>A round of a supervisor changes nothing while its children live.\<close>

lemma superviseRound_keeps_live:
  "\<forall>(i, p)\<in>set children. p \<noteq> 0 \<longrightarrow> isAlive s p \<Longrightarrow> superviseRound callBlock children s = (children, s)"
  by (induction children) auto

section \<open>Deadlines\<close>

text \<open>
  The deadline of a receive is computed in 64 bits: a timeout above some 292 years of milliseconds
  does not fit the nanoseconds of the clock, which the model shows as a number above \<open>2 ^ 63\<close>.
\<close>

lemma receive_deadline_out_of_range:
  "receiveDeadline 0 (Some (IntValue 0x7FFFFFFFFFFFFFFF)) = Some d \<Longrightarrow> 2 ^ 63 < d"
  by (auto simp: receiveDeadline_def)

section \<open>A deadline that is lost\<close>

text \<open>
  The entry of a wait is put into the table once.  When it expires while its process is already
  in the ready queue, woken by a message the wait does not accept, the entry is discarded; the
  process then blocks again without an entry, and its timeout never happens.  Here the root
  waits with deadline 5 for a message that never comes, is sent another one, and the entry
  expires before the root is resumed: at time 8 the scheduler reports a deadlock.
\<close>

lemma deadline_can_be_lost:
  "\<exists>s. run (\<lambda>_ _ _. Inr UnitValue)
         [Drive 0 0, Spawn 1, Receive (\<lambda>v. False) (Some 5), Drive 0 1, Send 0 UnitValue, Exit None None,
          Drive 0 7, Continue] start = Some ([0, 1, 0], s) \<and>
       fst (driveStep 0 8 s) = Deadlock \<and>
       (\<exists>proc w. s_processes s 0 = Some proc \<and> p_activity proc = Waiting w \<and> w_deadline w = Some 5)"
  by (simp add: run_eval fireTimeout_def)

end
