(* ===== verification/Types.thy ===== *)
theory Types
  imports KexPrelude Values "HOL-Library.Multiset"
begin

text \<open>
  The checker's types (\<open>src/semantic/types.hxx\<close>, \<open>types.cxx\<close>): the type algebra, its printed
  form, the reflected form \<open>structuredTypeOf\<close>, equality, and the normalising constructors of
  intersections and records.  \<open>NullPtr\<close> is the null \<open>TypePtr\<close>.
\<close>

section \<open>Types\<close>

datatype PrimitiveKind = K_Integer | K_Char | K_String | K_Bool | K_Atom | K_Unit

datatype Type =
    PrimitiveType PrimitiveKind string
  | SizedIntType int bool
  | SizedFloatType int
  | NamedType string "Type list"
  | FuncType "Type list" Type bool
  | TupleType "Type list"
  | ListType Type
  | MapType Type Type
  | OptionalType Type
  | UnionType "Type list"
  | IntersectionType "Type list"
  | RecordType "(string \<times> Type) list"
  | TypeVar int
  | UnknownType
  | VoidType string
  | ConstrainedType string string int
  | NullPtr

lemma size_snd [termination_simp]: "f \<in> set fs \<Longrightarrow> size (snd f) < Suc (size_list (size_prod (\<lambda>_. 0) size) fs)"
  by (induction fs) auto

lemma size_field [termination_simp]: "(n, t) \<in> set fs \<Longrightarrow> size t < Suc (size_list (size_prod (\<lambda>_. 0) size) fs)"
  by (induction fs) auto

section \<open>Printing\<close>

definition isPrimitiveTypeName :: "string \<Rightarrow> bool" where
  "isPrimitiveTypeName name \<longleftrightarrow> name \<in> set
     [''Integer'', ''Int'', ''Float'', ''Number'', ''String'', ''Char'', ''Bool'',
      ''Atom'', ''Void'', ''Any'', ''Byte'', ''Int8'', ''Int16'', ''Int32'', ''Int64'',
      ''UInt8'', ''UInt16'', ''UInt32'', ''UInt64'', ''Float32'', ''Float64'',
      ''Tuple'', ''Block'']"

definition primitiveName :: "PrimitiveKind \<Rightarrow> string \<Rightarrow> string" where
  "primitiveName k atomName =
     (case k of K_Integer \<Rightarrow> ''Integer'' | K_Char \<Rightarrow> ''Char'' | K_String \<Rightarrow> ''String'' | K_Bool \<Rightarrow> ''Bool''
      | K_Atom \<Rightarrow> if atomName = [] then ''Atom'' else '':'' @ atomName
      | K_Unit \<Rightarrow> ''Void'')"

definition sizedIntName :: "int \<Rightarrow> bool \<Rightarrow> string" where
  "sizedIntName bits isSigned =
     (if \<not> isSigned then
        if bits = 8 then ''Byte'' else if bits = 16 then ''UInt16''
        else if bits = 32 then ''UInt32'' else if bits = 64 then ''UInt64'' else ''?''
      else
        if bits = 8 then ''Int8'' else if bits = 16 then ''Int16''
        else if bits = 32 then ''Int32'' else if bits = 64 then ''Int'' else ''?'')"

definition sizedFloatName :: "int \<Rightarrow> string" where
  "sizedFloatName bits = (if bits = 32 then ''Float32'' else if bits = 64 then ''Float64'' else ''?'')"

definition typeVarName :: "int \<Rightarrow> string" where
  "typeVarName i = (if i < 0 then [char_of (65 + nat ((- i - 1) mod 26))] else ''T'' @ to_string i)"

fun isFunc :: "Type \<Rightarrow> bool" where
  "isFunc (FuncType _ _ _) = True"
| "isFunc _ = False"

definition parenthesised :: "Type \<Rightarrow> string \<Rightarrow> string" where
  "parenthesised t s = (if isFunc t then ''('' @ s @ '')'' else s)"

fun typeToString :: "Type \<Rightarrow> string" where
  "typeToString NullPtr = ''?''"
| "typeToString (PrimitiveType k atomName) = primitiveName k atomName"
| "typeToString (SizedIntType bits isSigned) = sizedIntName bits isSigned"
| "typeToString (SizedFloatType bits) = sizedFloatName bits"
| "typeToString (NamedType name args) =
     name @ (if args = [] then [] else ''<'' @ joinWith '', '' (map typeToString args) @ ''>'')"
| "typeToString (FuncType params result block) =
     (if block then ''Block<'' @ concat (map (\<lambda>p. typeToString p @ '', '') params) @ typeToString result @ ''>''
      else let resultText = parenthesised result (typeToString result) in
        if params = [] then ''() -> '' @ resultText
        else concat (map (\<lambda>p. parenthesised p (typeToString p) @ '' -> '') params) @ resultText)"
| "typeToString (TupleType es) = ''('' @ joinWith '', '' (map typeToString es) @ '')''"
| "typeToString (ListType e) = ''['' @ typeToString e @ '']''"
| "typeToString (MapType k v) = ''{'' @ typeToString k @ '': '' @ typeToString v @ ''}''"
| "typeToString (OptionalType t) = typeToString t @ ''?''"
| "typeToString (UnionType ms) = joinWith '' | '' (map typeToString ms)"
| "typeToString (IntersectionType ms) = joinWith '' & '' (map typeToString ms)"
| "typeToString (RecordType fs) =
     ''{'' @ joinWith '', '' (map (\<lambda>(n, t). n @ '': '' @ typeToString t) fs) @ ''}''"
| "typeToString (TypeVar i) = typeVarName i"
| "typeToString (VoidType _) = ''Never''"
| "typeToString (ConstrainedType var _ _) = var"
| "typeToString UnknownType = ''Unknown''"

section \<open>Reflection\<close>

datatype StructuredType = StructuredType string "StructuredType list" bool

fun sequence_opt :: "'a option list \<Rightarrow> 'a list option" where
  "sequence_opt [] = Some []"
| "sequence_opt (None # xs) = None"
| "sequence_opt (Some x # xs) = map_option (\<lambda>ys. x # ys) (sequence_opt xs)"

definition compound :: "string \<Rightarrow> StructuredType option list \<Rightarrow> StructuredType option" where
  \<comment> \<open>\<open>argsOf\<close> gives up at the first argument without an answer\<close>
  "compound name args = map_option (\<lambda>as. StructuredType name as True) (sequence_opt args)"

fun structuredTypeOf :: "Type \<Rightarrow> StructuredType option" where
  "structuredTypeOf (FuncType params result _) =
     compound ''Function'' (map structuredTypeOf params @ [structuredTypeOf result])"
| "structuredTypeOf (NamedType name args) = compound name (map structuredTypeOf args)"
| "structuredTypeOf (ListType e) = compound ''List'' [structuredTypeOf e]"
| "structuredTypeOf (OptionalType t) = compound ''Option'' [structuredTypeOf t]"
| "structuredTypeOf (MapType k v) = compound ''Map'' [structuredTypeOf k, structuredTypeOf v]"
| "structuredTypeOf (TupleType es) = compound ''Tuple'' (map structuredTypeOf es)"
| "structuredTypeOf (SizedIntType _ _) = Some (StructuredType ''Integer'' [] True)"
| "structuredTypeOf (SizedFloatType _) = Some (StructuredType ''Float'' [] True)"
| "structuredTypeOf (PrimitiveType k _) =
     Some (StructuredType (if k = K_Integer then ''Integer'' else typeToString (PrimitiveType k [])) [] True)"
| "structuredTypeOf (VoidType reason) = Some (StructuredType (typeToString (VoidType reason)) [] True)"
| "structuredTypeOf _ = None"

fun isFullyConcrete :: "Type \<Rightarrow> bool" where
  "isFullyConcrete NullPtr = False"
| "isFullyConcrete UnknownType = False"
| "isFullyConcrete (TypeVar _) = False"
| "isFullyConcrete (ConstrainedType _ _ _) = False"
| "isFullyConcrete (NamedType _ args) = list_all isFullyConcrete args"
| "isFullyConcrete (ListType e) = isFullyConcrete e"
| "isFullyConcrete (OptionalType t) = isFullyConcrete t"
| "isFullyConcrete (MapType k v) = (isFullyConcrete k \<and> isFullyConcrete v)"
| "isFullyConcrete (TupleType es) = list_all isFullyConcrete es"
| "isFullyConcrete (UnionType ms) = list_all isFullyConcrete ms"
| "isFullyConcrete (IntersectionType ms) = list_all isFullyConcrete ms"
| "isFullyConcrete (RecordType fs) = list_all (\<lambda>(_, t). isFullyConcrete t) fs"
| "isFullyConcrete (FuncType params result _) = (list_all isFullyConcrete params \<and> isFullyConcrete result)"
| "isFullyConcrete _ = True"

section \<open>Equality\<close>

fun isUnit :: "Type \<Rightarrow> bool" where
  "isUnit (PrimitiveType k _) = (k = K_Unit)"
| "isUnit (TupleType es) = (es = [])"
| "isUnit _ = False"

definition isQualified :: "string \<Rightarrow> bool" where
  "isQualified name \<longleftrightarrow> CHR ''.'' \<in> set name"

definition namedTypesMatch :: "string \<Rightarrow> string \<Rightarrow> bool" where
  "namedTypesMatch a b =
     (if a = b then True
      else if isQualified a = isQualified b then False
      else let full = (if isQualified a then a else b); bare = (if isQualified a then b else a);
               at = length full - length bare in
        length full > length bare + 1 \<and> drop at full = bare \<and> full ! (at - 1) = CHR ''.'')"

text \<open>
  \<open>same\<close> answers whether two pointers are one object, which \<open>typesEqual\<close> takes for equal
  without looking.
\<close>

function typesEqual :: "(Type \<Rightarrow> Type \<Rightarrow> bool) \<Rightarrow> Type \<Rightarrow> Type \<Rightarrow> bool"
  and kindsEqual :: "(Type \<Rightarrow> Type \<Rightarrow> bool) \<Rightarrow> Type \<Rightarrow> Type \<Rightarrow> bool"
  and allTypesEqual :: "(Type \<Rightarrow> Type \<Rightarrow> bool) \<Rightarrow> Type list \<Rightarrow> Type list \<Rightarrow> bool"
  and pairAll :: "(Type \<Rightarrow> Type \<Rightarrow> bool) \<Rightarrow> Type list \<Rightarrow> Type list \<Rightarrow> bool list \<Rightarrow> bool"
  and pairOff :: "(Type \<Rightarrow> Type \<Rightarrow> bool) \<Rightarrow> Type \<Rightarrow> Type list \<Rightarrow> bool list \<Rightarrow> bool list option"
  and rowsEqual :: "(Type \<Rightarrow> Type \<Rightarrow> bool) \<Rightarrow> (string \<times> Type) list \<Rightarrow> (string \<times> Type) list \<Rightarrow> bool"
where
  "typesEqual same a b =
     (if a = NullPtr \<or> b = NullPtr then False
      else if same a b then True
      else if isUnit a \<and> isUnit b then True
      else kindsEqual same a b)"
| "kindsEqual same (PrimitiveType k _) b = (case b of PrimitiveType k' _ \<Rightarrow> k = k' | _ \<Rightarrow> False)"
| "kindsEqual same (SizedIntType n s) b = (case b of SizedIntType n' s' \<Rightarrow> n = n' \<and> s = s' | _ \<Rightarrow> False)"
| "kindsEqual same (SizedFloatType n) b = (case b of SizedFloatType n' \<Rightarrow> n = n' | _ \<Rightarrow> False)"
| "kindsEqual same (NamedType name args) b =
     (case b of NamedType name' args' \<Rightarrow>
        namedTypesMatch name name' \<and> length args = length args' \<and> allTypesEqual same args args' | _ \<Rightarrow> False)"
| "kindsEqual same (FuncType params result block) b =
     (case b of FuncType params' result' block' \<Rightarrow>
        block = block' \<and> length params = length params' \<and> allTypesEqual same params params' \<and>
        typesEqual same result result' | _ \<Rightarrow> False)"
| "kindsEqual same (ListType e) b = (case b of ListType e' \<Rightarrow> typesEqual same e e' | _ \<Rightarrow> False)"
| "kindsEqual same (TupleType es) b =
     (case b of TupleType es' \<Rightarrow> length es = length es' \<and> allTypesEqual same es es' | _ \<Rightarrow> False)"
| "kindsEqual same (MapType k v) b =
     (case b of MapType k' v' \<Rightarrow> typesEqual same k k' \<and> typesEqual same v v' | _ \<Rightarrow> False)"
| "kindsEqual same (OptionalType t) b = (case b of OptionalType t' \<Rightarrow> typesEqual same t t' | _ \<Rightarrow> False)"
| "kindsEqual same (TypeVar i) b = (case b of TypeVar i' \<Rightarrow> i = i' | _ \<Rightarrow> False)"
| "kindsEqual same (VoidType _) b = (case b of VoidType _ \<Rightarrow> True | _ \<Rightarrow> False)"
| "kindsEqual same (ConstrainedType var trait _) b =
     (case b of ConstrainedType var' trait' _ \<Rightarrow> var = var' \<and> trait = trait' | _ \<Rightarrow> False)"
| "kindsEqual same (UnionType ms) b =
     (case b of UnionType ms' \<Rightarrow> length ms = length ms' \<and> pairAll same ms ms' (replicate (length ms') False)
      | _ \<Rightarrow> False)"
| "kindsEqual same (IntersectionType ms) b =
     (case b of IntersectionType ms' \<Rightarrow> length ms = length ms' \<and> pairAll same ms ms' (replicate (length ms') False)
      | _ \<Rightarrow> False)"
| "kindsEqual same (RecordType fs) b =
     (case b of RecordType gs \<Rightarrow> length fs = length gs \<and> rowsEqual same fs gs | _ \<Rightarrow> False)"
| "kindsEqual same UnknownType b = False"
| "kindsEqual same NullPtr b = False"
| "allTypesEqual same (x # xs) (y # ys) = (typesEqual same x y \<and> allTypesEqual same xs ys)"
| "allTypesEqual same [] ys = True"
| "allTypesEqual same (x # xs) [] = True"
| "pairAll same [] ys paired = True"
| "pairAll same (x # xs) ys paired =
     (case pairOff same x ys paired of None \<Rightarrow> False | Some paired' \<Rightarrow> pairAll same xs ys paired')"
| "pairOff same x [] paired = None"
| "pairOff same x (y # ys) paired =
     (if \<not> hd paired \<and> typesEqual same x y then Some (True # tl paired)
      else map_option (\<lambda>ps. hd paired # ps) (pairOff same x ys (tl paired)))"
| "rowsEqual same [] gs = True"
| "rowsEqual same ((name, t) # fs) gs =
     (case map_of gs name of None \<Rightarrow> False | Some u \<Rightarrow> typesEqual same t u \<and> rowsEqual same fs gs)"
  by pat_completeness auto
termination
  by (relation "inv_image (less_than <*lex*> less_than)
        (case_sum (case_sum (\<lambda>(same, a, b). (2 * size a + 1, 0))
                  (case_sum (\<lambda>(same, a, b). (2 * size a, 0))
                            (\<lambda>(same, xs, ys). (2 * size_list size xs, 0))))
                  (case_sum (\<lambda>(same, xs, ys, ps). (2 * size_list size xs + 1, 0))
                  (case_sum (\<lambda>(same, x, ys, ps). (2 * size x + 2, length ys))
                            (\<lambda>(same, fs, gs). (2 * size_list (size_prod (\<lambda>_. 0) size) fs, 0)))))") auto

declare typesEqual.simps [simp del]

section \<open>Intersections and records\<close>

definition record_type :: "(string \<times> Type) list \<Rightarrow> Type" where
  \<comment> \<open>\<open>Type::record\<close>: a field of no type leaves no value\<close>
  "record_type fs = (if list_ex (\<lambda>(_, t). case t of VoidType _ \<Rightarrow> True | _ \<Rightarrow> False) fs then VoidType [] else RecordType fs)"

definition flattenMembers :: "Type list \<Rightarrow> Type list" where
  "flattenMembers ms = concat (map (\<lambda>m. case m of IntersectionType ns \<Rightarrow> ns | _ \<Rightarrow> [m]) ms)"

fun rowOf :: "Type \<Rightarrow> (string \<times> Type) list option" where
  "rowOf (RecordType fs) = Some fs"
| "rowOf _ = None"

definition rowFields :: "Type list \<Rightarrow> (string \<times> Type) list" where
  "rowFields ms = concat (List.map_filter rowOf ms)"

fun setField :: "string \<Rightarrow> Type \<Rightarrow> (string \<times> Type) list \<Rightarrow> (string \<times> Type) list" where
  "setField name t [] = []"
| "setField name t ((n, u) # fs) = (if n = name then (n, t) # fs else (n, u) # setField name t fs)"

definition conflicting :: "Type \<Rightarrow> Type \<Rightarrow> bool" where
  "conflicting a b =
     (case a of PrimitiveType k n \<Rightarrow> (case b of PrimitiveType k' n' \<Rightarrow>
          k \<noteq> k' \<or> (k = K_Atom \<and> n \<noteq> [] \<and> n' \<noteq> [] \<and> n \<noteq> n') | _ \<Rightarrow> False)
      | _ \<Rightarrow> False)"

fun isVoid :: "Type \<Rightarrow> bool" where
  "isVoid (VoidType _) = True"
| "isVoid _ = False"

fun normaliseMembers :: "(Type \<Rightarrow> Type \<Rightarrow> bool) \<Rightarrow> Type list \<Rightarrow> Type list \<Rightarrow> Type" where
  "normaliseMembers same [] acc =
     (case acc of [] \<Rightarrow> UnknownType | [t] \<Rightarrow> t | _ \<Rightarrow> IntersectionType acc)"
| "normaliseMembers same (m # ms) acc =
     (if isVoid m then VoidType []
      else if m = UnknownType then normaliseMembers same ms acc
      else if list_ex (\<lambda>e. conflicting e m) acc then VoidType []
      else if list_ex (\<lambda>e. typesEqual same e m) acc then normaliseMembers same ms acc
      else normaliseMembers same ms (acc @ [m]))"

definition meet :: "(Type \<Rightarrow> Type \<Rightarrow> bool) \<Rightarrow> Type list \<Rightarrow> (string \<times> Type) list \<Rightarrow> Type" where
  \<comment> \<open>the members that are no rows, then the merged row, normalised\<close>
  "meet same flattened row =
     normaliseMembers same (filter (\<lambda>m. rowOf m = None) flattened @ (if row = [] then [] else [record_type row])) []"

function intersection :: "(Type \<Rightarrow> Type \<Rightarrow> bool) \<Rightarrow> Type list \<Rightarrow> Type"
  and mergeFields :: "(Type \<Rightarrow> Type \<Rightarrow> bool) \<Rightarrow> (string \<times> Type) list \<Rightarrow> (string \<times> Type) list \<Rightarrow> (string \<times> Type) list"
where
  "intersection same ms = meet same (flattenMembers ms) (mergeFields same (rowFields (flattenMembers ms)) [])"
| "mergeFields same [] row = row"
| "mergeFields same ((name, t) # fs) row =
     (case map_of row name of
        None \<Rightarrow> mergeFields same fs (row @ [(name, t)])
      | Some old \<Rightarrow>
          if typesEqual same old t then mergeFields same fs row
          else mergeFields same fs (setField name (intersection same [old, t]) row))"
  by pat_completeness auto

text \<open>
  The weight of a type counts what an intersection can take apart; merging never adds to it,
  which is why \<open>Type::intersection\<close>, calling itself on types it has just built, returns.
\<close>

fun weight :: "Type \<Rightarrow> nat" where
  "weight (IntersectionType ms) = 1 + sum_list (map weight ms)"
| "weight (RecordType fs) = 1 + sum_list (map (\<lambda>f. 1 + weight (snd f)) fs)"
| "weight _ = 1"

abbreviation weights :: "Type list \<Rightarrow> nat" where
  "weights ms \<equiv> sum_list (map weight ms)"

abbreviation row_weight :: "(string \<times> Type) list \<Rightarrow> nat" where
  "row_weight fs \<equiv> sum_list (map (\<lambda>f. 1 + weight (snd f)) fs)"

lemma weight_pos: "0 < weight t"
  by (cases t) auto

lemma weights_flatten: "weights (flattenMembers ms) \<le> weights ms"
  by (induction ms) (auto simp: flattenMembers_def split: Type.split)

lemma weights_rows:
  "weights (filter (\<lambda>m. rowOf m = None) ms) + row_weight (rowFields ms) + length (List.map_filter rowOf ms) = weights ms"
proof (induction ms)
  case (Cons m ms)
  then show ?case by (cases m) (simp_all add: rowFields_def List.map_filter_def)
qed (simp add: rowFields_def List.map_filter_def)

lemma weight_normalise: "weight (normaliseMembers same ms acc) \<le> 1 + weights ms + weights acc"
proof (induction same ms acc rule: normaliseMembers.induct)
  case (1 same acc)
  then show ?case by (simp split: list.split)
next
  case (2 same m ms acc)
  then show ?case using weight_pos [of m] by auto
qed

lemma weight_record: "weight (record_type fs) \<le> 1 + row_weight fs"
  by (simp add: record_type_def)

lemma weight_meet:
  "weight (meet same ms row) \<le> 1 + weights (filter (\<lambda>m. rowOf m = None) ms) + (if row = [] then 0 else 1 + row_weight row)"
  using weight_normalise [of same "filter (\<lambda>m. rowOf m = None) ms @ (if row = [] then [] else [record_type row])" "[]"]
    weight_record [of row]
  by (auto simp: meet_def)

lemma row_weight_set:
  "map_of row name = Some old \<Longrightarrow> row_weight (setField name t row) + weight old = row_weight row + weight t"
  by (induction row) (auto split: if_splits)

lemma row_weight_old: "map_of row name = Some old \<Longrightarrow> weight old < row_weight row"
  by (induction row) (auto split: if_splits)

lemma rowFields_none: "List.map_filter rowOf ms = [] \<Longrightarrow> rowFields ms = []"
  by (simp add: rowFields_def)

lemma row_weight_0: "row_weight row = 0 \<longleftrightarrow> row = []"
  by (cases row) auto

lemma weight_bounds:
  "intersection_mergeFields_dom (Inl (same, ms)) \<Longrightarrow> weight (intersection same ms) \<le> 1 + weights ms"
  "intersection_mergeFields_dom (Inr (same, fs, row)) \<Longrightarrow>
     row_weight (mergeFields same fs row) \<le> row_weight fs + row_weight row"
proof (induction rule: intersection_mergeFields.pinduct)
  case (1 same ms)
  let ?f = "flattenMembers ms" and ?row = "mergeFields same (rowFields (flattenMembers ms)) []"
  have "weight (intersection same ms) = weight (meet same ?f ?row)"
    using 1(1) by (simp add: intersection.psimps)
  also have "\<dots> \<le> 1 + weights (filter (\<lambda>m. rowOf m = None) ?f) + (if ?row = [] then 0 else 1 + row_weight ?row)"
    by (rule weight_meet)
  also have "\<dots> \<le> 1 + weights ?f"
  proof (cases "List.map_filter rowOf ?f")
    case Nil
    then have "row_weight ?row = 0" using 1(2) rowFields_none by fastforce
    then have "?row = []" by (simp only: row_weight_0)
    then show ?thesis using weights_rows [of ?f] by simp
  next
    case (Cons r rs)
    then show ?thesis using 1(2) weights_rows [of ?f] by simp
  qed
  also have "\<dots> \<le> 1 + weights ms" using weights_flatten by simp
  finally show ?case .
next
  case (2 same row)
  then show ?case by (simp add: mergeFields.psimps)
next
  case (3 same name t fs row)
  show ?case
  proof (cases "map_of row name")
    case None
    then show ?thesis using 3 by (simp add: mergeFields.psimps)
  next
    case (Some old)
    show ?thesis
    proof (cases "typesEqual same old t")
      case True
      then show ?thesis using 3(1) 3(3) [OF Some True] Some by (simp add: mergeFields.psimps)
    next
      case False
      have "row_weight (mergeFields same fs (setField name (intersection same [old, t]) row)) \<le>
          row_weight fs + row_weight (setField name (intersection same [old, t]) row)"
        by (rule 3(5) [OF Some False])
      moreover have "weight (intersection same [old, t]) \<le> 1 + weight old + weight t"
        using 3(4) [OF Some False] by simp
      ultimately show ?thesis
        using 3(1) Some False row_weight_set [OF Some, of "intersection same [old, t]"]
        by (simp add: mergeFields.psimps)
    qed
  qed
qed

termination intersection
proof (relation "inv_image (less_than <*lex*> less_than)
    (case_sum (\<lambda>(same, ms). (weights ms, 1)) (\<lambda>(same, fs, row). (row_weight fs + row_weight row, length fs)))")
  fix same ms
  have "row_weight (rowFields (flattenMembers ms)) + length (List.map_filter rowOf (flattenMembers ms)) \<le> weights ms"
    using weights_rows [of "flattenMembers ms"] weights_flatten [of ms] by simp
  then show "(Inr (same, rowFields (flattenMembers ms), []), Inl (same, ms))
      \<in> inv_image (less_than <*lex*> less_than)
    (case_sum (\<lambda>(same, ms). (weights ms, 1)) (\<lambda>(same, fs, row). (row_weight fs + row_weight row, length fs)))"
    using rowFields_none [of "flattenMembers ms"]
    by (cases "List.map_filter rowOf (flattenMembers ms)") auto
next
  fix same t old and name :: string and fs row :: "(string \<times> Type) list"
  assume "map_of row name = Some old" "\<not> typesEqual same old t"
    and dom: "intersection_mergeFields_dom (Inl (same, [old, t]))"
  then show "(Inr (same, fs, setField name (intersection same [old, t]) row), Inr (same, (name, t) # fs, row))
      \<in> inv_image (less_than <*lex*> less_than)
    (case_sum (\<lambda>(same, ms). (weights ms, 1)) (\<lambda>(same, fs, row). (row_weight fs + row_weight row, length fs)))"
    using row_weight_set [of row name old "intersection same [old, t]"] weight_bounds(1) [OF dom]
    by auto
qed (auto dest: row_weight_old)

declare intersection.simps [simp del]

section \<open>Environments\<close>

type_synonym TypeEnv = "string \<Rightarrow> Type option"

definition TypeEnv_set :: "string \<Rightarrow> Type \<Rightarrow> TypeEnv \<Rightarrow> TypeEnv" where
  "TypeEnv_set name t env = env(name \<mapsto> t)"

definition TypeEnv_get :: "TypeEnv \<Rightarrow> string \<Rightarrow> Type" where
  "TypeEnv_get env name = (case env name of Some t \<Rightarrow> t | None \<Rightarrow> NullPtr)"

definition TypeEnv_has :: "TypeEnv \<Rightarrow> string \<Rightarrow> bool" where
  "TypeEnv_has env name \<longleftrightarrow> env name \<noteq> None"

end
