(* ===== verification/TypeLaws.thy ===== *)
theory TypeLaws
  imports Types
begin

text \<open>
  What the checker's type operations guarantee: which types are reflected, what equality of
  types decides, and exactly which type a normalised intersection is.
\<close>

section \<open>Reflection\<close>

fun reflectable :: "Type \<Rightarrow> bool" where
  "reflectable (NamedType _ args) = list_all reflectable args"
| "reflectable (ListType e) = reflectable e"
| "reflectable (OptionalType t) = reflectable t"
| "reflectable (MapType k v) = (reflectable k \<and> reflectable v)"
| "reflectable (TupleType es) = list_all reflectable es"
| "reflectable (FuncType params result _) = (list_all reflectable params \<and> reflectable result)"
| "reflectable (UnionType _) = False"
| "reflectable (IntersectionType _) = False"
| "reflectable (RecordType _) = False"
| "reflectable _ = True"

lemma sequence_opt_None: "sequence_opt xs = None \<longleftrightarrow> None \<in> set xs"
  by (induction xs rule: sequence_opt.induct) auto

lemma None_in_image: "None \<in> f ` A \<longleftrightarrow> (\<exists>x \<in> A. f x = None)"
  by force

lemma compound_None [simp]: "compound name xs = None \<longleftrightarrow> (\<exists>x \<in> set xs. x = None)"
  by (simp add: compound_def sequence_opt_None)

text \<open>
  C19: a type has a reflected form exactly when the checker knows it completely - no unknown,
  type variable or trait bound anywhere - and it holds no union, intersection or structural
  row, which have none.
\<close>

theorem reflection_is_of_known_types:
  "(structuredTypeOf t \<noteq> None) = (isFullyConcrete t \<and> reflectable t)"
  by (induction t rule: structuredTypeOf.induct) (auto simp: list_all_iff None_in_image)

lemma unit_reflected_twice:
  \<comment> \<open>two spellings of one type with two reflected forms\<close>
  "typesEqual same (PrimitiveType K_Unit []) (TupleType [])"
  "structuredTypeOf (PrimitiveType K_Unit []) = Some (StructuredType ''Void'' [] True)"
  "structuredTypeOf (TupleType []) = Some (StructuredType ''Tuple'' [] True)"
  by (simp_all add: typesEqual.simps primitiveName_def compound_def)

section \<open>Names\<close>

lemma namedTypesMatch_sym: "namedTypesMatch a b = namedTypesMatch b a"
  by (auto simp: namedTypesMatch_def Let_def)

lemma last_segment:
  "(length full > length bare + 1 \<and> drop (length full - length bare) full = bare \<and>
    full ! (length full - length bare - 1) = c) \<longleftrightarrow> (\<exists>m. m \<noteq> [] \<and> full = m @ c # bare)"
proof
  assume l: "length full > length bare + 1 \<and> drop (length full - length bare) full = bare \<and>
    full ! (length full - length bare - 1) = c"
  let ?i = "length full - length bare - 1"
  have "full = take ?i full @ full ! ?i # drop (Suc ?i) full"
    using l by (intro id_take_nth_drop) linarith
  moreover have "Suc ?i = length full - length bare" using l by linarith
  ultimately have "full = take ?i full @ c # bare" using l by metis
  moreover have "take ?i full \<noteq> []" using l by auto
  ultimately show "\<exists>m. m \<noteq> [] \<and> full = m @ c # bare" by blast
next
  assume "\<exists>m. m \<noteq> [] \<and> full = m @ c # bare"
  then show "length full > length bare + 1 \<and> drop (length full - length bare) full = bare \<and>
    full ! (length full - length bare - 1) = c"
    by (auto simp: nth_append)
qed

text \<open>
  Two names denote the same type when they are equal or one is the unqualified last
  segment of the other; two qualified names, and two unqualified ones, match only when equal.
\<close>

theorem names_match_by_last_segment:
  "namedTypesMatch a b = (a = b \<or> (\<not> isQualified b \<and> (\<exists>m. m \<noteq> [] \<and> a = m @ ''.'' @ b)) \<or>
     (\<not> isQualified a \<and> (\<exists>m. m \<noteq> [] \<and> b = m @ ''.'' @ a)))"
proof -
  have "isQualified (m @ CHR ''.'' # bare)" for m bare by (simp add: isQualified_def)
  then show ?thesis
    using last_segment [of b a "CHR ''.''"] last_segment [of a b "CHR ''.''"]
    by (cases "isQualified a"; cases "isQualified b") (auto simp: namedTypesMatch_def Let_def)
qed

lemma matching_is_not_transitive:
  "namedTypesMatch ''Tey.Manifest.Dependency'' ''Dependency''"
  "namedTypesMatch ''Dependency'' ''Tey.Lockfile.Dependency''"
  "\<not> namedTypesMatch ''Tey.Manifest.Dependency'' ''Tey.Lockfile.Dependency''"
  by (simp_all add: namedTypesMatch_def isQualified_def)

section \<open>Equality decides equality of normal forms\<close>

text \<open>
  The normal form forgets what equality does not look at: the literal of an atom type, the
  reason of \<open>Never\<close>, the generic of a bound, the order of the members of a union or an
  intersection and of the fields of a row, and the two spellings of the unit type.
\<close>

datatype normal =
    NPrimitive PrimitiveKind
  | NSizedInt int bool
  | NSizedFloat int
  | NNamed string "normal list"
  | NFunc "normal list" normal bool
  | NTuple "normal list"
  | NList normal
  | NMap normal normal
  | NOptional normal
  | NUnion "normal multiset"
  | NIntersection "normal multiset"
  | NRecord "(string \<times> normal) multiset"
  | NVar int
  | NUnknown
  | NVoid
  | NConstrained string string
  | NNull

fun norm :: "Type \<Rightarrow> normal" where
  "norm (PrimitiveType k _) = NPrimitive k"
| "norm (SizedIntType n s) = NSizedInt n s"
| "norm (SizedFloatType n) = NSizedFloat n"
| "norm (NamedType name args) = NNamed name (map norm args)"
| "norm (FuncType params result block) = NFunc (map norm params) (norm result) block"
| "norm (TupleType es) = (if es = [] then NPrimitive K_Unit else NTuple (map norm es))"
| "norm (ListType e) = NList (norm e)"
| "norm (MapType k v) = NMap (norm k) (norm v)"
| "norm (OptionalType t) = NOptional (norm t)"
| "norm (UnionType ms) = NUnion (mset (map norm ms))"
| "norm (IntersectionType ms) = NIntersection (mset (map norm ms))"
| "norm (RecordType fs) = NRecord (mset (map (\<lambda>f. (fst f, norm (snd f))) fs))"
| "norm (TypeVar i) = NVar i"
| "norm UnknownType = NUnknown"
| "norm (VoidType _) = NVoid"
| "norm (ConstrainedType var trait _) = NConstrained var trait"
| "norm NullPtr = NNull"

fun typeNames :: "Type \<Rightarrow> string list" where
  "typeNames (NamedType name args) = name # concat (map typeNames args)"
| "typeNames (FuncType params result _) = concat (map typeNames params) @ typeNames result"
| "typeNames (TupleType es) = concat (map typeNames es)"
| "typeNames (ListType e) = typeNames e"
| "typeNames (MapType k v) = typeNames k @ typeNames v"
| "typeNames (OptionalType t) = typeNames t"
| "typeNames (UnionType ms) = concat (map typeNames ms)"
| "typeNames (IntersectionType ms) = concat (map typeNames ms)"
| "typeNames (RecordType fs) = concat (map (\<lambda>f. typeNames (snd f)) fs)"
| "typeNames _ = []"

text \<open>
  A known type: no unknown and no null pointer in it, and no row that gives a label twice.
\<close>

fun known :: "Type \<Rightarrow> bool" where
  "known (NamedType name args) = list_all known args"
| "known (FuncType params result _) = (list_all known params \<and> known result)"
| "known (TupleType es) = list_all known es"
| "known (ListType e) = known e"
| "known (MapType k v) = (known k \<and> known v)"
| "known (OptionalType t) = known t"
| "known (UnionType ms) = list_all known ms"
| "known (IntersectionType ms) = list_all known ms"
| "known (RecordType fs) = (distinct (map fst fs) \<and> list_all (\<lambda>f. known (snd f)) fs)"
| "known UnknownType = False"
| "known NullPtr = False"
| "known _ = True"

definition rigid :: "string set \<Rightarrow> bool" where
  \<comment> \<open>no name of the set is an unqualified spelling of another\<close>
  "rigid N \<longleftrightarrow> (\<forall>a \<in> N. \<forall>b \<in> N. namedTypesMatch a b \<longrightarrow> a = b)"

definition over :: "string set \<Rightarrow> Type \<Rightarrow> bool" where
  "over N t \<longleftrightarrow> known t \<and> set (typeNames t) \<subseteq> N"

fun unpaired :: "Type list \<Rightarrow> bool list \<Rightarrow> normal multiset" where
  "unpaired (y # ys) (p # ps) = (if p then {#} else {#norm y#}) + unpaired ys ps"
| "unpaired _ _ = {#}"

lemma unpaired_fresh: "unpaired ys (replicate (length ys) False) = mset (map norm ys)"
  by (induction ys) auto


lemma over_simps [simp]:
  "over N (NamedType name args) \<longleftrightarrow> name \<in> N \<and> list_all (over N) args"
  "over N (FuncType params result block) \<longleftrightarrow> list_all (over N) params \<and> over N result"
  "over N (TupleType es) \<longleftrightarrow> list_all (over N) es"
  "over N (ListType e) \<longleftrightarrow> over N e"
  "over N (MapType k v) \<longleftrightarrow> over N k \<and> over N v"
  "over N (OptionalType t) \<longleftrightarrow> over N t"
  "over N (UnionType ms) \<longleftrightarrow> list_all (over N) ms"
  "over N (IntersectionType ms) \<longleftrightarrow> list_all (over N) ms"
  "over N (RecordType fs) \<longleftrightarrow> distinct (map fst fs) \<and> list_all (\<lambda>f. over N (snd f)) fs"
  "\<not> over N UnknownType" "\<not> over N NullPtr"
  by (auto simp: over_def list_all_iff)

definition field_norm :: "string \<times> Type \<Rightarrow> string \<times> normal" where
  "field_norm f = (fst f, norm (snd f))"

lemma norm_record: "norm (RecordType fs) = NRecord (mset (map field_norm fs))"
  by (simp add: field_norm_def [abs_def])

lemma rows_mset:
  assumes "distinct (map fst fs)" "distinct (map fst gs)" "length fs = length gs"
  shows "field_norm ` set fs \<subseteq> field_norm ` set gs \<longleftrightarrow> mset (map field_norm fs) = mset (map field_norm gs)"
proof -
  have d: "distinct (map field_norm hs)" if "distinct (map fst hs)" for hs
    using that by (auto simp: distinct_map inj_on_def field_norm_def)
  have "card (field_norm ` set fs) = card (field_norm ` set gs)"
    using d [OF assms(1)] d [OF assms(2)] assms(3) by (metis distinct_card length_map set_map)
  then have "field_norm ` set fs \<subseteq> field_norm ` set gs \<longleftrightarrow> set (map field_norm fs) = set (map field_norm gs)"
    using card_subset_eq [of "field_norm ` set gs" "field_norm ` set fs"] by auto
  also have "\<dots> \<longleftrightarrow> mset (map field_norm fs) = mset (map field_norm gs)"
    by (rule set_eq_iff_mset_eq_distinct [OF d [OF assms(1)] d [OF assms(2)]])
  finally show ?thesis .
qed

lemma members_mset:
  "length xs = length ys \<Longrightarrow> mset (map norm xs) \<subseteq># mset (map norm ys) \<longleftrightarrow> mset (map norm xs) = mset (map norm ys)"
  using mset_subset_size [of "mset (map norm xs)" "mset (map norm ys)"] by (auto simp: subset_mset.le_less)

lemma same_size: "mset (map norm xs) = mset (map norm ys) \<Longrightarrow> length xs = length ys"
  by (drule mset_eq_length) simp

lemma same_rows: "mset (map field_norm xs) = mset (map field_norm ys) \<Longrightarrow> length xs = length ys"
  by (drule mset_eq_length) simp

lemma namedTypesMatch_refl [simp]: "namedTypesMatch a a"
  by (simp add: namedTypesMatch_def)

lemma map_of_field_norm:
  assumes "distinct (map fst gs)"
  shows "(name, norm t) \<in> field_norm ` set gs \<longleftrightarrow> (case map_of gs name of None \<Rightarrow> False | Some u \<Rightarrow> norm t = norm u)"
proof (cases "map_of gs name")
  case None
  then have "name \<notin> fst ` set gs" by (simp add: map_of_eq_None_iff)
  then show ?thesis using None by (auto simp: field_norm_def rev_image_eqI)
next
  case (Some u)
  then have "(name, v) \<in> set gs \<longleftrightarrow> v = u" for v
    using assms by (metis map_of_SomeD map_of_is_SomeI option.inject)
  then show ?thesis using Some by (force simp: field_norm_def)
qed

lemma typesEqual_norm_all:
  assumes rigid: "rigid N" and same: "\<forall>a b. same a b \<longrightarrow> a = b"
  shows "over N a \<longrightarrow> over N b \<longrightarrow> typesEqual same a b = (norm a = norm b)"
    and "over N a \<longrightarrow> over N b \<longrightarrow> \<not> (isUnit a \<and> isUnit b) \<longrightarrow> kindsEqual same a b = (norm a = norm b)"
    and "list_all (over N) xs \<longrightarrow> list_all (over N) ys \<longrightarrow> length xs = length ys \<longrightarrow>
      allTypesEqual same xs ys = (map norm xs = map norm ys)"
    and "list_all (over N) xs \<longrightarrow> list_all (over N) ys \<longrightarrow> length paired = length ys \<longrightarrow>
      pairAll same xs ys paired = (mset (map norm xs) \<subseteq># unpaired ys paired)"
    and "over N a \<longrightarrow> list_all (over N) ys \<longrightarrow> length paired = length ys \<longrightarrow>
      (case pairOff same a ys paired of
         None \<Rightarrow> norm a \<notin># unpaired ys paired
       | Some paired' \<Rightarrow> length paired' = length ys \<and> unpaired ys paired = add_mset (norm a) (unpaired ys paired'))"
    and "list_all (\<lambda>f. over N (snd f)) fs \<longrightarrow> list_all (\<lambda>f. over N (snd f)) gs \<longrightarrow> distinct (map fst gs) \<longrightarrow>
      rowsEqual same fs gs = (field_norm ` set fs \<subseteq> field_norm ` set gs)"
  using same
proof (induction same a b and same a b and same xs ys and same xs ys paired and same a ys paired and same fs gs
    rule: typesEqual_kindsEqual_allTypesEqual_pairAll_pairOff_rowsEqual.induct)
  case (1 same a b)
  show ?case
  proof (intro impI)
    assume o: "over N a" "over N b"
    have same_norm: "same a b \<longrightarrow> norm a = norm b" using 1(2) by auto
    from o have "a \<noteq> NullPtr" "b \<noteq> NullPtr" by auto
    moreover have "norm a = norm b" if "isUnit a" "isUnit b"
      using that by (cases a; cases b) auto
    ultimately show "typesEqual same a b = (norm a = norm b)"
      using o 1 same_norm by (auto simp: typesEqual.simps)
  qed
next
  case (5 same name args b)
  have "namedTypesMatch name name' = (name = name')" if "name \<in> N" "name' \<in> N" for name'
    using that rigid by (auto simp: rigid_def)
  then show ?case using 5 by (auto split: Type.splits dest: map_eq_imp_length_eq)
next
  case (2 same k atomName b)
  then show ?case by (auto split: Type.splits dest: map_eq_imp_length_eq)
next
  case (3 same n s b)
  then show ?case by (auto split: Type.splits dest: map_eq_imp_length_eq)
next
  case (4 same n b)
  then show ?case by (auto split: Type.splits dest: map_eq_imp_length_eq)
next
  case (6 same params result block b)
  then show ?case by (auto split: Type.splits dest: map_eq_imp_length_eq)
next
  case (7 same e b)
  then show ?case by (auto split: Type.splits dest: map_eq_imp_length_eq)
next
  case (8 same es b)
  then show ?case by (auto split: Type.splits dest: map_eq_imp_length_eq)
next
  case (9 same k v b)
  then show ?case by (auto split: Type.splits dest: map_eq_imp_length_eq)
next
  case (10 same t b)
  then show ?case by (auto split: Type.splits dest: map_eq_imp_length_eq)
next
  case (11 same i b)
  then show ?case by (auto split: Type.splits dest: map_eq_imp_length_eq)
next
  case (12 same reason b)
  then show ?case by (auto split: Type.splits dest: map_eq_imp_length_eq)
next
  case (13 same var trait g b)
  then show ?case by (auto split: Type.splits dest: map_eq_imp_length_eq)
next
  case (14 same ms b)
  show ?case
  proof (cases b)
    case (UnionType ms')
    show ?thesis
    proof (cases "length ms = length ms'")
      case True
      then show ?thesis
        using 14 UnionType members_mset [OF True] by (simp add: unpaired_fresh)
    next
      case False
      then show ?thesis using same_size [of ms ms'] by (auto simp: UnionType)
    qed
  qed auto
next
  case (15 same ms b)
  show ?case
  proof (cases b)
    case (IntersectionType ms')
    show ?thesis
    proof (cases "length ms = length ms'")
      case True
      then show ?thesis
        using 15 IntersectionType members_mset [OF True] by (simp add: unpaired_fresh)
    next
      case False
      then show ?thesis using same_size [of ms ms'] by (auto simp: IntersectionType)
    qed
  qed auto
next
  case (16 same fs b)
  show ?case
  proof (cases b)
    case (RecordType gs)
    show ?thesis
    proof (cases "length fs = length gs")
      case True
      then show ?thesis
        using 16 RecordType rows_mset [OF _ _ True] by (auto simp: norm_record simp del: norm.simps(12))
    next
      case False
      then show ?thesis
        using same_rows [of fs gs] by (auto simp: RecordType norm_record simp del: norm.simps(12))
    qed
  qed auto
next
  case (17 same b)
  then show ?case by simp
next
  case (18 same b)
  then show ?case by simp
next
  case (19 same x xs y ys)
  then show ?case by auto
next
  case (20 same ys)
  then show ?case by simp
next
  case (21 same x xs)
  then show ?case by simp
next
  case (22 same ys paired)
  then show ?case by simp
next
  case (23 same x xs ys paired)
  show ?case
  proof (cases "pairOff same x ys paired")
    case None
    then show ?thesis using 23 by (auto dest: mset_subset_eqD)
  next
    case (Some paired')
    then show ?thesis using 23 by auto
  qed
next
  case (24 same x paired)
  then show ?case by simp
next
  case (25 same x y ys paired)
  show ?case
  proof (cases paired)
    case (Cons p ps)
    then show ?thesis using 25 by (auto split: option.splits)
  qed simp
next
  case (26 same gs)
  then show ?case by simp
next
  case (27 same name t fs gs)
  have found: "over N u" if "map_of gs name = Some u" "list_all (\<lambda>f. over N (snd f)) gs" for u
    using map_of_SomeD [OF that(1)] that(2) by (auto simp: list_all_iff)
  have here: "field_norm (name, t) = (name, norm t)" by (simp add: field_norm_def)
  show ?case
  proof (cases "map_of gs name")
    case None
    then show ?thesis using map_of_field_norm [of gs name t] here by auto
  next
    case (Some u)
    then show ?thesis
      using 27 map_of_field_norm [of gs name t] here found by auto
  qed
qed

text \<open>
  C17: equality of types decides equality of normal forms, whatever objects the pointers share:
  it is an equivalence relation, looks at unions and intersections as multisets, at rows as
  sets of fields, and not at atom literals, the reason of \<open>Never\<close> or the generic of a bound -
  on known types whose names are written either all qualified or all the same way.
\<close>

theorem equality_is_of_normal_forms:
  assumes "rigid N" "over N a" "over N b" "\<And>x y. same x y \<Longrightarrow> x = y"
  shows "typesEqual same a b = (norm a = norm b)"
  using typesEqual_norm_all(1) [OF assms(1)] assms(2-4) by blast

theorem equality_is_of_normal_forms_witness:
  "typesEqual (\<lambda>_ _. False) (UnionType [PrimitiveType K_Atom ''a'', ListType (NamedType ''A.T'' [])])
     (UnionType [ListType (NamedType ''A.T'' []), PrimitiveType K_Atom ''b''])"
  using equality_is_of_normal_forms [of "{''A.T''}" "UnionType [PrimitiveType K_Atom ''a'', ListType (NamedType ''A.T'' [])]"
      "UnionType [ListType (NamedType ''A.T'' []), PrimitiveType K_Atom ''b'']" "\<lambda>_ _. False"]
  by (simp add: rigid_def over_def add_mset_commute)

text \<open>
  Without the condition on names a union is not compared as a set: the first member that
  matches is taken, and a different order of the same members changes the answer.
\<close>

lemma union_order_matters:
  "typesEqual (\<lambda>_ _. False) (UnionType [NamedType ''T'' [], NamedType ''A.T'' []]) (UnionType [NamedType ''B.T'' [], NamedType ''A.T'' []])"
  "\<not> typesEqual (\<lambda>_ _. False) (UnionType [NamedType ''T'' [], NamedType ''A.T'' []]) (UnionType [NamedType ''A.T'' [], NamedType ''B.T'' []])"
  by (simp_all add: typesEqual.simps namedTypesMatch_def isQualified_def numeral_2_eq_2)

lemma unknown_is_not_equal_to_itself: "\<not> typesEqual (\<lambda>_ _. False) UnknownType UnknownType"
  by (simp add: typesEqual.simps)

section \<open>Normalised intersections\<close>

text \<open>
  What an intersection has to be, from its members alone: what it is made of once nested
  intersections are opened, which of these no value can satisfy together, and what the rows among
  them require of a label.
\<close>

definition parts :: "Type list \<Rightarrow> Type list" where
  "parts ms = concat (map (\<lambda>m. case m of IntersectionType ns \<Rightarrow> ns | _ \<Rightarrow> [m]) ms)"

definition clash :: "Type \<Rightarrow> Type \<Rightarrow> bool" where
  \<comment> \<open>two kinds of primitive, or two atoms\<close>
  "clash a b \<longleftrightarrow> (\<exists>k n k' n'. a = PrimitiveType k n \<and> b = PrimitiveType k' n' \<and>
     (k \<noteq> k' \<or> k = K_Atom \<and> n \<noteq> [] \<and> n' \<noteq> [] \<and> n \<noteq> n'))"

definition rowTypes :: "Type list \<Rightarrow> string \<Rightarrow> Type list" where
  "rowTypes ps l = concat (map (\<lambda>p. case p of RecordType fs \<Rightarrow> map snd (filter (\<lambda>f. fst f = l) fs) | _ \<Rightarrow> []) ps)"

definition meetField :: "(Type \<Rightarrow> Type \<Rightarrow> bool) \<Rightarrow> Type \<Rightarrow> Type \<Rightarrow> Type" where
  "meetField same old t = (if typesEqual same old t then old else intersection same [old, t])"

definition meetAll :: "(Type \<Rightarrow> Type \<Rightarrow> bool) \<Rightarrow> Type list \<Rightarrow> Type option" where
  "meetAll same ts = (case ts of [] \<Rightarrow> None | t # us \<Rightarrow> Some (foldl (meetField same) t us))"

definition ofMembers :: "Type list \<Rightarrow> Type" where
  "ofMembers ms = (case ms of [] \<Rightarrow> UnknownType | [t] \<Rightarrow> t | _ \<Rightarrow> IntersectionType ms)"

lemma flattenMembers_parts: "flattenMembers ms = parts ms"
  by (simp add: flattenMembers_def parts_def)

lemma clash_conflicting: "clash a b = conflicting a b"
  by (auto simp: clash_def conflicting_def split: Type.split)

lemma clash_sym: "clash a b = clash b a"
  by (auto simp: clash_def)

lemma isVoid_iff: "isVoid t \<longleftrightarrow> (\<exists>why. t = VoidType why)"
  by (cases t) auto

lemma equal_primitive:
  assumes "typesEqual same e (PrimitiveType k n)" "\<And>a b. same a b \<Longrightarrow> a = b" "e \<noteq> TupleType []"
  shows "\<exists>n'. e = PrimitiveType k n'"
proof (cases "same e (PrimitiveType k n)")
  case True
  then show ?thesis using assms(2) by blast
next
  case False
  then show ?thesis using assms(1,3) by (cases e) (auto simp: typesEqual.simps split: if_splits)
qed

lemma equal_row:
  assumes "typesEqual same e (RecordType fs)" "\<And>a b. same a b \<Longrightarrow> a = b"
  shows "rowOf e \<noteq> None"
proof (cases "same e (RecordType fs)")
  case True
  then show ?thesis using assms(2) by fastforce
next
  case False
  then show ?thesis using assms(1) by (cases e) (auto simp: typesEqual.simps split: if_splits)
qed

lemma normalise_void:
  assumes "\<exists>m\<in>set ms. isVoid m"
  shows "normaliseMembers same ms acc = VoidType []"
  using assms by (induction ms arbitrary: acc) auto

text \<open>A clash is found whatever the order, unless a member that clashes was dropped for an equal one.\<close>

lemma normalise_clash:
  assumes "\<And>a b. same a b \<Longrightarrow> a = b"
    and "p \<in> set acc \<union> set ms" "q \<in> set ms" "clash p q"
    and "\<forall>p\<in>set acc \<union> set ms. p \<noteq> TupleType [] \<and> p \<noteq> PrimitiveType K_Atom []"
  shows "normaliseMembers same ms acc = VoidType []"
  using assms(2-)
proof (induction ms arbitrary: acc p q)
  case (Cons m ms)
  show ?case
  proof (cases "isVoid m \<or> m = UnknownType \<or> list_ex (\<lambda>e. conflicting e m) acc")
    case True
    moreover have "p \<noteq> UnknownType" "q \<noteq> UnknownType" using Cons.prems(3) by (auto simp: clash_def)
    ultimately show ?thesis using Cons.prems by (auto intro!: Cons.IH [of p acc q])
  next
    case False
    then have m: "\<not> isVoid m" "m \<noteq> UnknownType" "\<not> list_ex (\<lambda>e. conflicting e m) acc" by auto
    show ?thesis
    proof (cases "list_ex (\<lambda>e. typesEqual same e m) acc")
      case True
      then obtain e where e: "e \<in> set acc" "typesEqual same e m" by (auto simp: list_ex_iff)
      have apart: "\<not> clash e m" using m(3) e(1) by (auto simp: list_ex_iff clash_conflicting)
      have e': "e \<noteq> TupleType []" "e \<noteq> PrimitiveType K_Atom []" "m \<noteq> PrimitiveType K_Atom []" using Cons.prems(4) e(1) by auto
      have same_clash: "clash e x" if "clash m x" for x
      proof -
        from that obtain k n where "m = PrimitiveType k n" by (auto simp: clash_def)
        moreover from this equal_primitive [of same e k n] e(2) assms(1) e'(1) obtain n' where "e = PrimitiveType k n'" by auto
        ultimately show ?thesis using that apart e'(2,3) by (auto simp: clash_def)
      qed
      have dropped: "normaliseMembers same (m # ms) acc = normaliseMembers same ms acc" using m True by simp
      consider "p = m" "q \<in> set ms" | "q = m" "p \<in> set ms" | "q = m" "p \<in> set acc" | "p = m" "q = m"
        | "p \<in> set acc \<union> set ms" "q \<in> set ms" using Cons.prems(1,2) by auto
      then show ?thesis
      proof cases
        case 1
        then show ?thesis unfolding dropped
          by (intro Cons.IH [of e acc q]) (use e(1) same_clash Cons.prems(3,4) in auto)
      next
        case 2
        then show ?thesis unfolding dropped
          by (intro Cons.IH [of e acc p]) (use e(1) same_clash Cons.prems(3,4) clash_sym in auto)
      next
        case 3
        then show ?thesis using m(3) Cons.prems(3) by (auto simp: list_ex_iff clash_conflicting)
      next
        case 4
        then show ?thesis using Cons.prems(3) by (auto simp: clash_def)
      next
        case 5
        then show ?thesis unfolding dropped by (intro Cons.IH [of p acc q]) (use Cons.prems(3,4) in auto)
      qed
    next
      case False
      then have kept: "normaliseMembers same (m # ms) acc = normaliseMembers same ms (acc @ [m])" using m by simp
      show ?thesis
      proof (cases "q \<in> set ms")
        case True
        then show ?thesis unfolding kept by (intro Cons.IH [of p _ q]) (use Cons.prems in auto)
      next
        case False
        then have "q = m" using Cons.prems(2) by simp
        moreover from this have "p \<in> set ms"
          using Cons.prems(1,3) m(3) by (auto simp: list_ex_iff clash_conflicting [symmetric]) (auto simp: clash_def)
        ultimately show ?thesis unfolding kept by (intro Cons.IH [of q _ p]) (use Cons.prems clash_sym in auto)
      qed
    qed
  qed
qed simp

lemma normalise_members:
  assumes "\<forall>p\<in>set ms. \<not> isVoid p" "\<forall>p\<in>set acc \<union> set ms. \<forall>q\<in>set ms. \<not> clash p q" "sorted_wrt (\<lambda>a b. \<not> typesEqual same a b) acc"
  shows "\<exists>members. normaliseMembers same ms acc = ofMembers members \<and>
    set acc \<subseteq> set members \<and> set members \<subseteq> set acc \<union> (set ms - {UnknownType}) \<and>
    (\<forall>p\<in>set ms - {UnknownType}. \<exists>m\<in>set members. m = p \<or> typesEqual same m p) \<and>
    sorted_wrt (\<lambda>a b. \<not> typesEqual same a b) members"
  using assms
proof (induction ms arbitrary: acc)
  case Nil
  then show ?case by (intro exI [of _ acc]) (simp add: ofMembers_def)
next
  case (Cons m ms)
  have open_: "\<not> list_ex (\<lambda>e. conflicting e m) acc" using Cons.prems(2) by (auto simp: list_ex_iff clash_conflicting)
  show ?case
  proof (cases "m = UnknownType \<or> list_ex (\<lambda>e. typesEqual same e m) acc")
    case True
    then have dropped: "normaliseMembers same (m # ms) acc = normaliseMembers same ms acc"
      using Cons.prems(1) open_ by auto
    have "m = UnknownType \<or> (\<exists>e\<in>set acc. typesEqual same e m)" using True by (auto simp: list_ex_iff)
    moreover obtain members where "normaliseMembers same ms acc = ofMembers members" "set acc \<subseteq> set members"
      "set members \<subseteq> set acc \<union> (set ms - {UnknownType})"
      "\<forall>p\<in>set ms - {UnknownType}. \<exists>m\<in>set members. m = p \<or> typesEqual same m p"
      "sorted_wrt (\<lambda>a b. \<not> typesEqual same a b) members"
      using Cons.IH [of acc] Cons.prems by auto
    ultimately show ?thesis unfolding dropped by (intro exI [of _ members]) auto
  next
    case False
    then have kept: "normaliseMembers same (m # ms) acc = normaliseMembers same ms (acc @ [m])"
      using Cons.prems(1) open_ by auto
    have "sorted_wrt (\<lambda>a b. \<not> typesEqual same a b) (acc @ [m])"
      using Cons.prems(3) False by (auto simp: sorted_wrt_append list_ex_iff)
    then obtain members where "normaliseMembers same ms (acc @ [m]) = ofMembers members" "set (acc @ [m]) \<subseteq> set members"
      "set members \<subseteq> set (acc @ [m]) \<union> (set ms - {UnknownType})"
      "\<forall>p\<in>set ms - {UnknownType}. \<exists>m\<in>set members. m = p \<or> typesEqual same m p"
      "sorted_wrt (\<lambda>a b. \<not> typesEqual same a b) members"
      using Cons.IH [of "acc @ [m]"] Cons.prems(1,2) by auto
    then show ?thesis unfolding kept using False by (intro exI [of _ members]) auto
  qed
qed

lemma setField_labels [simp]: "map fst (setField name t row) = map fst row"
  by (induction row) auto

lemma mergeFields_labels:
  "(ms :: Type list) = ms"
  "distinct (map fst row) \<Longrightarrow> distinct (map fst (mergeFields same fs row)) \<and>
     set (map fst (mergeFields same fs row)) = set (map fst fs) \<union> set (map fst row)"
proof (induction same ms and same fs row rule: intersection_mergeFields.induct)
  case (3 same name t fs row)
  show ?case
  proof (cases "map_of row name")
    case None
    then have "name \<notin> fst ` set row" by (simp add: map_of_eq_None_iff)
    then show ?thesis using 3(1) [OF None] 3(5) None by auto
  next
    case (Some old)
    then have mem: "name \<in> fst ` set row" by (metis map_of_eq_None_iff option.distinct(1))
    show ?thesis
    proof (cases "typesEqual same old t")
      case True
      then show ?thesis using 3(2) [OF Some True] 3(5) Some mem by auto
    next
      case False
      have "set (map fst (setField name u row)) = set (map fst row)" for u by (simp only: setField_labels)
      then show ?thesis using 3(4) [OF Some False] 3(5) Some False mem by auto
    qed
  qed
qed simp_all

text \<open>A merged row requires of every label what the rows require of it, met in their order.\<close>

lemma setField_of: "map_of (setField name t row) l = (if l = name \<and> map_of row l \<noteq> None then Some t else map_of row l)"
  by (induction row) auto

lemma mergeFields_of:
  "map_of (mergeFields same fs row) l =
     (let ts = map snd (filter (\<lambda>f. fst f = l) fs)
      in case map_of row l of None \<Rightarrow> meetAll same ts | Some old \<Rightarrow> Some (foldl (meetField same) old ts))"
proof (induction fs arbitrary: row)
  case Nil
  then show ?case by (simp add: meetAll_def split: option.split)
next
  case (Cons f fs)
  obtain name t where f: "f = (name, t)" by fastforce
  show ?case
  proof (cases "map_of row name")
    case None
    then show ?thesis
      using Cons [of "row @ [(name, t)]"] by (auto simp: f meetAll_def map_add_def split: option.splits)
  next
    case (Some old)
    let ?set = "setField name (intersection same [old, t]) row"
    have "mergeFields same (f # fs) row = (if typesEqual same old t then mergeFields same fs row else mergeFields same fs ?set)"
      using Some by (simp add: f)
    then show ?thesis
      using Cons [of row] Cons [of ?set] Some by (auto simp: f setField_of meetField_def Let_def split: option.splits)
  qed
qed

lemma rowTypes_fields: "map snd (filter (\<lambda>f. fst f = l) (rowFields ps)) = rowTypes ps l"
proof (induction ps)
  case (Cons p ps)
  then show ?case by (cases p) (simp_all add: rowFields_def rowTypes_def List.map_filter_def)
qed (simp add: rowFields_def rowTypes_def List.map_filter_def)

lemma void_field:
  "distinct (map fst row) \<Longrightarrow> list_ex (\<lambda>(_, t). isVoid t) row \<longleftrightarrow> (\<exists>l why. map_of row l = Some (VoidType why))"
  by (auto simp: list_ex_iff isVoid_iff map_of_eq_Some_iff)

lemma record_type_cases: "record_type fs = (if list_ex (\<lambda>(_, t). isVoid t) fs then VoidType [] else RecordType fs)"
proof -
  have "(case t of VoidType _ \<Rightarrow> True | _ \<Rightarrow> False) = isVoid t" for t by (cases t) auto
  then show ?thesis by (simp add: record_type_def)
qed

text \<open>
  C18: an intersection is the meet of its parts, its members with nested intersections opened.  It is
  \<open>Never\<close> exactly when a part is \<open>Never\<close>, two parts are primitives of different kinds or different
  atoms, or the types that rows require of one label meet in \<open>Never\<close>.  Otherwise it is unknown, its
  only member or the intersection of its members, where no member equals an earlier one, each is a
  part other than a row or unknown, or one row that requires of every label what the rows among the
  parts require of it, and each part that is neither a row nor unknown is or equals one of them.
  The parts are neither the atom type without a name nor the empty tuple, which hide a clash.
\<close>

theorem intersection_is_normal:
  assumes "\<And>a b. same a b \<Longrightarrow> a = b"
    and "PrimitiveType K_Atom [] \<notin> set (parts ms)" "TupleType [] \<notin> set (parts ms)"
  shows "if (\<exists>why. VoidType why \<in> set (parts ms)) \<or> (\<exists>p\<in>set (parts ms). \<exists>q\<in>set (parts ms). clash p q) \<or>
       (\<exists>l why. meetAll same (rowTypes (parts ms) l) = Some (VoidType why))
     then intersection same ms = VoidType []
     else \<exists>members row.
       intersection same ms = (case members of [] \<Rightarrow> UnknownType | [t] \<Rightarrow> t | _ \<Rightarrow> IntersectionType members) \<and>
       set members \<subseteq> {p \<in> set (parts ms). p \<noteq> UnknownType \<and> (\<forall>fs. p \<noteq> RecordType fs)} \<union>
         (if row = [] then {} else {RecordType row}) \<and>
       (\<forall>p\<in>set (parts ms). p \<noteq> UnknownType \<and> (\<forall>fs. p \<noteq> RecordType fs) \<longrightarrow> (\<exists>m\<in>set members. m = p \<or> typesEqual same m p)) \<and>
       (row \<noteq> [] \<longrightarrow> RecordType row \<in> set members) \<and>
       distinct (map fst row) \<and> (\<forall>l. map_of row l = meetAll same (rowTypes (parts ms) l)) \<and>
       sorted_wrt (\<lambda>a b. \<not> typesEqual same a b) members"
proof -
  let ?ps = "parts ms" and ?row = "mergeFields same (rowFields (parts ms)) []"
  let ?rest = "filter (\<lambda>m. rowOf m = None) ?ps" and ?rows = "if ?row = [] then [] else [record_type ?row]"
  have r: "intersection same ms = normaliseMembers same (?rest @ ?rows) []"
    by (simp only: intersection.simps meet_def flattenMembers_parts)
  have row: "distinct (map fst ?row)" "\<And>l. map_of ?row l = meetAll same (rowTypes ?ps l)"
    using mergeFields_labels(2) [of "[]" same "rowFields ?ps"] mergeFields_of [of same "rowFields ?ps" "[]"]
    by (simp_all add: rowTypes_fields Let_def)
  have rowOf: "rowOf m = None \<longleftrightarrow> (\<forall>fs. m \<noteq> RecordType fs)" for m by (cases m) auto
  have clash_parts: "clash p q \<Longrightarrow> rowOf p = None \<and> rowOf q = None" for p q by (auto simp: clash_def)
  let ?void = "list_ex (\<lambda>(_, t). isVoid t) ?row"
  have rows: "?rows = (if ?row = [] then [] else if ?void then [VoidType []] else [RecordType ?row])"
    by (simp add: record_type_cases)
  show ?thesis
  proof (cases "(\<exists>why. VoidType why \<in> set ?ps) \<or> (\<exists>p\<in>set ?ps. \<exists>q\<in>set ?ps. clash p q) \<or>
       (\<exists>l why. meetAll same (rowTypes ?ps l) = Some (VoidType why))")
    case True
    then consider why where "VoidType why \<in> set ?ps" | "?void" | p q where "p \<in> set ?ps" "q \<in> set ?ps" "clash p q"
      using void_field [OF row(1)] row(2) by auto
    then have "intersection same ms = VoidType []"
    proof cases
      case 1
      then show ?thesis unfolding r by (intro normalise_void) (auto simp: rowOf isVoid_iff intro!: bexI [of _ "VoidType why"])
    next
      case 2
      then show ?thesis unfolding r rows by (intro normalise_void) auto
    next
      case 3
      then have "p \<in> set ?rest" "q \<in> set ?rest" using clash_parts by auto
      moreover have "\<forall>p\<in>set (?rest @ ?rows). p \<noteq> TupleType [] \<and> p \<noteq> PrimitiveType K_Atom []"
        using assms(2,3) by (auto simp: rows)
      ultimately show ?thesis unfolding r by (intro normalise_clash [OF assms(1), of same p _ _ q]) (use 3(3) in auto)
    qed
    with True show ?thesis by simp
  next
    case False
    then have whole: "\<not> ?void" using void_field [OF row(1)] row(2) by auto
    then have wholeRow: "record_type ?row = RecordType ?row" by (simp add: record_type_cases)
    have "\<forall>p\<in>set ?ps. \<not> isVoid p" using False by (auto simp: isVoid_iff)
    then have "\<forall>p\<in>set (?rest @ ?rows). \<not> isVoid p" using whole by (simp add: rows)
    moreover have "\<forall>p\<in>set [] \<union> set (?rest @ ?rows). \<forall>q\<in>set (?rest @ ?rows). \<not> clash p q"
    proof -
      have "\<forall>p\<in>set ?ps. \<forall>q\<in>set ?ps. \<not> clash p q" using False by blast
      moreover have "\<not> clash p (RecordType fs)" "\<not> clash (RecordType fs) p" for p fs by (simp_all add: clash_def)
      ultimately show ?thesis using whole by (simp add: rows)
    qed
    ultimately obtain members where members: "normaliseMembers same (?rest @ ?rows) [] = ofMembers members"
      "set members \<subseteq> set (?rest @ ?rows) - {UnknownType}"
      "\<forall>p\<in>set (?rest @ ?rows) - {UnknownType}. \<exists>m\<in>set members. m = p \<or> typesEqual same m p"
      "sorted_wrt (\<lambda>a b. \<not> typesEqual same a b) members"
      using normalise_members [of "?rest @ ?rows" "[]" same] by auto
    have "RecordType ?row \<in> set members" if some: "?row \<noteq> []"
    proof -
      have "RecordType ?row \<in> set (?rest @ ?rows) - {UnknownType}" using some whole by (simp add: record_type_cases)
      with members(3) obtain m where m: "m \<in> set members" "m = RecordType ?row \<or> typesEqual same m (RecordType ?row)"
        by blast
      have "rowOf m \<noteq> None" using m(2) equal_row [of same m, OF _ assms(1)] by auto
      with m(1) members(2) wholeRow some show ?thesis by auto
    qed
    moreover have "set members \<subseteq> {p \<in> set ?ps. p \<noteq> UnknownType \<and> (\<forall>fs. p \<noteq> RecordType fs)} \<union>
        (if ?row = [] then {} else {RecordType ?row})"
      using members(2) wholeRow by (auto simp: rowOf)
    moreover have "\<forall>p\<in>set ?ps. p \<noteq> UnknownType \<and> (\<forall>fs. p \<noteq> RecordType fs) \<longrightarrow> (\<exists>m\<in>set members. m = p \<or> typesEqual same m p)"
      using members(3) by (simp add: rowOf)
    ultimately show ?thesis
      using row members(4) unfolding if_not_P [OF False] r members(1) ofMembers_def by blast
  qed
qed

theorem intersection_is_normal_witness:
  "intersection (\<lambda>_ _. False) [PrimitiveType K_Bool [], RecordType [(''a'', PrimitiveType K_Bool [])], PrimitiveType K_Char []] = VoidType []"
  using intersection_is_normal [of "\<lambda>_ _. False" "[PrimitiveType K_Bool [], RecordType [(''a'', PrimitiveType K_Bool [])], PrimitiveType K_Char []]"]
  by (simp add: parts_def clash_def)

text \<open>
  The two parts that are left out above.  The atom type without a name equals every atom and comes
  back instead of a narrower one that follows it; and what equals a member is dropped before it can
  clash, so that two atoms that exclude each other meet in \<open>Atom\<close> after it and in \<open>Never\<close> before it.
\<close>

lemma plain_atom_hides_a_clash:
  "intersection (\<lambda>_ _. False) [PrimitiveType K_Atom [], PrimitiveType K_Atom ''a'', PrimitiveType K_Atom ''b''] = PrimitiveType K_Atom []"
  "intersection (\<lambda>_ _. False) [PrimitiveType K_Atom ''a'', PrimitiveType K_Atom ''b'', PrimitiveType K_Atom []] = VoidType []"
  "intersection (\<lambda>_ _. False) [PrimitiveType K_Atom [], PrimitiveType K_Atom ''a''] = PrimitiveType K_Atom []"
  "intersection (\<lambda>_ _. False) [PrimitiveType K_Atom ''a'', PrimitiveType K_Atom []] = PrimitiveType K_Atom ''a''"
  by (simp_all add: intersection.simps flattenMembers_def rowFields_def List.map_filter_def meet_def conflicting_def typesEqual.simps)

lemma empty_tuple_hides_a_clash:
  "intersection (\<lambda>_ _. False) [TupleType [], PrimitiveType K_Unit [], PrimitiveType K_Bool []] =
     IntersectionType [TupleType [], PrimitiveType K_Bool []]"
  "intersection (\<lambda>_ _. False) [PrimitiveType K_Unit [], TupleType [], PrimitiveType K_Bool []] = VoidType []"
  by (simp_all add: intersection.simps flattenMembers_def rowFields_def List.map_filter_def meet_def conflicting_def typesEqual.simps)

end
