(* ===== verification/Traits.thy ===== *)
theory Traits
  imports Types
begin

text \<open>
  The trait registry of the checker (\<open>src/semantic/traits.hxx\<close>, \<open>traits.cxx\<close>): trait
  definitions, the types registered as implementing them, and which types satisfy a trait.
\<close>

section \<open>The registry\<close>

record Signature =
  sig_name :: string
  sig_params :: "Type list"
  sig_result :: Type
  sig_isFoul :: bool
  sig_requiredParams :: "nat option"
  sig_paramNames :: "string list"
  sig_makeModule :: string
  sig_declaringModule :: string

record TraitDef =
  td_name :: string
  td_requiredMethods :: "Signature list"
  td_defaultMethods :: "string list"

text \<open>
  The traits are a hash map: the list is the order in which it is iterated.  The traits of a
  type are a \<open>std::set\<close>, iterated in ascending order.
\<close>

record TraitRegistry =
  m_traits :: "(string \<times> TraitDef) list"
  m_implementations :: "string \<Rightarrow> string list option"

definition empty_registry :: TraitRegistry where
  "empty_registry = \<lparr>m_traits = [], m_implementations = (\<lambda>_. None)\<rparr>"

fun assign :: "'k \<Rightarrow> 'v \<Rightarrow> ('k \<times> 'v) list \<Rightarrow> ('k \<times> 'v) list" where
  "assign k v [] = [(k, v)]"
| "assign k v ((k', v') # es) = (if k' = k then (k, v) # es else (k', v') # assign k v es)"

definition define_trait :: "TraitDef \<Rightarrow> TraitRegistry \<Rightarrow> TraitRegistry" where
  "define_trait d reg = reg\<lparr>m_traits := assign (td_name d) d (m_traits reg)\<rparr>"

definition get_trait :: "TraitRegistry \<Rightarrow> string \<Rightarrow> TraitDef option" where
  "get_trait reg name = map_of (m_traits reg) name"

definition ends_with :: "string \<Rightarrow> string \<Rightarrow> bool" where
  "ends_with s suffix \<longleftrightarrow> length suffix \<le> length s \<and> drop (length s - length suffix) s = suffix"

fun lookup_loop :: "string \<Rightarrow> (string \<times> TraitDef) list \<Rightarrow> TraitDef option \<Rightarrow> TraitDef option" where
  "lookup_loop suffix [] found = found"
| "lookup_loop suffix ((name, d) # ts) found =
     (if length name > length suffix \<and> ends_with name suffix
      then (if found \<noteq> None then None else lookup_loop suffix ts (Some d))
      else lookup_loop suffix ts found)"

definition lookup_trait :: "TraitRegistry \<Rightarrow> string \<Rightarrow> TraitDef option" where
  "lookup_trait reg written =
     (case get_trait reg written of Some d \<Rightarrow> Some d
      | None \<Rightarrow> lookup_loop (''.'' @ written) (m_traits reg) None)"

definition implementations :: "TraitRegistry \<Rightarrow> string \<Rightarrow> string list" where
  "implementations reg key = (case m_implementations reg key of None \<Rightarrow> [] | Some ts \<Rightarrow> ts)"

definition registerImplementation :: "string \<Rightarrow> string \<Rightarrow> TraitRegistry \<Rightarrow> TraitRegistry" where
  "registerImplementation key traitName reg =
     reg\<lparr>m_implementations := (m_implementations reg)
           (key \<mapsto> insort_insert traitName (implementations reg key))\<rparr>"

definition hasConformances :: "TraitRegistry \<Rightarrow> string \<Rightarrow> bool" where
  "hasConformances reg key \<longleftrightarrow> m_implementations reg key \<noteq> None"

definition implementorKey :: "Type \<Rightarrow> string" where
  "implementorKey t = (case t of NamedType name _ \<Rightarrow> name | _ \<Rightarrow> typeToString t)"

section \<open>Conformance\<close>

definition kIntNames :: "string list" where
  "kIntNames = [''Int'', ''Integer'', ''Byte'', ''Int8'', ''Int16'', ''Int32'', ''Int64'',
     ''UInt8'', ''UInt16'', ''UInt32'', ''UInt64'']"

definition kFloatNames :: "string list" where
  "kFloatNames = [''Float'', ''Float32'', ''Float64'', ''Double'']"

definition isInt :: "Type \<Rightarrow> bool" where
  "isInt t = (case t of SizedIntType _ _ \<Rightarrow> True | PrimitiveType k _ \<Rightarrow> k = K_Integer
      | NamedType name _ \<Rightarrow> name \<in> set kIntNames | _ \<Rightarrow> False)"

definition isFloat :: "Type \<Rightarrow> bool" where
  "isFloat t = (case t of SizedFloatType _ \<Rightarrow> True | NamedType name _ \<Rightarrow> name \<in> set kFloatNames | _ \<Rightarrow> False)"

definition satisfiesStructurally :: "Type \<Rightarrow> string \<Rightarrow> bool" where
  "satisfiesStructurally t traitName =
     (if traitName = ''Integer'' then isInt t
      else if traitName = ''Float'' then isFloat t
      else if traitName = ''Number'' then isInt t \<or> isFloat t
      else False)"

definition isItself :: "TraitRegistry \<Rightarrow> Type \<Rightarrow> string \<Rightarrow> bool" where
  \<comment> \<open>a value already widened to the trait type\<close>
  "isItself reg t traitName =
     (case t of NamedType name _ \<Rightarrow> name = traitName \<and> get_trait reg traitName \<noteq> None | _ \<Rightarrow> False)"

definition isCompound :: "Type \<Rightarrow> bool" where
  "isCompound t = (case t of ListType _ \<Rightarrow> True | TupleType _ \<Rightarrow> True | OptionalType _ \<Rightarrow> True | MapType _ _ \<Rightarrow> True | _ \<Rightarrow> False)"

definition registered :: "TraitRegistry \<Rightarrow> Type \<Rightarrow> string \<Rightarrow> bool" where
  "registered reg t traitName \<longleftrightarrow>
     traitName \<in> set (implementations reg (implementorKey t)) \<or>
     (case t of ListType _ \<Rightarrow> traitName \<in> set (implementations reg ''List'')
      | MapType _ _ \<Rightarrow> traitName \<in> set (implementations reg ''Map'')
      | OptionalType _ \<Rightarrow> traitName \<in> set (implementations reg ''Optional'')
      | _ \<Rightarrow> False)"

fun satisfies :: "TraitRegistry \<Rightarrow> Type \<Rightarrow> string \<Rightarrow> bool" where
  "satisfies reg t traitName =
     (if t = NullPtr then False
      else if traitName = ''Inspectable'' \<or> traitName = ''Showable'' then True
      else if isItself reg t traitName then True
      else case t of
          ConstrainedType _ bound _ \<Rightarrow>
            bound = traitName \<or> (traitName = ''Number'' \<and> (bound = ''Integer'' \<or> bound = ''Float''))
        | UnionType ms \<Rightarrow> ms \<noteq> [] \<and> list_all (\<lambda>m. satisfies reg m traitName) ms
        | _ \<Rightarrow>
            if traitName = ''Number'' \<or> traitName = ''Integer'' \<or> traitName = ''Float''
            then satisfiesStructurally t traitName
            else if traitName = ''Equatable'' \<and> isCompound t then
              (case t of
                 ListType e \<Rightarrow> satisfies reg e traitName
               | TupleType es \<Rightarrow> list_all (\<lambda>e. satisfies reg e traitName) es
               | OptionalType e \<Rightarrow> satisfies reg e traitName
               | MapType k v \<Rightarrow> satisfies reg k traitName \<and> satisfies reg v traitName
               | _ \<Rightarrow> False)
            else registered reg t traitName)"

declare satisfies.simps [simp del]

definition declaresMethod :: "TraitRegistry \<Rightarrow> string \<Rightarrow> string \<Rightarrow> bool" where
  "declaresMethod reg type method \<longleftrightarrow>
     list_ex (\<lambda>traitName. case get_trait reg traitName of
         None \<Rightarrow> False
       | Some d \<Rightarrow> list_ex (\<lambda>r. sig_name r = method) (td_requiredMethods d) \<or> method \<in> set (td_defaultMethods d))
       (implementations reg type)"

definition kBuiltin :: "string list" where
  "kBuiltin = [''Number'', ''Integer'', ''Float'', ''Equatable'', ''Comparable'', ''Showable'',
     ''Blankable'', ''Truthyable'', ''Enumerable'', ''Monoid'', ''Group'', ''Errorable'']"

definition commonTrait :: "TraitRegistry \<Rightarrow> Type \<Rightarrow> Type \<Rightarrow> string" where
  "commonTrait reg a b =
     (case (m_implementations reg (implementorKey a), m_implementations reg (implementorKey b)) of
        (Some as, Some bs) \<Rightarrow>
          (case filter (\<lambda>t. t \<notin> set kBuiltin \<and> t \<in> set bs) as of [] \<Rightarrow> [] | t # _ \<Rightarrow> t)
      | _ \<Rightarrow> [])"

section \<open>The built-in registry\<close>

definition signature :: "string \<Rightarrow> Type list \<Rightarrow> Type \<Rightarrow> Signature" where
  "signature name params result = \<lparr>sig_name = name, sig_params = params, sig_result = result, sig_isFoul = False,
     sig_requiredParams = None, sig_paramNames = [], sig_makeModule = [], sig_declaringModule = []\<rparr>"

definition trait_of :: "string \<Rightarrow> Signature list \<Rightarrow> TraitDef" where
  "trait_of name required = \<lparr>td_name = name, td_requiredMethods = required, td_defaultMethods = []\<rparr>"

definition kEquatableShowable :: "string list" where
  "kEquatableShowable = [''Int'', ''Integer'', ''Byte'', ''Int8'', ''Int16'', ''Int32'',
     ''UInt16'', ''UInt32'', ''UInt64'', ''Float32'', ''Float64'', ''Char'', ''Bool'', ''Atom'', ''String'', ''Void'']"

definition kComparable :: "string list" where
  "kComparable = [''Int'', ''Integer'', ''Byte'', ''Int8'', ''Int16'', ''Int32'',
     ''UInt16'', ''UInt32'', ''UInt64'', ''Float32'', ''Float64'', ''Char'', ''String'']"

definition builtinTraits :: "TraitDef list" where
  "builtinTraits =
     [trait_of ''Number'' [], trait_of ''Integer'' [], trait_of ''Float'' [],
      trait_of ''Equatable'' [signature ''=='' [TypeVar (- 1)] (PrimitiveType K_Bool [])],
      trait_of ''Comparable'' [signature ''compare'' [TypeVar (- 1)] (NamedType ''Ordering'' [])],
      trait_of ''Inspectable'' [signature ''inspectValue'' [PrimitiveType K_Bool []] (PrimitiveType K_String [])],
      trait_of ''Showable'' [signature ''showValue'' [] (PrimitiveType K_String [])]]"

definition withBuiltins :: TraitRegistry where
  "withBuiltins =
     fold (\<lambda>name. registerImplementation name ''Comparable'') kComparable
       (fold (\<lambda>name. registerImplementation name ''Showable'' \<circ> registerImplementation name ''Equatable'') kEquatableShowable
         (fold define_trait builtinTraits empty_registry))"

section \<open>Laws\<close>

lemma registerImplementation_simps [simp]:
  "m_traits (registerImplementation n tr reg) = m_traits reg"
  "set (implementations (registerImplementation n tr reg) key) =
     (if key = n then insert tr (set (implementations reg n)) else set (implementations reg key))"
  by (auto simp: registerImplementation_def implementations_def set_insort_insert split: option.split)

lemma isItself_register [simp]: "isItself (registerImplementation n tr reg) = isItself reg"
  by (simp add: isItself_def get_trait_def fun_eq_iff split: Type.split)

definition numeric_trait :: "string \<Rightarrow> bool" where
  "numeric_trait tr \<longleftrightarrow> tr = ''Number'' \<or> tr = ''Integer'' \<or> tr = ''Float''"

definition universal_trait :: "string \<Rightarrow> bool" where
  "universal_trait tr \<longleftrightarrow> tr = ''Inspectable'' \<or> tr = ''Showable''"

fun component_types :: "Type \<Rightarrow> Type list option" where
  "component_types (ListType e) = Some [e]"
| "component_types (TupleType es) = Some es"
| "component_types (OptionalType e) = Some [e]"
| "component_types (MapType k v) = Some [k, v]"
| "component_types _ = None"

lemma satisfies_null [simp]: "\<not> satisfies reg NullPtr tr"
  by (subst satisfies.simps) simp

lemma satisfies_union:
  "satisfies reg (UnionType ms) tr \<longleftrightarrow> universal_trait tr \<or> (ms \<noteq> [] \<and> list_all (\<lambda>m. satisfies reg m tr) ms)"
  by (subst satisfies.simps) (simp add: universal_trait_def isItself_def)

lemma satisfies_constrained:
  "satisfies reg (ConstrainedType v bound i) tr \<longleftrightarrow> universal_trait tr \<or> bound = tr \<or>
     (tr = ''Number'' \<and> (bound = ''Integer'' \<or> bound = ''Float''))"
  by (subst satisfies.simps) (simp add: universal_trait_def isItself_def)

lemma satisfies_other:
  assumes "t \<noteq> NullPtr" "\<And>ms. t \<noteq> UnionType ms" "\<And>v b i. t \<noteq> ConstrainedType v b i"
  shows "satisfies reg t tr \<longleftrightarrow> universal_trait tr \<or> isItself reg t tr \<or>
    (if numeric_trait tr then satisfiesStructurally t tr
     else case (if tr = ''Equatable'' then component_types t else None) of
         Some ts \<Rightarrow> list_all (\<lambda>e. satisfies reg e tr) ts
       | None \<Rightarrow> registered reg t tr)"
  using assms by (subst satisfies.simps)
    (auto simp: universal_trait_def numeric_trait_def isCompound_def split: Type.splits)

lemma registered_mono: "registered reg t trait \<Longrightarrow> registered (registerImplementation n tr reg) t trait"
  by (auto simp: registered_def split: Type.splits)

lemma satisfies_mono:
  "satisfies reg t trait \<Longrightarrow> satisfies (registerImplementation n tr reg) t trait"
proof (induction t)
  case (ListType e)
  then show ?case by (auto simp: satisfies_other registered_mono split: if_splits)
next
  case (TupleType es)
  then show ?case by (auto simp: satisfies_other registered_mono list_all_iff split: if_splits)
next
  case (OptionalType e)
  then show ?case by (auto simp: satisfies_other registered_mono split: if_splits)
next
  case (MapType k v)
  then show ?case by (auto simp: satisfies_other registered_mono split: if_splits)
next
  case (UnionType ms)
  then show ?case by (auto simp: satisfies_union list_all_iff)
qed (auto simp: satisfies_other satisfies_constrained registered_mono split: if_splits)

lemma registered_named:
  "registered (registerImplementation n declared reg) (NamedType m args) tr \<longleftrightarrow>
     registered reg (NamedType m args) tr \<or> m = n \<and> tr = declared"
  by (auto simp: registered_def implementorKey_def implementations_def registerImplementation_def set_insort_insert
      split: option.splits)

lemma satisfies_named:
  "satisfies reg (NamedType m args) tr \<longleftrightarrow> universal_trait tr \<or> isItself reg (NamedType m args) tr \<or>
     (if numeric_trait tr then satisfiesStructurally (NamedType m args) tr else registered reg (NamedType m args) tr)"
  by (simp add: satisfies_other)

text \<open>
  C21: declaring that a named type implements a trait never takes a conformance away, from that type
  or any other type; and what it adds to the named types is this: the type of the declared name, with
  whatever arguments, satisfies the declared trait, unless that is one of the numeric traits, which
  are read off the shape of a type. No other named type and no other trait is affected.
\<close>

theorem registration_only_adds:
  assumes "satisfies reg t trait"
  shows "satisfies (registerImplementation n declared reg) t trait \<and>
    (\<forall>m args tr. satisfies (registerImplementation n declared reg) (NamedType m args) tr \<longleftrightarrow>
       satisfies reg (NamedType m args) tr \<or>
       m = n \<and> tr = declared \<and> declared \<notin> {''Number'', ''Integer'', ''Float''})"
proof -
  have "isItself (registerImplementation n declared reg) u tr = isItself reg u tr" for u tr
    by (simp add: isItself_def get_trait_def registerImplementation_def split: Type.split)
  then show ?thesis
    using satisfies_mono [OF assms] by (auto simp: satisfies_named registered_named numeric_trait_def)
qed

theorem registration_only_adds_witness:
  "satisfies (registerImplementation ''Point'' ''Comparable'' withBuiltins) (ListType (SizedIntType 8 True)) ''Showable'' \<and>
   satisfies (registerImplementation ''Point'' ''Comparable'' withBuiltins) (NamedType ''Point'' []) ''Comparable''"
proof -
  have "satisfies withBuiltins (ListType (SizedIntType 8 True)) ''Showable''"
    by (simp add: satisfies_other universal_trait_def)
  from registration_only_adds [OF this, of "''Point''" "''Comparable''"] show ?thesis by simp
qed

text \<open>
  C20: the numeric traits nest: whatever satisfies \<open>Integer\<close> or \<open>Float\<close> satisfies \<open>Number\<close>, in
  every registry - sized types, names of them, bounds, and unions of any of these.
\<close>

theorem numeric_traits_nest:
  assumes "satisfies reg t ''Integer'' \<or> satisfies reg t ''Float''"
  shows "satisfies reg t ''Number''"
  using assms
proof (induction t)
  case (UnionType ms)
  then show ?case by (auto simp: satisfies_union universal_trait_def list_all_iff)
qed (auto simp: satisfies_other satisfies_constrained universal_trait_def numeric_trait_def isItself_def
    satisfiesStructurally_def isInt_def isFloat_def kIntNames_def kFloatNames_def)

theorem numeric_traits_nest_witness:
  "satisfies withBuiltins (UnionType [SizedIntType 8 True, NamedType ''UInt8'' []]) ''Number''"
  by (rule numeric_traits_nest)
     (simp add: satisfies_union satisfies_other numeric_trait_def satisfiesStructurally_def isInt_def kIntNames_def)

definition sets_ok :: "TraitRegistry \<Rightarrow> bool" where
  \<comment> \<open>the traits of a type are a set, in ascending order\<close>
  "sets_ok reg \<longleftrightarrow> (\<forall>key. sorted (implementations reg key) \<and> distinct (implementations reg key))"

lemma sets_ok_register: "sets_ok reg \<Longrightarrow> sets_ok (registerImplementation n tr reg)"
  by (auto simp: sets_ok_def registerImplementation_def implementations_def sorted_insort_insert distinct_insort_insert
      split: option.splits) 

lemma define_implementations [simp]: "implementations (fold define_trait ds reg) key = implementations reg key"
  by (induction ds arbitrary: reg) (auto simp: define_trait_def implementations_def)

lemma implementations_empty [simp]: "implementations empty_registry key = []"
  by (simp add: empty_registry_def implementations_def)

lemma sets_ok_builtins: "sets_ok withBuiltins"
proof -
  have "sets_ok (fold (\<lambda>n. registerImplementation n tr) ns reg)" if "sets_ok reg" for ns reg tr
    using that by (induction ns arbitrary: reg) (auto intro: sets_ok_register)
  moreover have "sets_ok (fold (\<lambda>n. registerImplementation n tr \<circ> registerImplementation n tr') ns reg)"
    if "sets_ok reg" for ns reg tr tr'
    using that by (induction ns arbitrary: reg) (auto intro: sets_ok_register)
  moreover have "sets_ok (fold define_trait ds empty_registry)" for ds
    by (simp add: sets_ok_def)
  ultimately show ?thesis by (simp add: withBuiltins_def)
qed

text \<open>
  C22: the trait two types have in common does not depend on which is asked first: a list
  \<open>[a, b]\<close> widens to the same trait as \<open>[b, a]\<close>.
\<close>

theorem common_trait_is_symmetric:
  assumes "sets_ok reg"
  shows "commonTrait reg a b = commonTrait reg b a"
proof -
  have "filter (\<lambda>t. t \<notin> B \<and> t \<in> set bs) as = filter (\<lambda>t. t \<notin> B \<and> t \<in> set as) bs"
    if "sorted as" "distinct as" "sorted bs" "distinct bs" for as bs :: "string list" and B
    using that by (intro sorted_distinct_set_unique) (auto intro: sorted_filter [of id, simplified])
  moreover have "sorted ts \<and> distinct ts" if "m_implementations reg key = Some ts" for key ts
    using assms that by (metis sets_ok_def implementations_def option.simps(5))
  ultimately show ?thesis
    unfolding commonTrait_def by (auto split: option.split)
qed

theorem common_trait_is_symmetric_witness:
  "commonTrait (fold (\<lambda>(n, tr). registerImplementation n tr)
       [(''Box'', ''Shape''), (''Box'', ''Area''), (''Disc'', ''Area''), (''Disc'', ''Shape'')] empty_registry)
     (NamedType ''Disc'' []) (NamedType ''Box'' []) = ''Area''"
proof -
  let ?reg = "fold (\<lambda>(n, tr). registerImplementation n tr)
    [(''Box'', ''Shape''), (''Box'', ''Area''), (''Disc'', ''Area''), (''Disc'', ''Shape'')] empty_registry"
  have "sets_ok empty_registry" by (simp add: sets_ok_def)
  then have "sets_ok ?reg" by (simp add: sets_ok_register)
  then have "commonTrait ?reg (NamedType ''Disc'' []) (NamedType ''Box'' []) = commonTrait ?reg (NamedType ''Box'' []) (NamedType ''Disc'' [])"
    by (rule common_trait_is_symmetric)
  also have "\<dots> = ''Area''" by code_simp
  finally show ?thesis .
qed

section \<open>Looking a trait up\<close>

lemma lookup_loop_filter:
  "lookup_loop suffix ts found =
     (case filter (\<lambda>(name, _). length name > length suffix \<and> ends_with name suffix) ts of
        [] \<Rightarrow> found
      | [x] \<Rightarrow> if found = None then Some (snd x) else None
      | _ \<Rightarrow> None)"
  by (induction suffix ts found rule: lookup_loop.induct) (auto split: list.split)

text \<open>
  The search for the end of exactly one name does not depend on the order in which the hash map
  is iterated.
\<close>

lemma lookup_ignores_order:
  assumes "distinct (map fst (m_traits reg))" "mset (m_traits reg') = mset (m_traits reg)"
  shows "lookup_trait reg' written = lookup_trait reg written"
proof -
  let ?p = "\<lambda>(name, _). length name > length (''.'' @ written) \<and> ends_with name (''.'' @ written)"
  have "set (m_traits reg') = set (m_traits reg)" using assms(2) by (metis set_mset_mset)
  moreover have "distinct (map fst (m_traits reg'))"
    using assms by (metis mset_eq_imp_distinct_iff mset_map)
  ultimately have "map_of (m_traits reg') = map_of (m_traits reg)"
    using assms(1) by (simp only: map_of_inject_set)
  then have get: "get_trait reg' written = get_trait reg written"
    by (simp only: get_trait_def)
  have m: "mset (filter ?p (m_traits reg')) = mset (filter ?p (m_traits reg))"
    using assms(2) by simp
  have "(case xs of [] \<Rightarrow> None | [x] \<Rightarrow> Some (snd x) | _ \<Rightarrow> None) = (case ys of [] \<Rightarrow> None | [x] \<Rightarrow> Some (snd x) | _ \<Rightarrow> None)"
    if "mset xs = mset ys" for xs ys :: "(string \<times> TraitDef) list"
  proof -
    have "length xs = length ys" using that by (rule mset_eq_length)
    then show ?thesis
      using that by (cases xs; cases ys; cases "tl xs"; cases "tl ys") auto
  qed
  from this [OF m] have "lookup_loop (''.'' @ written) (m_traits reg') None = lookup_loop (''.'' @ written) (m_traits reg) None"
    unfolding lookup_loop_filter by (simp cong: list.case_cong)
  then show ?thesis by (simp only: lookup_trait_def get)
qed

section \<open>Atom literals\<close>

text \<open>
  The type of an atom literal is interchangeable with \<open>Atom\<close> for equality, but its key is the
  literal itself, under which nothing is registered.
\<close>

lemma atom_literal_is_not_equatable:
  "typesEqual same (PrimitiveType K_Atom ''macos'') (PrimitiveType K_Atom [])"
  "satisfies withBuiltins (PrimitiveType K_Atom []) ''Equatable''"
  "\<not> satisfies withBuiltins (PrimitiveType K_Atom ''macos'') ''Equatable''"
proof -
  have "set (implementations withBuiltins '':macos'') = {}" "''Equatable'' \<in> set (implementations withBuiltins ''Atom'')"
    by (simp_all add: withBuiltins_def kComparable_def kEquatableShowable_def)
  then show "typesEqual same (PrimitiveType K_Atom ''macos'') (PrimitiveType K_Atom [])"
    "satisfies withBuiltins (PrimitiveType K_Atom []) ''Equatable''"
    "\<not> satisfies withBuiltins (PrimitiveType K_Atom ''macos'') ''Equatable''"
    by (simp_all add: typesEqual.simps satisfies_other universal_trait_def numeric_trait_def isItself_def
        registered_def implementorKey_def primitiveName_def)
qed

end
