(* ===== verification/Spec2Isabelle.thy ===== *)
theory Spec2Isabelle
  imports Utf8 UnicodeCategory CaseMapping Token RawString Lexer Tokenize Lexemes Bytes Etf BeamFile
    Values Operators Effects ValueText FloatText MapOps ListOps Scheduler SchedulerLaws SchedulerProps
    Types TypeLaws Traits
begin

text \<open>
  This development models parts of Kex, a programming language with a C++ implementation: a lexer
  and parser, a checker, a tree-walking interpreter with cooperative processes, and a compiler that
  emits BEAM files.  It holds executable definitions translated from the sources under \<open>src/src/\<close>
  and the theorems that make them correct.  The properties are numbered C1, C2 and so on where they
  are stated; each stands in the theory of the component it is about.

  The parts and how they meet

  \<^item> Text.  \<open>common/utf8.hxx\<close> encodes and decodes, \<open>common/unicode_category.hxx\<close> and
    \<open>common/unicode_case.hxx\<close> hold the tables it searches.  \<open>Utf8\<close> has \<open>encode\<close>, \<open>decodeAt\<close> and the
    counting of codepoints; \<open>UnicodeTables\<close> the rows of the tables; \<open>RangeSearch\<close> the bisection all
    three searches share; \<open>UnicodeCategory\<close> and \<open>CaseMapping\<close> the searches themselves.
  \<^item> Source to tokens.  \<open>lexer/lexer.cxx\<close> turns the text into tokens and, for tools, each token into
    its text and the trivia before it.  \<open>Token\<close> has the token types and the keyword table, \<open>RawString\<close>
    the dedenting of \<open>common/raw_string_margin.hxx\<close>, \<open>Lexer\<close> every member function of the scanner as
    a function on the record \<open>Lexer\<close>, \<open>Tokenize\<close> the two loops over it, and \<open>Lexemes\<close> what the
    scanner returns literal by literal.
  \<^item> The checker's types.  \<open>Types\<close> is the type algebra of \<open>semantic/types.cxx\<close>, \<open>TypeLaws\<close> its
    theorems, \<open>Traits\<close> the registry of \<open>semantic/traits.cxx\<close>, which asks about types.
  \<^item> The interpreter.  \<open>Values\<close>, \<open>ValueText\<close> and \<open>FloatText\<close> model \<open>interpreter/value.cxx\<close>: the tagged
    union, its equality and its texts.  \<open>Operators\<close> has \<open>evalBinaryOp\<close> and \<open>evalUnaryOp\<close> of
    \<open>interpreter/evaluator.cxx\<close>; \<open>Effects\<close>, \<open>MapOps\<close> and \<open>ListOps\<close> the native functions of
    \<open>interpreter/stdlib/map.cxx\<close> and \<open>list.cxx\<close>, which search with the same equality.  \<open>Scheduler\<close> is
    \<open>interpreter/scheduler.cxx\<close>: process table, ready queue, timeouts, mailboxes, tasks, servers,
    supervisors and the driving loop; \<open>SchedulerLaws\<close> its reachable states and their invariant,
    \<open>SchedulerProps\<close> its properties.
  \<^item> Compiled units.  \<open>Bytes\<close> has the integers of the binary formats, \<open>Etf\<close> the External Term Format
    of \<open>beam/etf.cxx\<close>, \<open>BeamFile\<close> the chunk container of \<open>beam/beam_file.cxx\<close>.

  The lexer reads the text the codec and the category tables describe; the printer of values and the
  scanner meet in C16, which reads back a printed atom; the operators, the intrinsics and the
  scheduler share the values; the traits ask about the types the algebra builds.

  Conventions

  A struct is a record or a one-constructor datatype, an enumeration or a variant a datatype, a
  pointer that may be null an option or a constructor.  Bytes are words of eight bits, \<open>int64_t\<close>
  words of sixty-four with the overflow checks written out, and \<open>mpz_class\<close> the integers.  A string
  is its list of bytes.  Everything thrown is the left side of a sum.  State is passed explicitly, in
  records named after the class.  An \<open>unordered_map\<close> is a list in its iteration order.  Where the
  order of evaluation of C++ is unspecified the model reads from left to right.  \<open>std::stable_sort\<close>
  is insertion of each element behind its equals.

  The scheduler is a step relation: a fiber is the activity its process records (user code, or an
  iteration of a wait loop with its local variables), and what user code does next is the choice of
  the next \<open>event\<close>.  Simplified: the method of a server and the clause test of a receive are functions
  that may fail, where the source runs user code that could also yield, send or spawn; the block of a
  supervised child is a function on the scheduler, and the body of a supervisor runs as \<open>Spawn\<close> and
  \<open>Sleep\<close> events; time and the counters are unbounded.

  What the sources only call is a parameter: the floating-point operations and texts of the machine
  (record \<open>host\<close>), user code called back by intrinsics (\<open>callbacks\<close>), overload dispatch
  (\<open>dispatcher\<close>), the conversions of GMP (\<open>gmp\<close>, \<open>sizeinbase2\<close>), the methods of a server
  (\<open>invoke\<close>), the clock, and the identity of shared pointers (\<open>same\<close>).  A property with a hypothesis
  about one of them has a witness with a concrete function.

  Bounds and fuel.  The loops of the scanner and the searches are functions with measures.  The
  decoder of terms takes fuel one for every byte, and \<open>decodeEtf_terminates\<close> shows that no input
  exhausts it.  The reductions of a process are the source's own constant of 2000.

  What the lemmas show

  \<^item> Round trips: source and tokens (C1), terms (C2), containers (C6, C38), codepoints (C39), string and
    raw literals (C35, C40), printed atoms (C16).
  \<^item> Invariants and safety: the bookkeeping of the scheduler and what follows for the ready queue, the
    driving loop, preemption, waits, messages and tasks (C3, C5, C8 to C13); canonical integers (C24);
    no placeholder in a rendering (C14).
  \<^item> Equivalence with a plainer definition: exact integer arithmetic and division (C4, C23), maps as
    functions (C7, C26), list intrinsics as list functions (C27 to C30), equality of types as equality
    of normal forms (C17), an intersection as its members without duplicates or \<open>Never\<close> (C18), the
    value of a float text (C15), dedenting (C34).
  \<^item> Locations, escapes and trivia (C32, C33, C36), termination of the decoder (C37), traits
    (C20 to C22), reflection (C19), the two operators of equality (C25), \<open>inspect\<close> (C31).

  Lemmas named by the findings of the manifest show where the code does otherwise than its comments
  and documents say.

  Interfaces.  A locale states what one component relies on in another: bisection over an ordered
  table (\<open>table_search\<close>, interpreted on the three searches), a writer and its reader (\<open>codec\<close>, on
  the integers and on terms), a store of chunks (\<open>chunk_store\<close>, on the BEAM container), a map by keys
  (\<open>key_store\<close>, on the map intrinsics).

  Not modelled

  \<^item> The parser, the checker's passes over the program (\<open>semantic/typechecker.cxx\<close> and the files around
    it), compile-time expansion and the lowering to Core Erlang (\<open>ir/\<close>).
  \<^item> The evaluator's statements, calls and patterns: only its operators are here.  Streams and feeds
    appear as values; pulling one runs user code.
  \<^item> The interface chunk, the registry of compiled units and the module resolver.
  \<^item> Command line, language server, cache and the intrinsics over files, sockets and processes of the
    host: input and output.
\<close>

end
